(* ===== verification/Prelude.thy ===== *)
theory Prelude
  imports Main "HOL-Library.Word"
begin

section \<open>Prelude: the parts of C and its library that the components share\<close>

text \<open>
  This theory holds what every component of gala-gopher takes from the C language and its
  standard library: machine integers, undefined behaviour as a value, a heap that counts live
  blocks and follows a script of allocation failures, strings and the bounded string functions
  (\<open>strncpy\<close>, \<open>snprintf\<close>, \<open>strsep\<close>, \<open>strtok\<close>, \<open>atoi\<close>), decimal output, and the two
  interfaces several components provide: a bounded first-in first-out queue and a table of
  bounded capacity.
\<close>

subsection \<open>Collections of rewrite rules\<close>

named_theorems heap_simps \<open>effect of the allocator on the count of live blocks\<close>
named_theorems str_simps \<open>equations of the string functions\<close>

subsection \<open>Machine integers and undefined behaviour\<close>

unbundle bit_operations_syntax

type_synonym u8 = "8 word"
type_synonym u16 = "16 word"
type_synonym u32 = "32 word"
type_synonym u64 = "64 word"

datatype ub =
    NullDeref
  | OutOfBounds
  | BadFormat
  | UseAfterFree
  | DoubleFree
  | BadThread

type_synonym 'a c = "ub + 'a"

fun bindc :: "'a c \<Rightarrow> ('a \<Rightarrow> 'b c) \<Rightarrow> 'b c" where
  "bindc (Inl e) f = Inl e"
| "bindc (Inr x) f = f x"

lemma bindc_eq_Inr [simp]: "bindc m f = Inr y \<longleftrightarrow> (\<exists>x. m = Inr x \<and> f x = Inr y)"
  by (cases m) auto

lemma bindc_eq_Inl [simp]:
  "bindc m f = Inl e \<longleftrightarrow> m = Inl e \<or> (\<exists>x. m = Inr x \<and> f x = Inl e)"
  by (cases m) auto

text \<open>The C type \<open>int\<close> of 32 bits: conversion of an integer to it wraps around.\<close>

definition to_int32 :: "int \<Rightarrow> int" where
  "to_int32 n = sint (word_of_int n :: u32)"

lemma to_int32_id: "- (2 ^ 31) \<le> n \<Longrightarrow> n < 2 ^ 31 \<Longrightarrow> to_int32 n = n"
  unfolding to_int32_def by (simp add: sint_sbintrunc' signed_take_bit_int_eq_self)

lemma unat_u32: "n < 2 ^ 32 \<Longrightarrow> unat (of_nat n :: u32) = n"
  by (simp add: unsigned_of_nat take_bit_nat_eq_self)

lemma unat_m1_u32 [simp]: "unat (- 1 :: u32) = 4294967295"
proof -
  have "uint (- 1 :: u32) = 4294967295" by (simp add: uint_word_ariths(4))
  then show ?thesis by (simp add: unat_eq_nat_uint)
qed

lemma unat_ucast_u64: "unat (ucast (w :: u32) :: u64) = unat w"
proof -
  have "uint (ucast w :: u64) = uint w" by (rule uint_up_ucast) (simp only: is_up, simp)
  then show ?thesis by (simp only: unat_eq_nat_uint)
qed

lemma sint_scast_u64: "sint (scast (w :: u32) :: u64) = sint w"
  by (rule sint_up_scast) (simp only: is_up, simp)

lemma u32_bound: "unat (w :: u32) < 2 ^ 32"
  using unsigned_less [of w] by simp

subsection \<open>The heap\<close>

text \<open>
  A heap is a script of the results of the coming calls of \<open>malloc\<close> (a call past the end of the
  script succeeds) and the number of blocks that are allocated and not freed.
\<close>

record heap =
  mscript :: "bool list"
  mlive :: int

definition malloc :: "heap \<Rightarrow> bool \<times> heap" where
  "malloc h = (case mscript h of
     [] \<Rightarrow> (True, h\<lparr>mlive := mlive h + 1\<rparr>)
   | b # bs \<Rightarrow> (b, h\<lparr>mscript := bs, mlive := (if b then mlive h + 1 else mlive h)\<rparr>))"

definition free :: "heap \<Rightarrow> heap" where
  "free h = h\<lparr>mlive := mlive h - 1\<rparr>"

definition free_n :: "nat \<Rightarrow> heap \<Rightarrow> heap" where
  "free_n n h = h\<lparr>mlive := mlive h - int n\<rparr>"

text \<open>A heap without a failing allocation and without blocks, for examples.\<close>

abbreviation heap0 :: heap where "heap0 \<equiv> \<lparr>mscript = [], mlive = 0\<rparr>"

lemma malloc_live [heap_simps]:
  "malloc h = (True, h') \<Longrightarrow> mlive h' = mlive h + 1"
  "malloc h = (False, h') \<Longrightarrow> mlive h' = mlive h"
  by (auto simp: malloc_def split: list.splits)

lemma free_live [heap_simps, simp]: "mlive (free h) = mlive h - 1"
  by (simp add: free_def)

lemma free_n_live [heap_simps, simp]: "mlive (free_n n h) = mlive h - int n"
  by (simp add: free_n_def)

lemma malloc_ok [simp]: "mscript h = [] \<Longrightarrow> malloc h = (True, h\<lparr>mlive := mlive h + 1\<rparr>)"
  by (simp add: malloc_def)

lemma free_script [simp]: "mscript (free h) = mscript h" "mscript (free_n n h) = mscript h"
  by (simp_all add: free_def free_n_def)

lemma malloc_script: "mscript h = [] \<Longrightarrow> malloc h = (b, h') \<Longrightarrow> b \<and> mscript h' = []"
  by auto

subsection \<open>Strings\<close>

text \<open>
  A C string is the list of its characters before the terminating NUL. A character array of
  \<open>n\<close> bytes that starts out zeroed holds such a string of at most \<open>n - 1\<close> characters.
\<close>

type_synonym cstr = string

definition strncpy :: "nat \<Rightarrow> cstr \<Rightarrow> cstr" where
  "strncpy n src = take n src"

text \<open>
  \<open>snprintf buf n\<close> of an output \<open>out\<close>: what the buffer holds afterwards (nothing is written
  when the size is 0) and the return value, the length of the whole output.
\<close>

definition snprintf :: "nat \<Rightarrow> cstr \<Rightarrow> cstr \<Rightarrow> cstr \<times> int" where
  "snprintf n old out = (if n = 0 then old else take (n - 1) out, int (length out))"

lemma snprintf_ret [simp]: "snd (snprintf n old out) = int (length out)"
  by (simp add: snprintf_def)

lemma snprintf_fits: "length out < n \<Longrightarrow> snprintf n old out = (out, int (length out))"
  by (simp add: snprintf_def)

lemma strncpy_le [simp]: "length (strncpy n s) \<le> n"
  by (simp add: strncpy_def)

lemma strncpy_id: "length s \<le> n \<Longrightarrow> strncpy n s = s"
  by (simp add: strncpy_def)

text \<open>
  Output of a format string that is given no arguments, as in \<open>snprintf(dst, n, name)\<close>:
  \<open>%%\<close> prints a percent sign, any other conversion reads an argument that is not there or is
  incomplete, which is undefined.
\<close>

fun fmt0 :: "cstr \<Rightarrow> cstr c" where
  "fmt0 [] = Inr []"
| "fmt0 (ch # cs) =
     (if ch \<noteq> CHR ''%'' then bindc (fmt0 cs) (\<lambda>r. Inr (ch # r))
      else (case cs of
              [] \<Rightarrow> Inl BadFormat
            | d # ds \<Rightarrow> if d = CHR ''%'' then bindc (fmt0 ds) (\<lambda>r. Inr (d # r))
                       else Inl BadFormat))"

definition plain :: "cstr \<Rightarrow> bool" where
  "plain s \<longleftrightarrow> CHR ''%'' \<notin> set s"

lemma fmt0_plain [simp]: "plain s \<Longrightarrow> fmt0 s = Inr s"
  unfolding plain_def by (induction s rule: fmt0.induct) auto

text \<open>\<open>strsep\<close> called until it returns NULL: the pieces between the separators, empty ones too.\<close>

fun split_on :: "char \<Rightarrow> cstr \<Rightarrow> cstr list" where
  "split_on d [] = [[]]"
| "split_on d (ch # cs) =
     (if ch = d then [] # split_on d cs
      else (case split_on d cs of [] \<Rightarrow> [[ch]] | t # ts \<Rightarrow> (ch # t) # ts))"

text \<open>\<open>strtok\<close> called until it returns NULL: the pieces that are not empty.\<close>

definition strtok_all :: "char \<Rightarrow> cstr \<Rightarrow> cstr list" where
  "strtok_all d s = filter (\<lambda>t. t \<noteq> []) (split_on d s)"

fun join :: "char \<Rightarrow> cstr list \<Rightarrow> cstr" where
  "join d [] = []"
| "join d [t] = t"
| "join d (t # ts) = t @ d # join d ts"

lemma split_on_ne [simp]: "split_on d s \<noteq> []"
  by (cases s) (auto split: list.splits)

lemma split_on_free [str_simps]: "d \<notin> set s \<Longrightarrow> split_on d s = [s]"
  by (induction s) auto

lemma split_on_append [str_simps]:
  "d \<notin> set s \<Longrightarrow> split_on d (s @ d # r) = s # split_on d r"
  by (induction s) auto

lemma split_on_no_sep: "t \<in> set (split_on d s) \<Longrightarrow> d \<notin> set t"
  by (induction s arbitrary: t) (auto split: list.splits if_splits)

lemma join_split_on: "join d (split_on d s) = s"
proof (induction s)
  case (Cons ch s)
  obtain t ts where eq: "split_on d s = t # ts"
    by (cases "split_on d s") auto
  with Cons show ?case by (cases ts) auto
qed simp

lemma split_on_join:
  "ts \<noteq> [] \<Longrightarrow> (\<And>t. t \<in> set ts \<Longrightarrow> d \<notin> set t) \<Longrightarrow> split_on d (join d ts) = ts"
  by (induction d ts rule: join.induct) (auto simp: str_simps)

text \<open>Decimal output of the conversions \<open>%u\<close>, \<open>%d\<close>, \<open>%lld\<close>.\<close>

definition digit_char :: "nat \<Rightarrow> char" where
  "digit_char n = char_of (48 + n)"

fun show_nat :: "nat \<Rightarrow> cstr" where
  "show_nat n = (if n < 10 then [digit_char n] else show_nat (n div 10) @ [digit_char (n mod 10)])"

declare show_nat.simps [simp del]

definition show_int :: "int \<Rightarrow> cstr" where
  "show_int i = (if i < 0 then CHR ''-'' # show_nat (nat (- i)) else show_nat (nat i))"

definition is_digit :: "char \<Rightarrow> bool" where
  "is_digit ch \<longleftrightarrow> 48 \<le> (of_char ch :: nat) \<and> (of_char ch :: nat) \<le> 57"

definition digit_val :: "char \<Rightarrow> nat" where
  "digit_val ch = of_char ch - 48"

definition read_nat :: "cstr \<Rightarrow> nat" where
  "read_nat s = foldl (\<lambda>a ch. a * 10 + digit_val ch) 0 s"

lemma of_char_digit [simp]: "n < 10 \<Longrightarrow> of_char (digit_char n) = 48 + (n :: nat)"
  by (simp add: digit_char_def)

lemma is_digit_char [simp]: "n < 10 \<Longrightarrow> is_digit (digit_char n)"
  by (simp add: is_digit_def)

lemma digit_val_char [simp]: "n < 10 \<Longrightarrow> digit_val (digit_char n) = n"
  by (simp add: digit_val_def)

lemma digit_chars:
  "digit_char 0 = CHR ''0''"
  "digit_char (Suc 0) = CHR ''1''"
  "digit_char 2 = CHR ''2''"
  "digit_char 3 = CHR ''3''"
  "digit_char 4 = CHR ''4''"
  "digit_char 5 = CHR ''5''"
  "digit_char 6 = CHR ''6''"
  "digit_char 7 = CHR ''7''"
  "digit_char 8 = CHR ''8''"
  "digit_char 9 = CHR ''9''"
  by (code_simp)+

lemma show_nat_digits: "\<forall>ch \<in> set (show_nat n). is_digit ch"
proof (induction n rule: show_nat.induct)
  case (1 n)
  then show ?case by (subst show_nat.simps) auto
qed

lemma show_nat_ne [simp]: "show_nat n \<noteq> []"
  by (subst show_nat.simps) simp

lemma read_show_nat [simp]: "read_nat (show_nat n) = n"
proof (induction n rule: show_nat.induct)
  case (1 n)
  show ?case
  proof (cases "n < 10")
    case True
    then show ?thesis by (subst show_nat.simps) (simp add: read_nat_def)
  next
    case False
    with 1 have "read_nat (show_nat (n div 10)) = n div 10" by simp
    with False show ?thesis by (subst show_nat.simps) (simp add: read_nat_def)
  qed
qed

lemma show_nat_inj: "show_nat m = show_nat n \<Longrightarrow> m = n"
  by (metis read_show_nat)

lemma show_nat_length: "0 < k \<Longrightarrow> n < 10 ^ k \<Longrightarrow> length (show_nat n) \<le> k"
proof (induction n arbitrary: k rule: show_nat.induct)
  case (1 n)
  show ?case
  proof (cases "n < 10")
    case True
    with 1 show ?thesis by (subst show_nat.simps) simp
  next
    case False
    have "k \<noteq> 1" using False 1(3) by auto
    with 1(2) obtain k' where k: "k = Suc k'" "0 < k'"
      by (cases k) auto
    then have "n div 10 < 10 ^ k'" using 1(3) by (auto simp: div_less_iff_less_mult)
    with 1(1)[OF False k(2)] k(1) False show ?thesis by (subst show_nat.simps) simp
  qed
qed

text \<open>
  \<open>atoi\<close>: white space, an optional sign, then the longest run of digits. The C library converts
  the saturated \<open>long\<close> that \<open>strtol\<close> returns to \<open>int\<close>.
\<close>

definition is_space :: "char \<Rightarrow> bool" where
  "is_space ch \<longleftrightarrow> of_char ch = (32 :: nat) \<or> (9 \<le> (of_char ch :: nat) \<and> (of_char ch :: nat) \<le> 13)"

definition strtol :: "cstr \<Rightarrow> int" where
  "strtol s =
     (let t = dropWhile is_space s;
          neg = (t \<noteq> [] \<and> hd t = CHR ''-'');
          u = (if t \<noteq> [] \<and> (hd t = CHR ''-'' \<or> hd t = CHR ''+'') then tl t else t);
          v = int (read_nat (takeWhile is_digit u))
      in if neg then max (- v) (- (2 ^ 63)) else min v (2 ^ 63 - 1))"

definition atoi :: "cstr \<Rightarrow> int" where
  "atoi s = to_int32 (strtol s)"

lemma takeWhile_digits_show [simp]: "takeWhile is_digit (show_nat n) = show_nat n"
  using show_nat_digits by (simp add: takeWhile_eq_all_conv)

lemma digit_not_space: "is_digit ch \<Longrightarrow> \<not> is_space ch"
  by (auto simp: is_digit_def is_space_def)

lemma digit_not_sign: "is_digit ch \<Longrightarrow> ch \<noteq> CHR ''-'' \<and> ch \<noteq> CHR ''+''"
  by (auto simp: is_digit_def)

lemma atoi_show_nat: assumes "n < 2 ^ 31" shows "atoi (show_nat n) = int n"
proof -
  obtain ch cs where s: "show_nat n = ch # cs" by (cases "show_nat n") auto
  with show_nat_digits [of n] have d: "is_digit ch" by auto
  have "dropWhile is_space (show_nat n) = show_nat n"
    using s digit_not_space [OF d] by simp
  moreover have "hd (show_nat n) \<noteq> CHR ''-''" "hd (show_nat n) \<noteq> CHR ''+''"
    using digit_not_sign [OF d] s by simp_all
  ultimately have "strtol (show_nat n) = min (int n) (2 ^ 63 - 1)"
    by (simp add: strtol_def Let_def)
  with assms show ?thesis by (simp add: atoi_def to_int32_id)
qed

subsection \<open>Lists\<close>

lemma replicate_two: "replicate 2 x = [x, x]"
  by (simp add: numeral_2_eq_2)

lemma find_append:
  "List.find P (xs @ ys) = (case List.find P xs of None \<Rightarrow> List.find P ys | Some x \<Rightarrow> Some x)"
  by (induction xs) auto

end
