(* ===== verification/Interfaces.thy ===== *)
theory Interfaces
  imports Prelude
begin

section \<open>The interfaces between the components\<close>

text \<open>
  Two contracts occur throughout gala-gopher. Threads hand messages over through a bounded
  queue, and every manager keeps its objects in an array that is allocated once and filled from
  the left. Each contract is a locale; the components that provide it interpret the locale on
  their own definitions, and the components that use it rest on the facts of the interpretation.
\<close>

subsection \<open>Loops over possibly failing steps\<close>

fun foldc :: "('a \<Rightarrow> 's \<Rightarrow> 's c) \<Rightarrow> 'a list \<Rightarrow> 's \<Rightarrow> 's c" where
  "foldc f [] s = Inr s"
| "foldc f (x # xs) s = bindc (f x s) (foldc f xs)"

lemma foldc_append: "foldc f (xs @ ys) s = bindc (foldc f xs s) (foldc f ys)"
proof (induction xs arbitrary: s)
  case (Cons x xs)
  then show ?case by (cases "f x s") auto
qed simp

lemma foldc_invariant:
  "(\<And>x s s'. x \<in> set xs \<Longrightarrow> P s \<Longrightarrow> f x s = Inr s' \<Longrightarrow> P s') \<Longrightarrow> P s
     \<Longrightarrow> foldc f xs s = Inr s' \<Longrightarrow> P s'"
proof (induction xs arbitrary: s)
  case (Cons x xs)
  then obtain t where "f x s = Inr t" "foldc f xs t = Inr s'" by auto
  with Cons show ?case by (meson list.set_intros)
qed simp

lemma foldc_total:
  "(\<And>x s. x \<in> set xs \<Longrightarrow> P s \<Longrightarrow> \<exists>s'. f x s = Inr s' \<and> P s') \<Longrightarrow> P s
     \<Longrightarrow> \<exists>s'. foldc f xs s = Inr s' \<and> P s'"
proof (induction xs arbitrary: s)
  case (Cons x xs)
  then obtain t where "f x s = Inr t" "P t" by (meson list.set_intros)
  with Cons show ?case by auto
qed simp

text \<open>
  The loop \<open>while (Get(q, &x) == 0) body(x)\<close>. The first argument is fuel: the result is
  \<open>None\<close> when the loop would need more rounds.
\<close>

fun drain :: "nat \<Rightarrow> ('q \<Rightarrow> 'a \<Rightarrow> ('q \<times> 'a \<times> u32) c) \<Rightarrow> ('a \<Rightarrow> 's \<Rightarrow> 's c)
    \<Rightarrow> 'q \<Rightarrow> 'a \<Rightarrow> 's \<Rightarrow> ('q \<times> 's) c option" where
  "drain 0 get body q x s = None"
| "drain (Suc n) get body q x s =
     (case get q x of
        Inl e \<Rightarrow> Some (Inl e)
      | Inr (q', x', r) \<Rightarrow>
          if r = 0 then
            (case body x' s of
               Inl e \<Rightarrow> Some (Inl e)
             | Inr s' \<Rightarrow> drain n get body q' x' s')
          else Some (Inr (q', s)))"

subsection \<open>A bounded queue\<close>

locale bounded_queue =
  fixes put :: "'q \<Rightarrow> 'a \<Rightarrow> ('q \<times> u32) c"
    and get :: "'q \<Rightarrow> 'a \<Rightarrow> ('q \<times> 'a \<times> u32) c"
    and content :: "'q \<Rightarrow> 'a list"
    and room :: "'q \<Rightarrow> nat"
    and wf :: "'q \<Rightarrow> bool"
  assumes put_room: "wf q \<Longrightarrow> 0 < room q \<Longrightarrow>
      \<exists>q'. put q x = Inr (q', 0) \<and> wf q' \<and> content q' = content q @ [x] \<and> room q' = room q - 1"
    and put_full: "wf q \<Longrightarrow> room q = 0 \<Longrightarrow> put q x = Inr (q, - 1)"
    and get_some: "wf q \<Longrightarrow> content q = y # ys \<Longrightarrow>
      \<exists>q'. get q x = Inr (q', y, 0) \<and> wf q' \<and> content q' = ys \<and> room q' = room q + 1"
    and get_none: "wf q \<Longrightarrow> content q = [] \<Longrightarrow> get q x = Inr (q, x, - 1)"
begin

lemma put_cases:
  assumes "wf q"
  obtains (stored) q' where "put q x = Inr (q', 0)" "wf q'" "content q' = content q @ [x]"
      "room q' = room q - 1" "0 < room q"
    | (full) "put q x = Inr (q, - 1)" "room q = 0"
  using put_room [OF assms, of x] put_full [OF assms, of x] by (cases "room q = 0") auto

lemma put_wf: "wf q \<Longrightarrow> put q x = Inr (q', r) \<Longrightarrow> wf q'"
  using put_cases [of q x] by fastforce

lemma get_wf: "wf q \<Longrightarrow> get q x = Inr (q', y, r) \<Longrightarrow> wf q'"
  using get_some [of q _ _ x] get_none [of q x] by (cases "content q") fastforce+

lemma drain_content:
  assumes "wf q" and "length (content q) < n"
  shows "case foldc body (content q) s of
           Inl e \<Rightarrow> drain n get body q x s = Some (Inl e)
         | Inr s' \<Rightarrow> \<exists>q'. drain n get body q x s = Some (Inr (q', s')) \<and> wf q' \<and> content q' = []
                          \<and> room q' = room q + length (content q)"
  using assms
proof (induction n arbitrary: q x s)
  case (Suc n)
  show ?case
  proof (cases "content q")
    case Nil
    then show ?thesis using get_none [OF Suc.prems(1) Nil, of x] Suc.prems(1) by simp
  next
    case (Cons y ys)
    then obtain q' where q': "get q x = Inr (q', y, 0)" "wf q'" "content q' = ys"
        "room q' = room q + 1"
      using get_some [OF Suc.prems(1), of y ys x] by blast
    show ?thesis
    proof (cases "body y s")
      case (Inr s')
      from Suc.IH [OF q'(2), of y s'] Suc.prems(2) q' Cons Inr show ?thesis
        by (auto split: sum.splits)
    qed (use q' Cons in simp)
  qed
qed simp

lemma drain_enough_fuel:
  "wf q \<Longrightarrow> length (content q) < n \<Longrightarrow> drain n get body q x s \<noteq> None"
  using drain_content [where body = body and s = s and x = x] by (fastforce split: sum.splits)

end

subsection \<open>A table of bounded capacity\<close>

fun add_until :: "('m \<Rightarrow> 'e \<Rightarrow> 'm \<times> int) \<Rightarrow> 'm \<Rightarrow> 'e list \<Rightarrow> 'm \<times> int" where
  "add_until add m [] = (m, 0)"
| "add_until add m (e # es) =
     (let (m', r) = add m e in if r \<noteq> 0 then (m', r) else add_until add m' es)"

locale registry =
  fixes elems :: "'m \<Rightarrow> 'e list"
    and capacity :: "'m \<Rightarrow> nat"
    and accepts :: "'m \<Rightarrow> 'e \<Rightarrow> bool"
    and add :: "'m \<Rightarrow> 'e \<Rightarrow> 'm \<times> int"
  assumes add_ok: "accepts m e \<Longrightarrow> length (elems m) \<noteq> capacity m \<Longrightarrow>
      \<exists>m'. add m e = (m', 0) \<and> elems m' = elems m @ [e] \<and> capacity m' = capacity m"
    and add_fail: "\<not> accepts m e \<or> length (elems m) = capacity m \<Longrightarrow> add m e = (m, - 1)"
begin

lemma add_cases:
  obtains (added) m' where "add m e = (m', 0)" "accepts m e" "length (elems m) \<noteq> capacity m"
      "elems m' = elems m @ [e]" "capacity m' = capacity m"
    | (refused) "add m e = (m, - 1)" "\<not> accepts m e \<or> length (elems m) = capacity m"
  using add_ok [of m e] add_fail [of m e] by blast

lemma add_capacity: "add m e = (m', r) \<Longrightarrow> capacity m' = capacity m"
  by (rule add_cases [of m e]) auto

lemma add_bounded:
  "add m e = (m', r) \<Longrightarrow> length (elems m) \<le> capacity m \<Longrightarrow> length (elems m') \<le> capacity m'"
  by (rule add_cases [of m e]) auto

lemma add_zero_iff: "snd (add m e) = 0 \<longleftrightarrow> accepts m e \<and> length (elems m) \<noteq> capacity m"
  by (rule add_cases [of m e]) auto

lemma add_until_prefix:
  "add_until add m es = (m', r) \<Longrightarrow>
     \<exists>k. elems m' = elems m @ take k es \<and> capacity m' = capacity m \<and> (r = 0 \<longleftrightarrow> take k es = es)
         \<and> (r = 0 \<or> r = - 1)"
proof (induction es arbitrary: m)
  case (Cons e es)
  show ?case
  proof (rule add_cases [of m e])
    fix m1
    assume 1: "add m e = (m1, 0)" "elems m1 = elems m @ [e]" "capacity m1 = capacity m"
    with Cons.prems have "add_until add m1 es = (m', r)" by simp
    from Cons.IH [OF this] 1 obtain k where
      "elems m' = elems m @ take (Suc k) (e # es)" "capacity m' = capacity m"
      "r = 0 \<longleftrightarrow> take (Suc k) (e # es) = e # es" "r = 0 \<or> r = - 1" by auto
    then show ?thesis by blast
  next
    assume "add m e = (m, - 1)"
    with Cons.prems show ?thesis by (intro exI [of _ 0]) auto
  qed
qed auto

lemma add_until_bounded:
  "add_until add m es = (m', r) \<Longrightarrow> length (elems m) \<le> capacity m
     \<Longrightarrow> length (elems m') \<le> capacity m'"
proof (induction es arbitrary: m)
  case (Cons e es)
  then show ?case
    using add_bounded [of m e] by (auto split: prod.splits if_splits)
qed auto

end

text \<open>A table that is searched by a key; the first entry with the key is found.\<close>

locale keyed_registry = registry +
  fixes key :: "'b \<Rightarrow> 'k"
    and look :: "'a \<Rightarrow> 'k \<Rightarrow> 'b option"
  assumes look_first: "look m k = List.find (\<lambda>e. key e = k) (elems m)"
begin

lemma look_None: "look m k = None \<longleftrightarrow> k \<notin> key ` set (elems m)"
  by (auto simp: look_first find_None_iff)

lemma look_Some: "look m k = Some e \<Longrightarrow> e \<in> set (elems m) \<and> key e = k"
  by (auto simp: look_first find_Some_iff)

lemma look_after_add: "add m e = (m', 0) \<Longrightarrow> look m' k =
    (case look m k of Some e' \<Rightarrow> Some e' | None \<Rightarrow> if key e = k then Some e else None)"
proof (rule add_cases [of m e])
  fix m1
  assume "add m e = (m', 0)" "add m e = (m1, 0)" "elems m1 = elems m @ [e]"
  then have eq: "elems m' = elems m @ [e]" by simp
  show ?thesis unfolding look_first eq by (auto simp: find_append split: option.splits)
qed auto

end

text \<open>A keyed table that refuses a key it holds: its keys stay distinct.\<close>

locale unique_registry = keyed_registry +
  assumes accepts_new: "accepts m e \<longleftrightarrow> look m (key e) = None"
begin

lemma add_distinct:
  "add m e = (m', r) \<Longrightarrow> distinct (map key (elems m)) \<Longrightarrow> distinct (map key (elems m'))"
  by (rule add_cases [of m e]) (auto simp: accepts_new look_None)

lemma add_until_distinct:
  "add_until add m es = (m', r) \<Longrightarrow> distinct (map key (elems m)) \<Longrightarrow> distinct (map key (elems m'))"
proof (induction es arbitrary: m)
  case (Cons e es)
  then show ?case
    using add_distinct [of m e] by (auto split: prod.splits if_splits)
qed auto

lemma look_unique:
  "distinct (map key (elems m)) \<Longrightarrow> e \<in> set (elems m) \<Longrightarrow> look m (key e) = Some e"
proof -
  assume d: "distinct (map key (elems m))" and e: "e \<in> set (elems m)"
  then obtain e' where e': "look m (key e) = Some e'"
    using look_None [of m "key e"] by (cases "look m (key e)") auto
  with look_Some [OF e'] d e show ?thesis
    by (auto simp: distinct_map dest: inj_onD)
qed

lemma duplicate_refused: "e' \<in> set (elems m) \<Longrightarrow> key e' = key e \<Longrightarrow> add m e = (m, - 1)"
  by (rule add_fail) (metis accepts_new imageI look_None)

end

end
