(* ===== verification/Fifo.thy ===== *)
theory Fifo
  imports Interfaces
begin

section \<open>The ring buffer between the threads\<close>

text \<open>
  \<open>lib/fifo/fifo.c\<close> and \<open>fifo.h\<close>: a ring of pointers with 32-bit counters \<open>in\<close> and \<open>out\<close> that
  are never reduced and wrap around. A slot holds \<open>'a option\<close>, \<open>None\<close> for the NULL pointers a
  fresh buffer is filled with. \<open>FifoPut\<close> and \<open>FifoGet\<close> are the functions run by one thread at a
  time; the last part gives the same functions as steps of a producer and a consumer thread.
\<close>

subsection \<open>The code\<close>

record 'a Fifo =
  buffer :: "'a option list"
  fsize :: u32
  fin :: u32
  fout :: u32
  triggerFd :: int

definition IS_POWER_OF_TWO :: "u32 \<Rightarrow> bool" where
  "IS_POWER_OF_TWO n \<longleftrightarrow> n \<noteq> 0 \<and> n AND (n - 1) = 0"

definition FifoMin :: "u32 \<Rightarrow> u32 \<Rightarrow> u32" where
  "FifoMin x1 x2 = (if x1 < x2 then x1 else x2)"

text \<open>\<open>eventfd(0, 0)\<close> is given by its result \<open>efd\<close>.\<close>

definition FifoCreate :: "int \<Rightarrow> u32 \<Rightarrow> heap \<Rightarrow> 'a Fifo option \<times> heap" where
  "FifoCreate efd sz h =
     (if \<not> IS_POWER_OF_TWO sz then (None, h)
      else
        (let (ok1, h1) = malloc h in
         if \<not> ok1 then (None, h1)
         else
           (let (ok2, h2) = malloc h1 in
            if \<not> ok2 then (None, free h2)
            else if efd = - 1 then (None, free (free h2))
            else (Some \<lparr>buffer = replicate (unat sz) None, fsize = sz, fin = 0, fout = 0,
                        triggerFd = efd\<rparr>, h2))))"

text \<open>
  \<open>FifoDestroy\<close> gives back the two blocks; the descriptor it closes, if any, is the second
  component.
\<close>

definition FifoDestroy :: "'a Fifo option \<Rightarrow> heap \<Rightarrow> heap \<times> int option" where
  "FifoDestroy f h =
     (case f of
        None \<Rightarrow> (h, None)
      | Some fifo \<Rightarrow>
          (free (free h), if triggerFd fifo \<noteq> 0 then Some (triggerFd fifo) else None))"

text \<open>\<open>memcpy(dst + off, src, sizeof(void *) * n)\<close>, where both sides must be in bounds.\<close>

definition copy_ptrs :: "'a list \<Rightarrow> nat \<Rightarrow> 'a list \<Rightarrow> nat \<Rightarrow> 'a list c" where
  "copy_ptrs dst off src n =
     (if length src < n \<or> length dst < off + n then Inl OutOfBounds
      else Inr (take off dst @ take n src @ drop (off + n) dst))"

definition FifoPut :: "'a Fifo \<Rightarrow> 'a option \<Rightarrow> ('a Fifo \<times> u32) c" where
  "FifoPut fifo element =
     (let len = FifoMin 1 (fsize fifo - fin fifo + fout fifo);
          idx = fin fifo AND (fsize fifo - 1);
          len2 = FifoMin len (fsize fifo - idx)
      in bindc (copy_ptrs (buffer fifo) (unat idx) [element] (unat len2)) (\<lambda>b1.
         bindc (copy_ptrs b1 0 [element] (unat (len - len2))) (\<lambda>b2.
         Inr (fifo\<lparr>buffer := b2, fin := fin fifo + len\<rparr>, if len = 0 then - 1 else 0))))"

definition FifoGet :: "'a Fifo \<Rightarrow> 'a option \<Rightarrow> ('a Fifo \<times> 'a option \<times> u32) c" where
  "FifoGet fifo element =
     (let len = FifoMin 1 (fin fifo - fout fifo);
          idx = fout fifo AND (fsize fifo - 1);
          len2 = FifoMin len (fsize fifo - idx)
      in bindc (copy_ptrs [element] 0 (drop (unat idx) (buffer fifo)) (unat len2)) (\<lambda>e1.
         bindc (copy_ptrs e1 0 (buffer fifo) (unat (len - len2))) (\<lambda>e2.
         Inr (fifo\<lparr>fout := fout fifo + len\<rparr>, hd e2, if len = 0 then - 1 else 0))))"

text \<open>The manager of the fifos.\<close>

record 'a FifoMgr =
  fm_size :: u32
  fm_fifos :: "'a list"

definition FifoMgrCreate :: "u32 \<Rightarrow> heap \<Rightarrow> 'a FifoMgr option \<times> heap" where
  "FifoMgrCreate sz h =
     (let (ok1, h1) = malloc h in
      if \<not> ok1 then (None, h1)
      else
        (let (ok2, h2) = malloc h1 in
         if \<not> ok2 then (None, free h2)
         else (Some \<lparr>fm_size = sz, fm_fifos = []\<rparr>, h2)))"

definition FifoMgrDestroy :: "'a FifoMgr option \<Rightarrow> heap \<Rightarrow> heap" where
  "FifoMgrDestroy m h = (case m of None \<Rightarrow> h | Some mgr \<Rightarrow> free (free h))"

definition FifoMgrAdd :: "'a FifoMgr \<Rightarrow> 'a \<Rightarrow> 'a FifoMgr \<times> int" where
  "FifoMgrAdd mgr fifo =
     (if length (fm_fifos mgr) = unat (fm_size mgr) then (mgr, - 1)
      else (mgr\<lparr>fm_fifos := fm_fifos mgr @ [fifo]\<rparr>, 0))"

interpretation fifo_mgr: registry fm_fifos "\<lambda>m. unat (fm_size m)" "\<lambda>_ _. True" FifoMgrAdd
  by unfold_locales (auto simp: FifoMgrAdd_def)

subsection \<open>Powers of two and the index mask\<close>

lemma pow2_nat: "n \<noteq> 0 \<Longrightarrow> n AND (n - 1) = (0 :: nat) \<Longrightarrow> \<exists>k. n = 2 ^ k"
proof (induction n rule: less_induct)
  case (less n)
  show ?case
  proof (cases "even n")
    case True
    then obtain m where n: "n = 2 * m" by blast
    with less.prems have m: "m \<noteq> 0" by simp
    have "(2 * m) AND (2 * m - 1) = 2 * (m AND (m - 1))"
      using m by (cases m, simp, subst and_rec) simp
    with less.prems n have "m AND (m - 1) = 0" by simp
    with less.IH [of m] n m obtain k where "m = 2 ^ k" by auto
    with n show ?thesis by (metis power_Suc)
  next
    case False
    then obtain m where n: "n = 2 * m + 1" by (auto elim: oddE)
    have "n AND (n - 1) = 2 * m" unfolding n by (simp add: and_rec [of "Suc _"])
    with less.prems n have "n = 2 ^ 0" by simp
    then show ?thesis ..
  qed
qed

lemma IS_POWER_OF_TWO_iff: "IS_POWER_OF_TWO n \<longleftrightarrow> (\<exists>k < 32. n = 2 ^ k)"
proof
  assume p: "IS_POWER_OF_TWO n"
  then have nz: "unat n \<noteq> 0" and "unat (n AND (n - 1)) = 0"
    by (auto simp: IS_POWER_OF_TWO_def unat_eq_0)
  then have "unat n AND (unat n - 1) = 0"
    by (simp add: unsigned_and_eq unat_minus_one unat_gt_0)
  with pow2_nat nz obtain k where k: "unat n = 2 ^ k" by blast
  have "unat n < 2 ^ 32" using unsigned_less [of n] by simp
  with k have "k < 32" using power_less_imp_less_exp [of "2::nat" k 32] by simp
  moreover have "n = of_nat (unat n)" by simp
  then have "n = 2 ^ k" by (simp add: k)
  ultimately show "\<exists>k < 32. n = 2 ^ k" by blast
next
  assume "\<exists>k < 32. n = 2 ^ k"
  then obtain k where k: "k < 32" "n = 2 ^ k" by blast
  then have "n \<noteq> 0" by simp
  moreover have "n AND (n - 1) = 0"
  proof -
    have "(2 ^ k :: u32) AND mask k = 0" by (rule bit_word_eqI) (auto simp: bit_simps)
    then show ?thesis by (simp add: k(2) mask_eq_exp_minus_1)
  qed
  ultimately show "IS_POWER_OF_TWO n" by (simp add: IS_POWER_OF_TWO_def)
qed

subsection \<open>The queue a fifo stands for\<close>

definition fifo_count :: "'a Fifo \<Rightarrow> nat" where
  "fifo_count f = unat (fin f - fout f)"

definition fifo_index :: "'a Fifo \<Rightarrow> nat \<Rightarrow> nat" where
  "fifo_index f i = (unat (fout f) + i) mod unat (fsize f)"

definition fifo_content :: "'a Fifo \<Rightarrow> 'a option list" where
  "fifo_content f = map (\<lambda>i. buffer f ! fifo_index f i) [0..<fifo_count f]"

definition fifo_room :: "'a Fifo \<Rightarrow> nat" where
  "fifo_room f = unat (fsize f) - fifo_count f"

definition fifo_wf :: "'a Fifo \<Rightarrow> bool" where
  "fifo_wf f \<longleftrightarrow> IS_POWER_OF_TWO (fsize f) \<and> length (buffer f) = unat (fsize f)
      \<and> fifo_count f \<le> unat (fsize f)"

lemma fifo_content_length [simp]: "length (fifo_content f) = fifo_count f"
  by (simp add: fifo_content_def)

lemma fifo_wf_size:
  assumes "fifo_wf f"
  obtains k where "k < 32" "fsize f = 2 ^ k" "unat (fsize f) = 2 ^ k"
proof -
  from assms obtain k where "k < 32" "fsize f = 2 ^ k"
    by (auto simp: fifo_wf_def IS_POWER_OF_TWO_iff)
  moreover from this have "unat (of_nat (2 ^ k) :: u32) = 2 ^ k"
    by (simp only: unsigned_of_nat) (simp add: take_bit_nat_eq_self)
  ultimately show thesis using that [of k] by simp
qed

lemma mask_index:
  assumes "k < 32"
  shows "unat (x AND (2 ^ k - 1) :: u32) = unat x mod 2 ^ k"
proof -
  have "x AND (2 ^ k - 1) = take_bit k x" by (simp add: take_bit_eq_mask mask_eq_exp_minus_1)
  then show ?thesis by (simp only: unsigned_take_bit_eq) (simp add: take_bit_nat_def)
qed

lemma unat_add_of_nat_mod:
  assumes "k < 32"
  shows "unat (x + of_nat i :: u32) mod 2 ^ k = (unat x + i) mod 2 ^ k"
proof -
  have "(2::nat) ^ k dvd 2 ^ 32" using assms by (intro le_imp_power_dvd) simp
  then have "(unat x + i) mod 2 ^ 32 mod 2 ^ k = (unat x + i) mod 2 ^ k"
    by (rule mod_mod_cancel)
  moreover have "unat (x + of_nat i) = (unat x + i) mod 2 ^ 32"
    by (simp add: unat_word_ariths unat_of_nat mod_add_right_eq)
  ultimately show ?thesis by simp
qed

lemma fin_index:
  assumes "fifo_wf f"
  shows "unat (fin f) mod unat (fsize f) = fifo_index f (fifo_count f)"
proof -
  obtain k where k: "k < 32" "fsize f = 2 ^ k" "unat (fsize f) = 2 ^ k"
    using fifo_wf_size [OF assms] .
  have "fin f = fout f + of_nat (fifo_count f)" by (simp add: fifo_count_def)
  with unat_add_of_nat_mod [OF k(1), of "fout f" "fifo_count f"] show ?thesis
    by (simp add: fifo_index_def k(3))
qed

lemma index_less: "fifo_wf f \<Longrightarrow> fifo_index f i < unat (fsize f)"
  by (auto simp: fifo_index_def intro: fifo_wf_size)

lemma index_inj:
  assumes "fifo_wf f" "i < unat (fsize f)" "j < unat (fsize f)" "fifo_index f i = fifo_index f j"
  shows "i = j"
proof -
  have *: False if "(a + x) mod n = (a + y) mod n" "x < y" "y < n" for a x y n :: nat
  proof -
    from that have "n dvd (a + y) - (a + x)" by (metis mod_eq_dvd_iff_nat add_le_cancel_left less_imp_le)
    with that show False by (auto dest: dvd_imp_le)
  qed
  from assms(2-4) show ?thesis
    unfolding fifo_index_def by (metis * linorder_neqE_nat)
qed

subsection \<open>Put and get, sequentially\<close>

lemma FifoMin_1: "FifoMin 1 x = (if x = 0 then 0 else 1)"
proof (cases "x = 0")
  case False
  then have "1 \<le> unat x" by (simp add: Suc_le_eq unat_gt_0)
  then have "\<not> x < 1" "x \<noteq> 0" by (auto simp: word_less_nat_alt)
  then show ?thesis using False by (auto simp: FifoMin_def word_less_nat_alt word_unat_eq_iff)
qed (simp add: FifoMin_def)

lemma space_eq:
  assumes "fifo_wf f"
  shows "unat (fsize f - fin f + fout f) = fifo_room f"
proof -
  have "fsize f - fin f + fout f = fsize f - (fin f - fout f)" by simp
  moreover have "fin f - fout f \<le> fsize f"
    using assms by (simp add: fifo_wf_def fifo_count_def word_le_nat_alt)
  then have "unat (fsize f - (fin f - fout f)) = unat (fsize f) - unat (fin f - fout f)"
    by (rule unat_sub)
  ultimately show ?thesis by (metis fifo_room_def fifo_count_def)
qed

lemma FifoMin_0: "FifoMin 0 x = 0"
  by (auto simp: FifoMin_def word_less_nat_alt word_unat_eq_iff)

lemma first_chunk:
  assumes "fifo_wf f" "idx = x AND (fsize f - 1)" "len = 0 \<or> len = 1"
  shows "unat idx = unat x mod unat (fsize f)" "unat idx < unat (fsize f)"
    "FifoMin len (fsize f - idx) = len"
proof -
  obtain k where k: "k < 32" "fsize f = 2 ^ k" "unat (fsize f) = 2 ^ k"
    using fifo_wf_size [OF assms(1)] .
  show i: "unat idx = unat x mod unat (fsize f)"
    using mask_index [OF k(1), of x] assms(2) k(2,3) by simp
  show l: "unat idx < unat (fsize f)" unfolding i k(3) by simp
  then have "fsize f - idx \<noteq> 0" by auto
  with assms(3) show "FifoMin len (fsize f - idx) = len"
    by (metis FifoMin_0 FifoMin_1)
qed

lemma FifoPut_eq:
  assumes wf: "fifo_wf f"
  shows "FifoPut f x = (if fifo_room f = 0 then Inr (f, - 1)
           else Inr (f\<lparr>buffer := (buffer f)[unat (fin f) mod unat (fsize f) := x],
                       fin := fin f + 1\<rparr>, 0))"
proof -
  let ?idx = "fin f AND (fsize f - 1)"
  let ?len = "FifoMin 1 (fsize f - fin f + fout f)"
  have len: "?len = (if fifo_room f = 0 then 0 else 1)"
    by (simp add: FifoMin_1 space_eq [OF wf, symmetric] unat_eq_0)
  then have "?len = 0 \<or> ?len = 1" by simp
  note ch = first_chunk [OF wf refl this, of "fin f"]
  have b: "unat ?idx < length (buffer f)" using ch(2) wf by (simp add: fifo_wf_def)
  show ?thesis
  proof (cases "fifo_room f = 0")
    case True
    with len ch b show ?thesis by (simp add: FifoPut_def copy_ptrs_def Let_def)
  next
    case False
    with len ch b show ?thesis
      by (simp add: FifoPut_def copy_ptrs_def Let_def upd_conv_take_nth_drop)
  qed
qed

lemma FifoGet_eq:
  assumes wf: "fifo_wf f"
  shows "FifoGet f x = (if fifo_count f = 0 then Inr (f, x, - 1)
           else Inr (f\<lparr>fout := fout f + 1\<rparr>, buffer f ! (unat (fout f) mod unat (fsize f)), 0))"
proof -
  let ?idx = "fout f AND (fsize f - 1)"
  let ?len = "FifoMin 1 (fin f - fout f)"
  have len: "?len = (if fifo_count f = 0 then 0 else 1)"
    by (auto simp: FifoMin_1 fifo_count_def unat_eq_0)
  then have "?len = 0 \<or> ?len = 1" by simp
  note ch = first_chunk [OF wf refl this, of "fout f"]
  have b: "unat ?idx < length (buffer f)" using ch(2) wf by (simp add: fifo_wf_def)
  show ?thesis
  proof (cases "fifo_count f = 0")
    case True
    with len ch b show ?thesis by (simp add: FifoGet_def copy_ptrs_def Let_def)
  next
    case False
    with len ch b show ?thesis
      by (simp add: FifoGet_def copy_ptrs_def Let_def hd_drop_conv_nth take_Suc)
  qed
qed

lemma FifoGet_content: "fifo_wf f \<Longrightarrow> 0 < fifo_count f \<Longrightarrow>
    fifo_content f = (buffer f ! (unat (fout f) mod unat (fsize f)))
      # map (\<lambda>i. buffer f ! fifo_index f (Suc i)) [0..<fifo_count f - 1]"
  by (cases "fifo_count f")
    (simp_all add: fifo_content_def fifo_index_def upt_conv_Cons map_Suc_upt [symmetric] del: upt_Suc)

lemma put_step:
  assumes wf: "fifo_wf f" and room: "0 < fifo_room f"
    and g: "g = f\<lparr>buffer := (buffer f)[unat (fin f) mod unat (fsize f) := x], fin := fin f + 1\<rparr>"
  shows "fifo_count g = Suc (fifo_count f)" "fifo_wf g" "fifo_content g = fifo_content f @ [x]"
    "fifo_room g = fifo_room f - 1"
proof -
  obtain k where k: "k < 32" "fsize f = 2 ^ k" "unat (fsize f) = 2 ^ k"
    using fifo_wf_size [OF wf] .
  have lt: "fifo_count f < unat (fsize f)" using room by (simp add: fifo_room_def)
  have "(2::nat) ^ k < 2 ^ 32" using k(1) by (rule power_strict_increasing) simp
  with lt k(3) have "unat (fin f - fout f) + 1 < 2 ^ 32" by (simp add: fifo_count_def)
  then have "unat (fin f - fout f + 1) = Suc (unat (fin f - fout f))"
    by (simp add: unat_word_ariths)
  moreover have "fin g - fout g = fin f - fout f + 1" by (simp add: g)
  ultimately show c: "fifo_count g = Suc (fifo_count f)" by (metis fifo_count_def)
  from lt c wf show "fifo_wf g" by (simp add: fifo_wf_def g)
  from c show "fifo_room g = fifo_room f - 1" by (simp add: fifo_room_def g)
  have idx: "fifo_index g i = fifo_index f i" for i by (simp add: fifo_index_def g)
  have keep: "buffer g ! fifo_index f i = buffer f ! fifo_index f i" if "i < fifo_count f" for i
  proof -
    have "fifo_index f (fifo_count f) \<noteq> fifo_index f i"
      using index_inj [OF wf, of i "fifo_count f"] that lt by fastforce
    then show ?thesis by (simp add: g fin_index [OF wf])
  qed
  have new: "buffer g ! fifo_index f (fifo_count f) = x"
    using index_less [OF wf] wf by (simp add: g fin_index [OF wf] fifo_wf_def)
  show "fifo_content g = fifo_content f @ [x]"
    unfolding fifo_content_def c idx by (simp add: keep new)
qed

lemma get_step:
  assumes wf: "fifo_wf f" and ne: "0 < fifo_count f" and g: "g = f\<lparr>fout := fout f + 1\<rparr>"
  shows "fifo_count g = fifo_count f - 1" "fifo_wf g"
    "fifo_content f = (buffer f ! (unat (fout f) mod unat (fsize f))) # fifo_content g"
    "fifo_room g = fifo_room f + 1"
proof -
  obtain k where k: "k < 32" "fsize f = 2 ^ k" "unat (fsize f) = 2 ^ k"
    using fifo_wf_size [OF wf] .
  have "fin f - fout f \<noteq> 0" using ne by (auto simp: fifo_count_def)
  then have "unat (fin f - fout f - 1) = unat (fin f - fout f) - 1" by (rule unat_minus_one)
  moreover have "fin g - fout g = fin f - fout f - 1" by (simp add: g)
  ultimately show c: "fifo_count g = fifo_count f - 1" by (metis fifo_count_def)
  with wf show "fifo_wf g" by (auto simp: fifo_wf_def g)
  from c ne wf show "fifo_room g = fifo_room f + 1"
    by (auto simp: fifo_room_def fifo_wf_def g Suc_diff_le)
  have "fifo_index g i = fifo_index f (Suc i)" for i
  proof -
    have "unat (fout f + 1) mod 2 ^ k = (unat (fout f) + 1) mod 2 ^ k"
      using unat_add_of_nat_mod [OF k(1), of "fout f" 1] by simp
    then have "(unat (fout f + 1) + i) mod 2 ^ k = (unat (fout f) + 1 + i) mod 2 ^ k"
      by (rule mod_add_cong) simp
    then show ?thesis by (simp add: fifo_index_def g k(3))
  qed
  then show "fifo_content f = (buffer f ! (unat (fout f) mod unat (fsize f))) # fifo_content g"
    unfolding FifoGet_content [OF wf ne] by (simp add: fifo_content_def c) (simp add: g)
qed

interpretation fq: bounded_queue FifoPut FifoGet fifo_content fifo_room fifo_wf
proof (unfold_locales, goal_cases)
  case (1 q x)
  then show ?case using put_step [OF 1 refl] by (auto simp: FifoPut_eq)
next
  case (2 q x)
  then show ?case by (simp add: FifoPut_eq)
next
  case (3 q y ys x)
  then have ne: "0 < fifo_count q" using fifo_content_length [of q] by simp
  with 3 show ?case using get_step [OF 3(1) ne refl] by (auto simp: FifoGet_eq)
next
  case (4 q x)
  then have "fifo_count q = 0" using fifo_content_length [of q] by simp
  with 4 show ?case by (simp add: FifoGet_eq)
qed

subsection \<open>Producer and consumer as concurrent threads\<close>

text \<open>
  One thread runs \<open>FifoPut\<close> and another \<open>FifoGet\<close> on the same fifo, without a lock. The two
  calls of \<open>__sync_synchronize\<close> order each of them in three steps: read the counters, copy the
  pointer, advance the own counter. The steps below are the code between the barriers, and the
  step relation interleaves them freely. \<open>sent\<close> and \<open>recvd\<close> record what the calls that returned
  0 have put and got.
\<close>

definition put_len :: "'a Fifo \<Rightarrow> u32" where
  "put_len f = FifoMin 1 (fsize f - fin f + fout f)"

definition put_copy :: "'a Fifo \<Rightarrow> u32 \<Rightarrow> 'a option \<Rightarrow> 'a option list c" where
  "put_copy f len x =
     (let idx = fin f AND (fsize f - 1); len2 = FifoMin len (fsize f - idx)
      in bindc (copy_ptrs (buffer f) (unat idx) [x] (unat len2)) (\<lambda>b.
           copy_ptrs b 0 [x] (unat (len - len2))))"

definition get_len :: "'a Fifo \<Rightarrow> u32" where
  "get_len f = FifoMin 1 (fin f - fout f)"

definition get_copy :: "'a Fifo \<Rightarrow> u32 \<Rightarrow> 'a option \<Rightarrow> 'a option list c" where
  "get_copy f len x =
     (let idx = fout f AND (fsize f - 1); len2 = FifoMin len (fsize f - idx)
      in bindc (copy_ptrs [x] 0 (drop (unat idx) (buffer f)) (unat len2)) (\<lambda>e.
           copy_ptrs e 0 (buffer f) (unat (len - len2))))"

lemma FifoPut_steps: "FifoPut f x = bindc (put_copy f (put_len f) x)
    (\<lambda>b. Inr (f\<lparr>buffer := b, fin := fin f + put_len f\<rparr>, if put_len f = 0 then - 1 else 0))"
  by (cases "put_copy f (put_len f) x")
    (auto simp: FifoPut_def put_copy_def put_len_def Let_def split: sum.splits)

lemma FifoGet_steps: "FifoGet f x = bindc (get_copy f (get_len f) x)
    (\<lambda>e. Inr (f\<lparr>fout := fout f + get_len f\<rparr>, hd e, if get_len f = 0 then - 1 else 0))"
  by (cases "get_copy f (get_len f) x")
    (auto simp: FifoGet_def get_copy_def get_len_def Let_def split: sum.splits)

datatype 'a producer = PIdle | PCopy "'a option" u32 | PPublish "'a option" u32
datatype 'a consumer = CIdle | CCopy "'a option" u32 | CPublish "'a option" u32

record 'a spsc =
  ring :: "'a Fifo"
  prod :: "'a producer"
  cons :: "'a consumer"
  sent :: "'a option list"
  recvd :: "'a option list"

inductive spsc_step :: "'a spsc \<Rightarrow> 'a spsc \<Rightarrow> bool" where
  p_read: "prod s = PIdle \<Longrightarrow>
     spsc_step s (s\<lparr>prod := PCopy x (put_len (ring s))\<rparr>)"
| p_copy: "prod s = PCopy x len \<Longrightarrow> put_copy (ring s) len x = Inr b \<Longrightarrow>
     spsc_step s (s\<lparr>ring := (ring s)\<lparr>buffer := b\<rparr>, prod := PPublish x len\<rparr>)"
| p_publish: "prod s = PPublish x len \<Longrightarrow>
     spsc_step s (s\<lparr>ring := (ring s)\<lparr>fin := fin (ring s) + len\<rparr>, prod := PIdle,
                    sent := (if len = 0 then sent s else sent s @ [x])\<rparr>)"
| c_read: "cons s = CIdle \<Longrightarrow>
     spsc_step s (s\<lparr>cons := CCopy x (get_len (ring s))\<rparr>)"
| c_copy: "cons s = CCopy x len \<Longrightarrow> get_copy (ring s) len x = Inr e \<Longrightarrow>
     spsc_step s (s\<lparr>cons := CPublish (hd e) len\<rparr>)"
| c_publish: "cons s = CPublish x len \<Longrightarrow>
     spsc_step s (s\<lparr>ring := (ring s)\<lparr>fout := fout (ring s) + len\<rparr>, cons := CIdle,
                    recvd := (if len = 0 then recvd s else recvd s @ [x])\<rparr>)"

inductive spsc_reach :: "'a Fifo \<Rightarrow> 'a spsc \<Rightarrow> bool" for f where
  init: "spsc_reach f \<lparr>ring = f, prod = PIdle, cons = CIdle, sent = [], recvd = []\<rparr>"
| step: "spsc_reach f s \<Longrightarrow> spsc_step s t \<Longrightarrow> spsc_reach f t"

definition head_slot :: "'a Fifo \<Rightarrow> 'a option" where
  "head_slot f = buffer f ! (unat (fout f) mod unat (fsize f))"

definition next_slot :: "'a Fifo \<Rightarrow> nat" where
  "next_slot f = unat (fin f) mod unat (fsize f)"

definition prod_ok :: "'a Fifo \<Rightarrow> 'a producer \<Rightarrow> bool" where
  "prod_ok f p = (case p of PIdle \<Rightarrow> True
     | PCopy x len \<Rightarrow> len = 0 \<or> len = 1 \<and> 0 < fifo_room f
     | PPublish x len \<Rightarrow> len = 0 \<or> len = 1 \<and> 0 < fifo_room f \<and> buffer f ! next_slot f = x)"

definition cons_ok :: "'a Fifo \<Rightarrow> 'a consumer \<Rightarrow> bool" where
  "cons_ok f p = (case p of CIdle \<Rightarrow> True
     | CCopy x len \<Rightarrow> len = 0 \<or> len = 1 \<and> 0 < fifo_count f
     | CPublish x len \<Rightarrow> len = 0 \<or> len = 1 \<and> 0 < fifo_count f \<and> head_slot f = x)"

definition spsc_inv :: "'a spsc \<Rightarrow> bool" where
  "spsc_inv s \<longleftrightarrow> fifo_wf (ring s) \<and> sent s = recvd s @ fifo_content (ring s)
      \<and> prod_ok (ring s) (prod s) \<and> cons_ok (ring s) (cons s)"

lemma put_len_eq: "fifo_wf f \<Longrightarrow> put_len f = (if fifo_room f = 0 then 0 else 1)"
  by (simp add: put_len_def FifoMin_1 space_eq [symmetric] unat_eq_0)

lemma get_len_eq: "get_len f = (if fifo_count f = 0 then 0 else 1)"
  by (simp add: get_len_def FifoMin_1 fifo_count_def unat_eq_0)

lemma put_copy_eq:
  assumes wf: "fifo_wf f" and len: "len = 0 \<or> len = 1"
  shows "put_copy f len x = Inr (if len = 0 then buffer f else (buffer f)[next_slot f := x])"
proof -
  note ch = first_chunk [OF wf refl len, of "fin f"]
  have "unat (fin f AND (fsize f - 1)) < length (buffer f)" using ch(2) wf by (simp add: fifo_wf_def)
  with len ch show ?thesis
    by (auto simp: put_copy_def copy_ptrs_def Let_def upd_conv_take_nth_drop next_slot_def)
qed

lemma get_copy_eq:
  assumes wf: "fifo_wf f" and len: "len = 0 \<or> len = 1"
  shows "get_copy f len x = Inr [if len = 0 then x else head_slot f]"
proof -
  note ch = first_chunk [OF wf refl len, of "fout f"]
  have "unat (fout f AND (fsize f - 1)) < length (buffer f)" using ch(2) wf by (simp add: fifo_wf_def)
  with len ch show ?thesis
    by (auto simp: get_copy_def copy_ptrs_def Let_def head_slot_def hd_drop_conv_nth take_Suc)
qed

lemma content_after_copy:
  assumes wf: "fifo_wf f" and room: "0 < fifo_room f" and g: "g = f\<lparr>buffer := (buffer f)[next_slot f := x]\<rparr>"
  shows "fifo_wf g" "fifo_content g = fifo_content f" "fifo_room g = fifo_room f"
    "fifo_count g = fifo_count f" "next_slot g = next_slot f" "buffer g ! next_slot f = x"
    "0 < fifo_count f \<Longrightarrow> head_slot g = head_slot f"
proof -
  have lt: "fifo_count f < unat (fsize f)" using room by (simp add: fifo_room_def)
  have keep: "(buffer f)[next_slot f := x] ! fifo_index f i = buffer f ! fifo_index f i"
    if "i < fifo_count f" for i
  proof -
    have "fifo_index f (fifo_count f) \<noteq> fifo_index f i"
      using index_inj [OF wf, of i "fifo_count f"] that lt by fastforce
    then show ?thesis by (simp add: next_slot_def fin_index [OF wf])
  qed
  show "fifo_wf g" "fifo_room g = fifo_room f" "fifo_count g = fifo_count f"
      "next_slot g = next_slot f"
    using wf by (simp_all add: g fifo_wf_def fifo_room_def fifo_count_def next_slot_def)
  show "fifo_content g = fifo_content f"
    using keep by (simp add: fifo_content_def fifo_count_def fifo_index_def g)
  show "buffer g ! next_slot f = x"
    using index_less [OF wf] wf by (simp add: g next_slot_def fin_index [OF wf] fifo_wf_def)
  show "0 < fifo_count f \<Longrightarrow> head_slot g = head_slot f"
    using keep [of 0] by (simp add: head_slot_def g fifo_index_def)
qed

lemma publish_put:
  assumes wf: "fifo_wf f" and room: "0 < fifo_room f" and x: "buffer f ! next_slot f = x"
    and g: "g = f\<lparr>fin := fin f + 1\<rparr>"
  shows "fifo_wf g" "fifo_content g = fifo_content f @ [x]" "fifo_count g = Suc (fifo_count f)"
    "head_slot g = head_slot f"
proof -
  have "g = f\<lparr>buffer := (buffer f)[unat (fin f) mod unat (fsize f) := x], fin := fin f + 1\<rparr>"
    using x list_update_id [of "buffer f" "next_slot f"]
    by (cases f) (simp add: g next_slot_def)
  note put_step [OF wf room this]
  then show "fifo_wf g" "fifo_content g = fifo_content f @ [x]" "fifo_count g = Suc (fifo_count f)"
    by auto
  show "head_slot g = head_slot f" by (simp add: head_slot_def g)
qed

lemma publish_get:
  assumes wf: "fifo_wf f" and ne: "0 < fifo_count f" and g: "g = f\<lparr>fout := fout f + 1\<rparr>"
  shows "fifo_wf g" "fifo_content f = head_slot f # fifo_content g" "0 < fifo_room g"
    "next_slot g = next_slot f"
  using get_step [OF wf ne g] by (simp_all add: head_slot_def next_slot_def g)

lemma spsc_step_inv: "spsc_step s t \<Longrightarrow> spsc_inv s \<Longrightarrow> spsc_inv t"
proof (induction rule: spsc_step.induct)
  case (p_read s x)
  then show ?case by (auto simp: spsc_inv_def prod_ok_def put_len_eq)
next
  case (p_copy s x len b)
  then have wf: "fifo_wf (ring s)" and len: "len = 0 \<or> len = 1 \<and> 0 < fifo_room (ring s)"
    by (auto simp: spsc_inv_def prod_ok_def)
  show ?case
  proof (cases "len = 0")
    case True
    with p_copy put_copy_eq [OF wf, of len x] have "b = buffer (ring s)" by simp
    with True p_copy show ?thesis by (simp add: spsc_inv_def prod_ok_def)
  next
    case False
    with len have room: "len = 1" "0 < fifo_room (ring s)" by auto
    with p_copy put_copy_eq [OF wf, of len x] have b: "b = (buffer (ring s))[next_slot (ring s) := x]"
      by simp
    from content_after_copy [OF wf room(2) refl, of x] room p_copy(3) show ?thesis
      unfolding b by (auto simp: spsc_inv_def prod_ok_def cons_ok_def split: consumer.splits)
  qed
next
  case (p_publish s x len)
  then have wf: "fifo_wf (ring s)" by (simp add: spsc_inv_def)
  show ?case
  proof (cases "len = 0")
    case True
    with p_publish show ?thesis by (simp add: spsc_inv_def prod_ok_def)
  next
    case False
    with p_publish have "len = 1" "0 < fifo_room (ring s)" "buffer (ring s) ! next_slot (ring s) = x"
      by (auto simp: spsc_inv_def prod_ok_def)
    with publish_put [OF wf this(2,3) refl] p_publish show ?thesis
      by (auto simp: spsc_inv_def prod_ok_def cons_ok_def split: consumer.splits)
  qed
next
  case (c_read s x)
  then show ?case by (auto simp: spsc_inv_def cons_ok_def get_len_eq)
next
  case (c_copy s x len e)
  then have wf: "fifo_wf (ring s)" and len: "len = 0 \<or> len = 1"
    by (auto simp: spsc_inv_def cons_ok_def)
  from get_copy_eq [OF this, of x] c_copy show ?case
    by (auto simp: spsc_inv_def cons_ok_def)
next
  case (c_publish s x len)
  then have wf: "fifo_wf (ring s)" by (simp add: spsc_inv_def)
  show ?case
  proof (cases "len = 0")
    case True
    with c_publish show ?thesis by (simp add: spsc_inv_def cons_ok_def)
  next
    case False
    with c_publish have c: "len = 1" "0 < fifo_count (ring s)" "head_slot (ring s) = x"
      by (auto simp: spsc_inv_def cons_ok_def)
    with publish_get [OF wf c(2) refl] c_publish show ?thesis
      by (auto simp: spsc_inv_def prod_ok_def cons_ok_def split: producer.splits)
  qed
qed

lemma spsc_reach_inv:
  assumes "fifo_wf f" "fifo_content f = []"
  shows "spsc_reach f s \<Longrightarrow> spsc_inv s"
proof (induction rule: spsc_reach.induct)
  case init
  with assms show ?case by (simp add: spsc_inv_def prod_ok_def cons_ok_def)
next
  case (step s t)
  then show ?case by (blast intro: spsc_step_inv)
qed

lemma FifoCreate_wf:
  assumes "FifoCreate efd n h = (Some f, h')"
  shows "fifo_wf f" "fifo_content f = []" "fsize f = n" "mlive h' = mlive h + 2"
  using assms
  by (auto simp: FifoCreate_def fifo_wf_def fifo_content_def fifo_count_def heap_simps
      split: if_splits prod.splits)

lemma FifoCreate_fail_live: "FifoCreate efd n h = (None, h') \<Longrightarrow> mlive h' = mlive h"
  by (auto simp: FifoCreate_def heap_simps split: if_splits prod.splits)

subsection \<open>Properties\<close>

text \<open>C1: \<open>FifoCreate\<close> succeeds only for a size that is a power of two and a valid descriptor, and
  then gives an empty fifo of that size and two live blocks, which \<open>FifoDestroy\<close> gives back; on
  each of its four failure paths no block is left behind.\<close>

theorem FifoCreate_sound:
  "case (FifoCreate efd n h :: 'a Fifo option \<times> heap) of
     (None, h') \<Rightarrow> mlive h' = mlive h
   | (Some f, h') \<Rightarrow> IS_POWER_OF_TWO n \<and> efd \<noteq> - 1 \<and> fifo_wf f \<and> fifo_content f = []
       \<and> fifo_room f = unat n \<and> mlive h' = mlive h + 2
       \<and> mlive (fst (FifoDestroy (Some f) h')) = mlive h"
proof (cases "FifoCreate efd n h :: 'a Fifo option \<times> heap")
  case (Pair r h')
  show ?thesis
  proof (cases r)
    case None
    with Pair show ?thesis by (simp add: FifoCreate_fail_live)
  next
    case (Some f)
    note wf = FifoCreate_wf [OF Pair [unfolded Some]]
    then have "fifo_count f = 0" using fifo_content_length [of f] by simp
    moreover have "IS_POWER_OF_TWO n" "efd \<noteq> - 1"
      using Pair Some by (auto simp: FifoCreate_def split: if_splits prod.splits)
    ultimately show ?thesis using Pair Some wf by (simp add: FifoDestroy_def fifo_room_def)
  qed
qed

text \<open>C2: On any well-formed fifo, also one whose 32-bit counters have wrapped around,
  \<open>FifoPut\<close> stays in bounds, appends to the queue and returns 0 exactly when there is room and
  otherwise returns -1 and changes nothing; \<open>FifoGet\<close> removes the oldest element and returns 0,
  or returns -1 and leaves the caller's variable alone when the queue is empty.\<close>

theorem fifo_refines_queue:
  assumes "fifo_wf f"
  shows "(if fifo_room f = 0 then FifoPut f x = Inr (f, - 1)
          else \<exists>f'. FifoPut f x = Inr (f', 0) \<and> fifo_wf f' \<and> fifo_content f' = fifo_content f @ [x])
       \<and> (case fifo_content f of
            [] \<Rightarrow> FifoGet f y = Inr (f, y, - 1)
          | z # zs \<Rightarrow> \<exists>f'. FifoGet f y = Inr (f', z, 0) \<and> fifo_wf f' \<and> fifo_content f' = zs)"
  using fq.put_room [OF assms, of x] fq.put_full [OF assms, of x] fq.get_some [OF assms, of _ _ y]
    fq.get_none [OF assms, of y]
  by (auto split: list.splits)

definition wrapped_fifo :: "nat Fifo" where
  "wrapped_fifo = \<lparr>buffer = [Some 7, Some 8], fsize = 2, fin = 0, fout = - 1, triggerFd = 5\<rparr>"

lemma wrapped_fifo_wf: "fifo_wf wrapped_fifo"
  by (simp add: wrapped_fifo_def fifo_wf_def fifo_count_def IS_POWER_OF_TWO_def)

theorem fifo_refines_queue_witness:
  "\<exists>f'. FifoPut wrapped_fifo (Some 9) = Inr (f', 0) \<and> fifo_wf f'
     \<and> fifo_content f' = fifo_content wrapped_fifo @ [Some 9]"
proof -
  have "fifo_room wrapped_fifo = 1"
    by (simp add: wrapped_fifo_def fifo_room_def fifo_count_def)
  with fifo_refines_queue [OF wrapped_fifo_wf, of "Some 9" None] show ?thesis by auto
qed

text \<open>A started put or get can always take its copy step.\<close>

lemma spsc_copies:
  assumes "spsc_inv s"
  shows "(case prod s of PCopy x len \<Rightarrow> put_copy (ring s) len x \<noteq> Inl OutOfBounds | _ \<Rightarrow> True)
       \<and> (case cons s of CCopy x len \<Rightarrow> get_copy (ring s) len x \<noteq> Inl OutOfBounds | _ \<Rightarrow> True)"
  using assms
  by (auto simp: spsc_inv_def prod_ok_def cons_ok_def put_copy_eq get_copy_eq split: producer.splits consumer.splits)

text \<open>C3: While one thread puts and another gets, with no lock and any interleaving of their
  steps, what the consumer has received is a prefix of what the producer has sent, in order and
  without loss or duplication, and at most the fifo's size is under way. Neither thread ever copies
  outside the buffer.\<close>

theorem spsc_order:
  assumes "FifoCreate efd n h = (Some f, h')" and "spsc_reach f s"
  shows "(\<exists>pending. sent s = recvd s @ pending \<and> length pending \<le> unat n)
       \<and> (case prod s of PCopy x len \<Rightarrow> put_copy (ring s) len x \<noteq> Inl OutOfBounds | _ \<Rightarrow> True)
       \<and> (case cons s of CCopy x len \<Rightarrow> get_copy (ring s) len x \<noteq> Inl OutOfBounds | _ \<Rightarrow> True)"
proof -
  note wf = FifoCreate_wf [OF assms(1)]
  from spsc_reach_inv [OF wf(1,2) assms(2)] have inv: "spsc_inv s" .
  have "fsize (ring t) = n" if "spsc_reach f t" for t
    using that by (induction rule: spsc_reach.induct) (auto simp: wf(3) elim: spsc_step.cases)
  with inv assms(2) have "\<exists>pending. sent s = recvd s @ pending \<and> length pending \<le> unat n"
    by (intro exI [of _ "fifo_content (ring s)"]) (auto simp: spsc_inv_def fifo_wf_def)
  with spsc_copies [OF inv] show ?thesis by blast
qed

definition fresh_fifo :: "nat Fifo" where
  "fresh_fifo = \<lparr>buffer = [None, None], fsize = 2, fin = 0, fout = 0, triggerFd = 5\<rparr>"

lemma fresh_fifo_create:
  "FifoCreate 5 2 \<lparr>mscript = [], mlive = 0\<rparr> = (Some fresh_fifo, \<lparr>mscript = [], mlive = 2\<rparr>)"
  by (simp add: FifoCreate_def IS_POWER_OF_TWO_def fresh_fifo_def replicate_two)

definition fresh_run :: "nat spsc" where
  "fresh_run = \<lparr>ring = fresh_fifo\<lparr>buffer := [Some 3, None], fin := 1\<rparr>, prod = PIdle,
     cons = CCopy None 0, sent = [Some 3], recvd = []\<rparr>"

lemma fresh_run_reach: "spsc_reach fresh_fifo fresh_run"
proof -
  have wf: "fifo_wf fresh_fifo" using FifoCreate_wf(1) [OF fresh_fifo_create] .
  have len: "put_len fresh_fifo = 1"
    by (simp add: put_len_eq [OF wf]) (simp add: fifo_room_def fifo_count_def fresh_fifo_def)
  have empty: "get_len fresh_fifo = 0" by (simp add: get_len_eq fifo_count_def fresh_fifo_def)
  have copy: "put_copy fresh_fifo 1 (Some 3) = Inr [Some 3, None]"
    by (simp add: put_copy_eq [OF wf]) (simp add: fresh_fifo_def next_slot_def)
  let ?s0 = "\<lparr>ring = fresh_fifo, prod = PIdle, cons = CIdle, sent = [], recvd = []\<rparr>"
  let ?s1 = "?s0\<lparr>cons := CCopy None (get_len (ring ?s0))\<rparr>"
  let ?s2 = "?s1\<lparr>prod := PCopy (Some 3) (put_len (ring ?s1))\<rparr>"
  let ?s3 = "?s2\<lparr>ring := (ring ?s2)\<lparr>buffer := [Some 3, None]\<rparr>, prod := PPublish (Some 3) 1\<rparr>"
  let ?s4 = "?s3\<lparr>ring := (ring ?s3)\<lparr>fin := fin (ring ?s3) + 1\<rparr>, prod := PIdle,
               sent := (if (1::u32) = 0 then sent ?s3 else sent ?s3 @ [Some 3])\<rparr>"
  have "spsc_reach fresh_fifo ?s0" by (rule spsc_reach.init)
  moreover have "spsc_step ?s0 ?s1" by (rule spsc_step.c_read) simp
  ultimately have "spsc_reach fresh_fifo ?s1" by (rule spsc_reach.step)
  moreover have "spsc_step ?s1 ?s2" by (rule spsc_step.p_read) simp
  ultimately have "spsc_reach fresh_fifo ?s2" by (rule spsc_reach.step)
  moreover have "spsc_step ?s2 ?s3" by (rule spsc_step.p_copy) (simp_all add: len copy)
  ultimately have "spsc_reach fresh_fifo ?s3" by (rule spsc_reach.step)
  moreover have "spsc_step ?s3 ?s4" by (rule spsc_step.p_publish) simp
  ultimately have "spsc_reach fresh_fifo ?s4" by (rule spsc_reach.step)
  moreover have "?s4 = fresh_run" by (simp add: fresh_run_def empty) (simp add: fresh_fifo_def)
  ultimately show ?thesis by simp
qed

theorem spsc_order_witness:
  "(\<exists>pending. sent fresh_run = recvd fresh_run @ pending \<and> length pending \<le> unat (2 :: u32))
   \<and> get_copy (ring fresh_run) 0 None \<noteq> Inl OutOfBounds"
  using spsc_order [OF fresh_fifo_create fresh_run_reach] by (simp add: fresh_run_def)

end
