(* ===== verification/Libconfig.thy ===== *)
theory Libconfig
  imports Prelude
begin

section \<open>The configuration library, as a parameter\<close>

text \<open>
  The configuration file and the meta files are read with libconfig, which is not part of the
  repository. Its calls are the fields of a record that every definition reading a file takes as
  an argument: \<open>'c\<close> stands for a \<open>config_t\<close> and \<open>'s\<close> for a \<open>config_setting_t\<close>. The lookups that
  return \<open>CONFIG_TRUE\<close> and an out-parameter in C return \<open>Some\<close> here. The strings read from a file
  are C strings; an \<open>int\<close> is the value libconfig stores.
\<close>

record ('c, 's) libconfig =
  config_read_file :: "cstr \<Rightarrow> 'c option"
  config_lookup :: "'c \<Rightarrow> cstr \<Rightarrow> 's option"
  config_setting_lookup :: "'s \<Rightarrow> cstr \<Rightarrow> 's option"
  config_setting_length :: "'s \<Rightarrow> nat"
  config_setting_get_elem :: "'s \<Rightarrow> nat \<Rightarrow> 's"
  config_setting_lookup_string :: "'s \<Rightarrow> cstr \<Rightarrow> cstr option"
  config_setting_lookup_int :: "'s \<Rightarrow> cstr \<Rightarrow> int option"

text \<open>The settings of a list, in order.\<close>

definition setting_elems :: "('c, 's) libconfig \<Rightarrow> 's \<Rightarrow> 's list" where
  "setting_elems lc s = map (config_setting_get_elem lc s) [0..<config_setting_length lc s]"

lemma length_setting_elems [simp]: "length (setting_elems lc s) = config_setting_length lc s"
  by (simp add: setting_elems_def)

text \<open>
  For the witnesses: settings as trees and a file system that maps paths to trees.
\<close>

datatype setting = SStr cstr | SInt int | SList "setting list" | SGroup "(cstr \<times> setting) list"

fun tree_lookup :: "setting \<Rightarrow> cstr \<Rightarrow> setting option" where
  "tree_lookup (SGroup kvs) k = map_of kvs k"
| "tree_lookup _ k = None"

fun tree_children :: "setting \<Rightarrow> setting list" where
  "tree_children (SList xs) = xs"
| "tree_children (SGroup kvs) = map snd kvs"
| "tree_children _ = []"

definition tree_config :: "(cstr \<times> setting) list \<Rightarrow> (setting, setting) libconfig" where
  "tree_config files =
     \<lparr>config_read_file = map_of files,
      config_lookup = tree_lookup,
      config_setting_lookup = tree_lookup,
      config_setting_length = (\<lambda>s. length (tree_children s)),
      config_setting_get_elem = (\<lambda>s i. tree_children s ! i),
      config_setting_lookup_string =
        (\<lambda>s k. case tree_lookup s k of Some (SStr v) \<Rightarrow> Some v | _ \<Rightarrow> None),
      config_setting_lookup_int =
        (\<lambda>s k. case tree_lookup s k of Some (SInt v) \<Rightarrow> Some v | _ \<Rightarrow> None)\<rparr>"

lemma tree_config_elems [simp]: "setting_elems (tree_config fs) s = tree_children s"
  by (simp add: setting_elems_def tree_config_def map_nth)

end
