(* ===== verification/Meta.thy ===== *)
theory Meta
  imports Interfaces Libconfig
begin

section \<open>The table descriptions\<close>

text \<open>
  \<open>lib/meta/meta.c\<close> and \<open>meta.h\<close>: the manager of the measurements, read from the meta files of
  a directory. The array of a measurement's fields and the manager's array of measurements are the
  lists of their used entries; the counters \<open>fieldsNum\<close> and \<open>measurementsNum\<close> are their lengths.
\<close>

subsection \<open>The code\<close>

definition MAX_FIELD_DESCRIPTION_LEN :: nat where "MAX_FIELD_DESCRIPTION_LEN = 256"
definition MAX_FIELD_TYPE_LEN :: nat where "MAX_FIELD_TYPE_LEN = 64"
definition MAX_FIELD_NAME_LEN :: nat where "MAX_FIELD_NAME_LEN = 64"
definition MAX_MEASUREMENT_NAME_LEN :: nat where "MAX_MEASUREMENT_NAME_LEN = 64"
definition MAX_FIELDS_NUM :: u32 where "MAX_FIELDS_NUM = 128"
definition MAX_META_PATH_LEN :: nat where "MAX_META_PATH_LEN = 2048"

record Field =
  fld_description :: cstr
  fld_type :: cstr
  fld_name :: cstr

record Measurement =
  mm_name :: cstr
  mm_fields :: "Field list"

record MeasurementMgr =
  measurementsCapability :: u32
  fields_num_max :: u32
  measurements :: "Measurement list"

definition MeasurementCreate :: "heap \<Rightarrow> Measurement option \<times> heap" where
  "MeasurementCreate h =
     (let (ok, h1) = malloc h in
      if \<not> ok then (None, h1) else (Some \<lparr>mm_name = [], mm_fields = []\<rparr>, h1))"

definition MeasurementDestroy :: "heap \<Rightarrow> heap" where
  "MeasurementDestroy h = free h"

definition MeasurementMgrCreate :: "u32 \<Rightarrow> u32 \<Rightarrow> heap \<Rightarrow> MeasurementMgr option \<times> heap" where
  "MeasurementMgrCreate capability fields_max h =
     (let (ok1, h1) = malloc h in
      if \<not> ok1 then (None, h1)
      else
        (let (ok2, h2) = malloc h1 in
         if \<not> ok2 then (None, free h2)
         else (Some \<lparr>measurementsCapability = capability,
                     fields_num_max = (if fields_max < MAX_FIELDS_NUM then fields_max else MAX_FIELDS_NUM),
                     measurements = []\<rparr>, h2)))"

definition MeasurementMgrDestroy :: "MeasurementMgr option \<Rightarrow> heap \<Rightarrow> heap" where
  "MeasurementMgrDestroy m h =
     (case m of
        None \<Rightarrow> h
      | Some mgr \<Rightarrow> free (free (fold (\<lambda>_. MeasurementDestroy) (measurements mgr) h)))"

definition MeasurementMgrGet :: "MeasurementMgr \<Rightarrow> cstr \<Rightarrow> Measurement option" where
  "MeasurementMgrGet mgr name = List.find (\<lambda>mm. mm_name mm = name) (measurements mgr)"

definition MeasurementMgrAdd :: "MeasurementMgr \<Rightarrow> Measurement \<Rightarrow> MeasurementMgr \<times> int" where
  "MeasurementMgrAdd mgr measurement =
     (if MeasurementMgrGet mgr (mm_name measurement) \<noteq> None then (mgr, - 1)
      else if length (measurements mgr) = unat (measurementsCapability mgr) then (mgr, - 1)
      else (mgr\<lparr>measurements := measurements mgr @ [measurement]\<rparr>, 0))"

interpretation mm: unique_registry measurements "\<lambda>m. unat (measurementsCapability m)"
    "\<lambda>m e. MeasurementMgrGet m (mm_name e) = None" MeasurementMgrAdd mm_name MeasurementMgrGet
  by unfold_locales (auto simp: MeasurementMgrAdd_def MeasurementMgrGet_def)

text \<open>
  A field is filled in place: when a lookup fails, what was read before stays in it.
\<close>

definition FieldLoad :: "('c, 's) libconfig \<Rightarrow> 's \<Rightarrow> Field \<times> int" where
  "FieldLoad lc fieldConfig =
     (let f0 = \<lparr>fld_description = [], fld_type = [], fld_name = []\<rparr> in
      case config_setting_lookup_string lc fieldConfig ''description'' of
        None \<Rightarrow> (f0, - 1)
      | Some d \<Rightarrow>
          (let f1 = f0\<lparr>fld_description := strncpy (MAX_FIELD_DESCRIPTION_LEN - 1) d\<rparr> in
           case config_setting_lookup_string lc fieldConfig ''type'' of
             None \<Rightarrow> (f1, - 1)
           | Some t \<Rightarrow>
               (let f2 = f1\<lparr>fld_type := strncpy (MAX_FIELD_TYPE_LEN - 1) t\<rparr> in
                case config_setting_lookup_string lc fieldConfig ''name'' of
                  None \<Rightarrow> (f2, - 1)
                | Some n \<Rightarrow> (f2\<lparr>fld_name := strncpy (MAX_FIELD_NAME_LEN - 1) n\<rparr>, 0))))"

text \<open>
  The loop over the fields: a field that fails to load is reported and counted all the same.
\<close>

fun load_fields :: "('c, 's) libconfig \<Rightarrow> Measurement \<Rightarrow> 's list \<Rightarrow> Measurement" where
  "load_fields lc mm [] = mm"
| "load_fields lc mm (fc # fcs) =
     (let (f, ret) = FieldLoad lc fc
      in load_fields lc (mm\<lparr>mm_fields := mm_fields mm @ [f]\<rparr>) fcs)"

definition MeasurementLoad ::
    "('c, 's) libconfig \<Rightarrow> MeasurementMgr \<Rightarrow> Measurement \<Rightarrow> 's \<Rightarrow> (Measurement \<times> int) c" where
  "MeasurementLoad lc mgr mm mmConfig =
     (case config_setting_lookup_string lc mmConfig ''name'' of
        None \<Rightarrow> Inr (mm, - 1)
      | Some name \<Rightarrow>
          (let mm1 = mm\<lparr>mm_name := strncpy (MAX_MEASUREMENT_NAME_LEN - 1) name\<rparr> in
           case config_setting_lookup lc mmConfig ''fields'' of
             None \<Rightarrow> Inl NullDeref
           | Some flds \<Rightarrow>
               if config_setting_length lc flds > unat (fields_num_max mgr) then Inr (mm1, - 1)
               else Inr (load_fields lc mm1 (setting_elems lc flds), 0)))"

fun load_measurements ::
    "('c, 's) libconfig \<Rightarrow> MeasurementMgr \<Rightarrow> heap \<Rightarrow> 's list \<Rightarrow> (MeasurementMgr \<times> heap \<times> int) c" where
  "load_measurements lc mgr h [] = Inr (mgr, h, 0)"
| "load_measurements lc mgr h (mc # mcs) =
     (case MeasurementCreate h of
        (None, h1) \<Rightarrow> Inr (mgr, h1, - 1)
      | (Some mm, h1) \<Rightarrow>
          bindc (MeasurementLoad lc mgr mm mc) (\<lambda>(mm', ret).
            if ret \<noteq> 0 then Inr (mgr, MeasurementDestroy h1, - 1)
            else
              (let (mgr', ret') = MeasurementMgrAdd mgr mm' in
               if ret' \<noteq> 0 then Inr (mgr', MeasurementDestroy h1, - 1)
               else load_measurements lc mgr' h1 mcs)))"

definition MeasurementMgrLoadSingleMeta ::
    "('c, 's) libconfig \<Rightarrow> MeasurementMgr \<Rightarrow> heap \<Rightarrow> cstr \<Rightarrow> (MeasurementMgr \<times> heap \<times> int) c" where
  "MeasurementMgrLoadSingleMeta lc mgr h metaPath =
     (case config_read_file lc metaPath of
        None \<Rightarrow> Inr (mgr, h, - 1)
      | Some cfg \<Rightarrow>
          (case config_lookup lc cfg ''measurements'' of
             None \<Rightarrow> Inr (mgr, h, - 1)
           | Some ms \<Rightarrow> load_measurements lc mgr h (setting_elems lc ms)))"

fun load_dir ::
    "('c, 's) libconfig \<Rightarrow> MeasurementMgr \<Rightarrow> heap \<Rightarrow> cstr \<Rightarrow> cstr list \<Rightarrow> (MeasurementMgr \<times> heap \<times> int) c"
  where
  "load_dir lc mgr h metaDir [] = Inr (mgr, h, 0)"
| "load_dir lc mgr h metaDir (d_name # names) =
     (if take 1 d_name = ''.'' then load_dir lc mgr h metaDir names
      else
        (let metaPath = fst (snprintf (MAX_META_PATH_LEN - 1) [] (metaDir @ ''/'' @ d_name)) in
         bindc (MeasurementMgrLoadSingleMeta lc mgr h metaPath) (\<lambda>(mgr', h', ret).
           if ret \<noteq> 0 then Inr (mgr', h', - 1) else load_dir lc mgr' h' metaDir names)))"

text \<open>\<open>opendir\<close> and \<open>readdir\<close> are given by the names in the directory, \<open>None\<close> when it cannot be
  opened.\<close>

definition MeasurementMgrLoad ::
    "('c, 's) libconfig \<Rightarrow> MeasurementMgr \<Rightarrow> heap \<Rightarrow> cstr \<Rightarrow> cstr list option
     \<Rightarrow> (MeasurementMgr \<times> heap \<times> int) c" where
  "MeasurementMgrLoad lc mgr h metaDir dir =
     (case dir of None \<Rightarrow> Inr (mgr, h, - 1) | Some names \<Rightarrow> load_dir lc mgr h metaDir names)"

subsection \<open>Well-formed tables\<close>

definition field_ok :: "Field \<Rightarrow> bool" where
  "field_ok f \<longleftrightarrow> length (fld_description f) < MAX_FIELD_DESCRIPTION_LEN
     \<and> length (fld_type f) < MAX_FIELD_TYPE_LEN \<and> length (fld_name f) < MAX_FIELD_NAME_LEN"

definition measurement_ok :: "nat \<Rightarrow> Measurement \<Rightarrow> bool" where
  "measurement_ok n mm \<longleftrightarrow> length (mm_name mm) < MAX_MEASUREMENT_NAME_LEN
     \<and> length (mm_fields mm) \<le> n \<and> list_all field_ok (mm_fields mm)"

definition mmgr_ok :: "MeasurementMgr \<Rightarrow> bool" where
  "mmgr_ok mgr \<longleftrightarrow> distinct (map mm_name (measurements mgr))
     \<and> length (measurements mgr) \<le> unat (measurementsCapability mgr)
     \<and> fields_num_max mgr \<le> MAX_FIELDS_NUM
     \<and> list_all (measurement_ok (unat (fields_num_max mgr))) (measurements mgr)"

definition field_of :: "('c, 's) libconfig \<Rightarrow> 's \<Rightarrow> Field" where
  "field_of lc fc = fst (FieldLoad lc fc)"

definition fields_of :: "('c, 's) libconfig \<Rightarrow> 's \<Rightarrow> Field list" where
  "fields_of lc mc = (case config_setting_lookup lc mc ''fields'' of
     None \<Rightarrow> [] | Some flds \<Rightarrow> map (field_of lc) (setting_elems lc flds))"

definition measurement_of :: "('c, 's) libconfig \<Rightarrow> 's \<Rightarrow> Measurement" where
  "measurement_of lc mc =
     \<lparr>mm_name = strncpy 63 (case config_setting_lookup_string lc mc ''name'' of None \<Rightarrow> [] | Some n \<Rightarrow> n),
      mm_fields = fields_of lc mc\<rparr>"

lemma FieldLoad_ok: "FieldLoad lc fc = (f, r) \<Longrightarrow> field_ok f"
  by (auto simp: FieldLoad_def field_ok_def Let_def MAX_FIELD_DESCRIPTION_LEN_def
      MAX_FIELD_TYPE_LEN_def MAX_FIELD_NAME_LEN_def strncpy_def split: option.splits)

lemma load_fields_eq:
  "load_fields lc mm fcs = mm\<lparr>mm_fields := mm_fields mm @ map (field_of lc) fcs\<rparr>"
  by (induction fcs arbitrary: mm) (auto simp: field_of_def split: prod.splits)

lemma MeasurementLoad_0:
  assumes "MeasurementLoad lc mgr \<lparr>mm_name = [], mm_fields = []\<rparr> mc = Inr (mm, 0)"
  shows "mm = measurement_of lc mc" "measurement_ok (unat (fields_num_max mgr)) mm"
proof -
  from assms show mm: "mm = measurement_of lc mc"
    by (auto simp: MeasurementLoad_def measurement_of_def fields_of_def load_fields_eq Let_def
        MAX_MEASUREMENT_NAME_LEN_def split: option.splits if_splits)
  have "field_ok (field_of lc fc)" for fc
    by (cases "FieldLoad lc fc") (auto simp: field_of_def dest: FieldLoad_ok)
  with assms show "measurement_ok (unat (fields_num_max mgr)) mm"
    by (auto simp: MeasurementLoad_def measurement_ok_def load_fields_eq Let_def list_all_iff
        MAX_MEASUREMENT_NAME_LEN_def strncpy_def split: option.splits if_splits)
qed

lemma mmgr_ok_add:
  assumes "mmgr_ok mgr" "MeasurementMgrAdd mgr mm = (mgr', r)"
    "measurement_ok (unat (fields_num_max mgr)) mm"
  shows "mmgr_ok mgr'" "fields_num_max mgr' = fields_num_max mgr"
    "measurementsCapability mgr' = measurementsCapability mgr"
    "r = 0 \<Longrightarrow> measurements mgr' = measurements mgr @ [mm]" "r \<noteq> 0 \<Longrightarrow> mgr' = mgr"
proof -
  show f: "fields_num_max mgr' = fields_num_max mgr"
    "measurementsCapability mgr' = measurementsCapability mgr"
    using assms(2) by (auto simp: MeasurementMgrAdd_def split: if_splits)
  show "r = 0 \<Longrightarrow> measurements mgr' = measurements mgr @ [mm]" "r \<noteq> 0 \<Longrightarrow> mgr' = mgr"
    using assms(2) by (auto simp: MeasurementMgrAdd_def split: if_splits)
  then have "list_all (measurement_ok (unat (fields_num_max mgr))) (measurements mgr')"
    using assms by (cases "r = 0") (auto simp: mmgr_ok_def)
  with assms(1) f mm.add_distinct [OF assms(2)] mm.add_bounded [OF assms(2)]
  show "mmgr_ok mgr'" by (simp add: mmgr_ok_def)
qed

text \<open>What every loading function keeps: the invariant, the limits, and one live block for each
  measurement in the table.\<close>

definition loads :: "('c, 's) libconfig \<Rightarrow> 's list \<Rightarrow> MeasurementMgr \<Rightarrow> heap
    \<Rightarrow> MeasurementMgr \<times> heap \<times> int \<Rightarrow> bool" where
  "loads lc mcs mgr h res \<longleftrightarrow>
     (case res of (mgr', h', r) \<Rightarrow>
        mmgr_ok mgr' \<and> fields_num_max mgr' = fields_num_max mgr
        \<and> measurementsCapability mgr' = measurementsCapability mgr
        \<and> (\<exists>k. measurements mgr' = measurements mgr @ map (measurement_of lc) (take k mcs)
               \<and> (r = 0 \<longrightarrow> take k mcs = mcs))
        \<and> mlive h' - int (length (measurements mgr')) = mlive h - int (length (measurements mgr))
        \<and> (r = 0 \<or> r = - 1))"

lemma loadsI:
  assumes "mmgr_ok mgr'" "fields_num_max mgr' = fields_num_max mgr"
    "measurementsCapability mgr' = measurementsCapability mgr"
    "measurements mgr' = measurements mgr @ map (measurement_of lc) (take k mcs)"
    "r = 0 \<longrightarrow> take k mcs = mcs"
    "mlive h' - int (length (measurements mgr')) = mlive h - int (length (measurements mgr))"
    "r = 0 \<or> r = - 1"
  shows "loads lc mcs mgr h (mgr', h', r)"
  unfolding loads_def prod.case using assms by blast

lemma load_measurements_loads:
  "mmgr_ok mgr \<Longrightarrow> load_measurements lc mgr h mcs = Inr res \<Longrightarrow> loads lc mcs mgr h res"
proof (induction mcs arbitrary: mgr h)
  case (Cons mc mcs)
  have stop: "loads lc (mc # mcs) mgr h (mgr, h', - 1)" if "mlive h' = mlive h" for h'
    using Cons.prems(1) that by (auto simp: loads_def intro!: exI [of _ 0])
  obtain mm0 h1 where mk: "MeasurementCreate h = (mm0, h1)" by force
  show ?case
  proof (cases mm0)
    case None
    with mk have "mlive h1 = mlive h"
      by (auto simp: MeasurementCreate_def heap_simps split: prod.splits if_splits)
    with Cons.prems mk None stop show ?thesis by auto
  next
    case (Some m0)
    with mk have m0: "m0 = \<lparr>mm_name = [], mm_fields = []\<rparr>" and live: "mlive h1 = mlive h + 1"
      by (auto simp: MeasurementCreate_def heap_simps split: prod.splits if_splits)
    from live have freed: "mlive (MeasurementDestroy h1) = mlive h"
      by (simp add: MeasurementDestroy_def)
    from Cons.prems(2) mk Some obtain mm1 r1 where
      l: "MeasurementLoad lc mgr m0 mc = Inr (mm1, r1)" by auto
    show ?thesis
    proof (cases "r1 = 0")
      case False
      with Cons.prems mk Some l stop [OF freed] show ?thesis by auto
    next
      case True
      note mm1 = MeasurementLoad_0 [OF l [unfolded True m0]]
      obtain mgr1 r2 where a: "MeasurementMgrAdd mgr mm1 = (mgr1, r2)" by force
      note add = mmgr_ok_add [OF Cons.prems(1) a mm1(2)]
      show ?thesis
      proof (cases "r2 = 0")
        case False
        with Cons.prems mk Some l True a stop [OF freed] add(5) show ?thesis by auto
      next
        case r2: True
        with Cons.prems mk Some l True a have "load_measurements lc mgr1 h1 mcs = Inr res" by simp
        from Cons.IH [OF add(1) this] have "loads lc mcs mgr1 h1 res" .
        then obtain k where "loads lc mcs mgr1 h1 res"
          "measurements (fst res) = measurements mgr1 @ map (measurement_of lc) (take k mcs)"
          "snd (snd res) = 0 \<longrightarrow> take k mcs = mcs"
          by (auto simp: loads_def split: prod.splits)
        with add r2 mm1(1) live show ?thesis
          by (auto simp: loads_def split: prod.splits intro!: exI [of _ "Suc k"])
      qed
    qed
  qed
qed (auto simp: loads_def)

definition file_settings :: "('c, 's) libconfig \<Rightarrow> cstr \<Rightarrow> 's list" where
  "file_settings lc path = (case config_read_file lc path of
     None \<Rightarrow> []
   | Some cfg \<Rightarrow> (case config_lookup lc cfg ''measurements'' of
                    None \<Rightarrow> [] | Some ms \<Rightarrow> setting_elems lc ms))"

definition meta_paths :: "cstr \<Rightarrow> cstr list \<Rightarrow> cstr list" where
  "meta_paths metaDir names =
     map (\<lambda>n. take 2046 (metaDir @ ''/'' @ n)) (filter (\<lambda>n. take 1 n \<noteq> ''.'') names)"

definition dir_settings :: "('c, 's) libconfig \<Rightarrow> cstr \<Rightarrow> cstr list \<Rightarrow> 's list" where
  "dir_settings lc metaDir names = concat (map (file_settings lc) (meta_paths metaDir names))"

lemma loads_stop: "mmgr_ok mgr \<Longrightarrow> loads lc mcs mgr h (mgr, h, - 1)"
  by (auto simp: loads_def intro!: exI [of _ 0])

lemma loads_trans:
  assumes "loads lc as mgr h (mgr1, h1, 0)" "loads lc bs mgr1 h1 res"
  shows "loads lc (as @ bs) mgr h res"
proof -
  obtain mgr2 h2 r where res: "res = (mgr2, h2, r)" by (cases res)
  from assms(1) have 1: "measurements mgr1 = measurements mgr @ map (measurement_of lc) as"
    by (auto simp: loads_def)
  from assms(2) res obtain k where k:
    "measurements mgr2 = measurements mgr1 @ map (measurement_of lc) (take k bs)"
    "r = 0 \<longrightarrow> take k bs = bs" by (auto simp: loads_def)
  have "take (length as + k) (as @ bs) = as @ take k bs" by simp
  with 1 k assms show ?thesis unfolding res
    by (intro loadsI [where k = "length as + k"]) (simp_all add: loads_def)
qed

lemma loads_weaken: "loads lc as mgr h (mgr1, h1, r) \<Longrightarrow> r \<noteq> 0 \<Longrightarrow> loads lc (as @ bs) mgr h (mgr1, h1, - 1)"
proof -
  assume l: "loads lc as mgr h (mgr1, h1, r)" and r: "r \<noteq> 0"
  then obtain k where k: "measurements mgr1 = measurements mgr @ map (measurement_of lc) (take k as)"
    by (auto simp: loads_def)
  have "take (min k (length as)) (as @ bs) = take k as" by (simp add: min_def)
  with l k show ?thesis by (auto simp: loads_def intro!: exI [of _ "min k (length as)"])
qed

lemma single_loads:
  "mmgr_ok mgr \<Longrightarrow> MeasurementMgrLoadSingleMeta lc mgr h path = Inr res
     \<Longrightarrow> loads lc (file_settings lc path) mgr h res"
  by (auto simp: MeasurementMgrLoadSingleMeta_def file_settings_def loads_stop
      intro: load_measurements_loads split: option.splits)

lemma load_dir_loads:
  "mmgr_ok mgr \<Longrightarrow> load_dir lc mgr h metaDir names = Inr res
     \<Longrightarrow> loads lc (dir_settings lc metaDir names) mgr h res"
proof (induction names arbitrary: mgr h)
  case Nil
  then show ?case by (auto simp: loads_def dir_settings_def meta_paths_def)
next
  case (Cons n names)
  show ?case
  proof (cases "take 1 n = ''.''")
    case True
    with Cons show ?thesis by (simp add: dir_settings_def meta_paths_def)
  next
    case False
    let ?path = "take 2046 (metaDir @ ''/'' @ n)"
    have path: "fst (snprintf (MAX_META_PATH_LEN - 1) [] (metaDir @ ''/'' @ n)) = ?path"
      by (simp add: snprintf_def MAX_META_PATH_LEN_def)
    have ds: "dir_settings lc metaDir (n # names)
        = file_settings lc ?path @ dir_settings lc metaDir names"
      using False by (simp add: dir_settings_def meta_paths_def)
    from Cons.prems(2) False path obtain m1 h1 r1 where
      one: "MeasurementMgrLoadSingleMeta lc mgr h ?path = Inr (m1, h1, r1)" and
      rest: "(if r1 \<noteq> 0 then Inr (m1, h1, - 1) else load_dir lc m1 h1 metaDir names) = Inr res"
      by auto
    note l1 = single_loads [OF Cons.prems(1) one]
    show ?thesis
    proof (cases "r1 = 0")
      case True
      from l1 have "mmgr_ok m1" by (simp add: loads_def)
      with Cons.IH rest True have "loads lc (dir_settings lc metaDir names) m1 h1 res" by simp
      with l1 True show ?thesis unfolding ds by (auto intro: loads_trans)
    next
      case r1: False
      with l1 rest show ?thesis unfolding ds by (auto intro: loads_weaken)
    qed
  qed
qed

lemma if_less_min: "(if a < b then a else b) = min a (b :: 'a :: linorder)"
  by (auto simp: min_def)

lemma MgrCreate_ok:
  assumes "MeasurementMgrCreate cap fmax h = (Some mgr, h')"
  shows "mgr = \<lparr>measurementsCapability = cap, fields_num_max = min fmax MAX_FIELDS_NUM, measurements = []\<rparr>"
    "mmgr_ok mgr" "mlive h' = mlive h + 2"
proof -
  obtain b1 h1 where 1: "malloc h = (b1, h1)" by force
  obtain b2 h2 where 2: "malloc h1 = (b2, h2)" by force
  from assms 1 2 have b: "b1" "b2" "h' = h2" and
    mgr: "mgr = \<lparr>measurementsCapability = cap, fields_num_max = min fmax MAX_FIELDS_NUM, measurements = []\<rparr>"
    by (simp_all add: MeasurementMgrCreate_def if_less_min split: if_splits)
  show "mgr = \<lparr>measurementsCapability = cap, fields_num_max = min fmax MAX_FIELDS_NUM, measurements = []\<rparr>"
    by (fact mgr)
  show "mmgr_ok mgr" by (simp add: mgr mmgr_ok_def)
  show "mlive h' = mlive h + 2" using malloc_live(1) [of h h1] malloc_live(1) [of h1 h2] 1 2 b by simp
qed

lemma MeasurementDestroy_all: "mlive (fold (\<lambda>_. MeasurementDestroy) ms h) = mlive h - int (length ms)"
  by (induction ms arbitrary: h) (auto simp: MeasurementDestroy_def)

subsection \<open>Properties\<close>

text \<open>Whatever the outcome of a load, destroying the manager gives back every block it took.\<close>

lemma MeasurementMgrLoad_no_leak:
  assumes "MeasurementMgrCreate cap fmax h0 = (Some mgr, h)"
    and "MeasurementMgrLoad lc mgr h metaDir dir = Inr (mgr', h', r)"
  shows "mlive (MeasurementMgrDestroy (Some mgr') h') = mlive h0"
proof -
  note mk = MgrCreate_ok [OF assms(1)]
  have "mlive h' - int (length (measurements mgr')) = mlive h - int (length (measurements mgr))"
  proof (cases dir)
    case None
    with assms(2) show ?thesis by (simp add: MeasurementMgrLoad_def)
  next
    case (Some names)
    with assms(2) have "load_dir lc mgr h metaDir names = Inr (mgr', h', r)"
      by (simp add: MeasurementMgrLoad_def)
    from load_dir_loads [OF mk(2) this] show ?thesis by (simp add: loads_def)
  qed
  with mk show ?thesis by (simp add: MeasurementMgrDestroy_def MeasurementDestroy_all)
qed

text \<open>C4: Loading the meta directory into a fresh manager keeps the tables well-formed on every
  path: names are distinct and shorter than their buffer, no table has more fields than the
  configured limit or 128, and no more tables are held than configured. A result of 0 means that
  every measurement of every file that is not hidden was read, in order, and any other result
  is -1 with some first part of them loaded. Nothing leaks: after a load with any outcome, allocation
  failures and rejected measurements included, destroying the manager gives back every block it took.\<close>

theorem MeasurementMgrLoad_tables:
  assumes "MeasurementMgrCreate cap fmax h0 = (Some mgr, h)"
    and "MeasurementMgrLoad lc mgr h metaDir (Some names) = Inr (mgr', h', r)"
  shows "mmgr_ok mgr' \<and> fields_num_max mgr' = min fmax 128 \<and> measurementsCapability mgr' = cap
    \<and> (\<exists>k. measurements mgr' = map (measurement_of lc) (take k (dir_settings lc metaDir names))
           \<and> (r = 0 \<longrightarrow> measurements mgr' = map (measurement_of lc) (dir_settings lc metaDir names)))
    \<and> (r = 0 \<or> r = - 1) \<and> mlive (MeasurementMgrDestroy (Some mgr') h') = mlive h0"
proof -
  let ?ds = "dir_settings lc metaDir names"
  note mk = MgrCreate_ok [OF assms(1)]
  from assms(2) have "load_dir lc mgr h metaDir names = Inr (mgr', h', r)"
    by (simp add: MeasurementMgrLoad_def)
  from load_dir_loads [OF mk(2) this]
  have "loads lc ?ds mgr h (mgr', h', r)" .
  then obtain k where "measurements mgr' = measurements mgr @ map (measurement_of lc) (take k ?ds)"
      "r = 0 \<longrightarrow> take k ?ds = ?ds" "mmgr_ok mgr'" "fields_num_max mgr' = fields_num_max mgr"
      "measurementsCapability mgr' = measurementsCapability mgr" "r = 0 \<or> r = - 1"
    by (auto simp: loads_def)
  with mk MeasurementMgrLoad_no_leak [OF assms] show ?thesis unfolding MAX_FIELDS_NUM_def
    by (intro conjI exI [of _ k]) simp_all
qed

definition example_meta :: "(cstr \<times> setting) list" where
  "example_meta =
     [(''/m/a'', SGroup [(''measurements'', SList
         [SGroup [(''name'', SStr ''net''),
                  (''fields'', SList
                    [SGroup [(''description'', SStr ''d''), (''type'', SStr ''key''), (''name'', SStr ''dev'')],
                     SGroup [(''description'', SStr ''d''), (''type'', SStr ''gauge''), (''name'', SStr ''rx'')]])]])])]"

definition example_mgr :: MeasurementMgr where
  "example_mgr = \<lparr>measurementsCapability = 4, fields_num_max = 8,
         measurements = [\<lparr>mm_name = ''net'', mm_fields =
           [\<lparr>fld_description = ''d'', fld_type = ''key'', fld_name = ''dev''\<rparr>,
            \<lparr>fld_description = ''d'', fld_type = ''gauge'', fld_name = ''rx''\<rparr>]\<rparr>]\<rparr>"

lemma example_meta_load:
  "MeasurementMgrLoad (tree_config example_meta)
     \<lparr>measurementsCapability = 4, fields_num_max = 8, measurements = []\<rparr>
     \<lparr>mscript = [], mlive = 2\<rparr> ''/m'' (Some [''.'', ''..'', ''a'']) =
   Inr (example_mgr,
        \<lparr>mscript = [], mlive = 3\<rparr>, 0)"
  by code_simp

lemma example_meta_create:
  "MeasurementMgrCreate 4 8 \<lparr>mscript = [], mlive = 0\<rparr> =
     (Some \<lparr>measurementsCapability = 4, fields_num_max = 8, measurements = []\<rparr>,
      \<lparr>mscript = [], mlive = 2\<rparr>)"
  by (simp add: MeasurementMgrCreate_def MAX_FIELDS_NUM_def)

theorem MeasurementMgrLoad_tables_witness:
  "mmgr_ok example_mgr \<and> fields_num_max example_mgr = min 8 128
    \<and> mlive (MeasurementMgrDestroy (Some example_mgr) \<lparr>mscript = [], mlive = 3\<rparr>) = mlive \<lparr>mscript = [], mlive = 0\<rparr>"
  using MeasurementMgrLoad_tables [OF example_meta_create example_meta_load] by blast

end
