(* ===== verification/Config.thy ===== *)
theory Config
  imports Interfaces Libconfig
begin

section \<open>The configuration file\<close>

text \<open>
  \<open>lib/config/config.c\<close> and \<open>config.h\<close>, with the switches of \<open>lib/base.h\<close>: the configuration
  manager owns one block for each section and one for each probe entry. A pointer to a block is an
  option; the blocks are counted on the heap. A loading function changes the block of its section
  in place, so what was read before a failure stays in it.
\<close>

subsection \<open>The data\<close>

datatype KafkaSwitch = KAFKA_SWITCH_ON | KAFKA_SWITCH_OFF
datatype ProbeSwitch = PROBE_SWITCH_AUTO | PROBE_SWITCH_ON | PROBE_SWITCH_OFF
datatype ProbeStartCheckType = PROBE_CHK_CNT | PROBE_CHK_MAX
datatype LOG_LEVEL = LOG_DEBUG | LOG_INFO | LOG_WARNING | LOG_ERROR | LOG_FATAL

definition MAX_PROBES_NUM :: nat where "MAX_PROBES_NUM = 32"
definition MAX_EXTEND_PROBES_NUM :: nat where "MAX_EXTEND_PROBES_NUM = 32"
definition MAX_LOG_DIRECTORY_LEN :: nat where "MAX_LOG_DIRECTORY_LEN = 128"
definition MAX_PIN_PATH_LEN :: nat where "MAX_PIN_PATH_LEN = 128"
definition MAX_KAFKA_BROKER_LEN :: nat where "MAX_KAFKA_BROKER_LEN = 32"
definition MAX_KAFKA_TOPIC_LEN :: nat where "MAX_KAFKA_TOPIC_LEN = 32"
definition KAFKA_COMPRESSION_CODEC_LEN :: nat where "KAFKA_COMPRESSION_CODEC_LEN = 32"
definition MAX_PROBE_NAME_LEN :: nat where "MAX_PROBE_NAME_LEN = 32"
definition MAX_EXTEND_PROBE_COMMAND_LEN :: nat where "MAX_EXTEND_PROBE_COMMAND_LEN = 128"
definition MAX_CONF_PARAM_LEN :: nat where "MAX_CONF_PARAM_LEN = 128"

lemmas config_lens =
  MAX_PROBES_NUM_def MAX_EXTEND_PROBES_NUM_def MAX_LOG_DIRECTORY_LEN_def MAX_PIN_PATH_LEN_def
  MAX_KAFKA_BROKER_LEN_def MAX_KAFKA_TOPIC_LEN_def KAFKA_COMPRESSION_CODEC_LEN_def
  MAX_PROBE_NAME_LEN_def MAX_EXTEND_PROBE_COMMAND_LEN_def MAX_CONF_PARAM_LEN_def

record GlobalConfig =
  logDirectory :: cstr
  logLevel :: LOG_LEVEL
  bpfPinPath :: cstr

record IngressConfig =
  in_interval :: u32

record EgressConfig =
  eg_interval :: u32
  eg_timeRange :: u32

record KafkaConfig =
  broker :: cstr
  topic :: cstr
  batchNumMessages :: u32
  compressionCodec :: cstr
  queueBufferingMaxMessages :: u32
  queueBufferingMaxKbytes :: u32
  queueBufferingMaxMs :: u32
  kafkaSwitch :: KafkaSwitch

record ProbeConfig =
  pc_name :: cstr
  pc_switch :: ProbeSwitch
  pc_interval :: u32
  pc_param :: cstr

record ExtendProbeConfig =
  ec_name :: cstr
  ec_command :: cstr
  ec_param :: cstr
  ec_startChkCmd :: cstr
  ec_startChkType :: ProbeStartCheckType
  ec_switch :: ProbeSwitch

record IMDBConfig =
  maxTablesNum :: u32
  maxRecordsNum :: u32
  maxMetricsNum :: u32
  recordTimeout :: u32

record WebServerConfig =
  ws_port :: u16
  ws_on :: u16

record ConfigMgr =
  globalConfig :: "GlobalConfig option"
  ingressConfig :: "IngressConfig option"
  egressConfig :: "EgressConfig option"
  kafkaConfig :: "KafkaConfig option"
  probesConfig :: "ProbeConfig list option"
  extendProbesConfig :: "ExtendProbeConfig list option"
  imdbConfig :: "IMDBConfig option"
  webServerConfig :: "WebServerConfig option"

subsection \<open>Creating and destroying the manager\<close>

definition null_mgr :: ConfigMgr where
  "null_mgr = \<lparr>globalConfig = None, ingressConfig = None, egressConfig = None, kafkaConfig = None,
     probesConfig = None, extendProbesConfig = None, imdbConfig = None, webServerConfig = None\<rparr>"

definition zero_kafka :: KafkaConfig where
  "zero_kafka = \<lparr>broker = [], topic = [], batchNumMessages = 0, compressionCodec = [],
     queueBufferingMaxMessages = 0, queueBufferingMaxKbytes = 0, queueBufferingMaxMs = 0,
     kafkaSwitch = KAFKA_SWITCH_ON\<rparr>"

definition zero_imdb :: IMDBConfig where
  "zero_imdb = \<lparr>maxTablesNum = 0, maxRecordsNum = 0, maxMetricsNum = 0, recordTimeout = 0\<rparr>"

text \<open>The zeroed blocks, in the order in which they are allocated.\<close>

definition config_blocks :: "(ConfigMgr \<Rightarrow> ConfigMgr) list" where
  "config_blocks =
     [\<lambda>m. m\<lparr>globalConfig := Some \<lparr>logDirectory = [], logLevel = LOG_DEBUG, bpfPinPath = []\<rparr>\<rparr>,
      \<lambda>m. m\<lparr>ingressConfig := Some \<lparr>in_interval = 0\<rparr>\<rparr>,
      \<lambda>m. m\<lparr>egressConfig := Some \<lparr>eg_interval = 0, eg_timeRange = 0\<rparr>\<rparr>,
      \<lambda>m. m\<lparr>kafkaConfig := Some zero_kafka\<rparr>,
      \<lambda>m. m\<lparr>probesConfig := Some []\<rparr>,
      \<lambda>m. m\<lparr>extendProbesConfig := Some []\<rparr>,
      \<lambda>m. m\<lparr>imdbConfig := Some zero_imdb\<rparr>,
      \<lambda>m. m\<lparr>webServerConfig := Some \<lparr>ws_port = 0, ws_on = 0\<rparr>\<rparr>]"

fun alloc_blocks :: "(ConfigMgr \<Rightarrow> ConfigMgr) list \<Rightarrow> ConfigMgr \<Rightarrow> heap \<Rightarrow> ConfigMgr \<times> heap \<times> bool" where
  "alloc_blocks [] mgr h = (mgr, h, True)"
| "alloc_blocks (b # bs) mgr h =
     (let (ok, h1) = malloc h in if ok then alloc_blocks bs (b mgr) h1 else (mgr, h1, False))"

definition free_if :: "'a option \<Rightarrow> heap \<Rightarrow> heap" where
  "free_if p h = (if p \<noteq> None then free h else h)"

definition free_list :: "'a list option \<Rightarrow> heap \<Rightarrow> heap" where
  "free_list p h = (case p of None \<Rightarrow> h | Some xs \<Rightarrow> free (free_n (length xs) h))"

text \<open>The blocks of the ingress and the egress section are not in the list of the code.\<close>

definition ConfigMgrDestroy :: "ConfigMgr option \<Rightarrow> heap \<Rightarrow> heap" where
  "ConfigMgrDestroy m h =
     (case m of
        None \<Rightarrow> h
      | Some mgr \<Rightarrow>
          (let h1 = free_if (globalConfig mgr) h;
               h2 = free_if (kafkaConfig mgr) h1;
               h3 = free_list (probesConfig mgr) h2;
               h4 = free_list (extendProbesConfig mgr) h3;
               h5 = free_if (imdbConfig mgr) h4;
               h6 = free_if (webServerConfig mgr) h5
           in free h6))"

definition ConfigMgrCreate :: "heap \<Rightarrow> ConfigMgr option \<times> heap" where
  "ConfigMgrCreate h =
     (let (ok, h1) = malloc h in
      if \<not> ok then (None, h1)
      else
        (let (mgr, h2, ok2) = alloc_blocks config_blocks null_mgr h1 in
         if ok2 then (Some mgr, h2) else (None, ConfigMgrDestroy (Some mgr) h2)))"

subsection \<open>Loading the sections\<close>

text \<open>\<open>ret = lookup(...); if (ret == 0) return -1;\<close> with the block as it is at that point.\<close>

definition need_str :: "('c, 's) libconfig \<Rightarrow> 's \<Rightarrow> cstr \<Rightarrow> 'r \<Rightarrow> (cstr \<Rightarrow> 'r \<times> int) \<Rightarrow> 'r \<times> int" where
  "need_str lc s k cfg f = (case config_setting_lookup_string lc s k of None \<Rightarrow> (cfg, - 1) | Some v \<Rightarrow> f v)"

definition need_int :: "('c, 's) libconfig \<Rightarrow> 's \<Rightarrow> cstr \<Rightarrow> 'r \<Rightarrow> (u32 \<Rightarrow> 'r \<times> int) \<Rightarrow> 'r \<times> int" where
  "need_int lc s k cfg f =
     (case config_setting_lookup_int lc s k of None \<Rightarrow> (cfg, - 1) | Some v \<Rightarrow> f (word_of_int v))"

definition ConfigMgrLoadGlobalConfig ::
    "('c, 's) libconfig \<Rightarrow> GlobalConfig \<Rightarrow> 's \<Rightarrow> GlobalConfig \<times> int" where
  "ConfigMgrLoadGlobalConfig lc g s =
     need_str lc s ''log_directory'' g (\<lambda>v.
       let g1 = g\<lparr>logDirectory := strncpy (MAX_LOG_DIRECTORY_LEN - 1) v\<rparr> in
     need_str lc s ''pin_path'' g1 (\<lambda>v.
       (g1\<lparr>bpfPinPath := strncpy (MAX_PIN_PATH_LEN - 1) v\<rparr>, 0)))"

definition ConfigMgrLoadIngressConfig ::
    "('c, 's) libconfig \<Rightarrow> IngressConfig \<Rightarrow> 's \<Rightarrow> IngressConfig \<times> int" where
  "ConfigMgrLoadIngressConfig lc g s =
     need_int lc s ''interval'' g (\<lambda>v. (g\<lparr>in_interval := v\<rparr>, 0))"

definition ConfigMgrLoadEgressConfig ::
    "('c, 's) libconfig \<Rightarrow> EgressConfig \<Rightarrow> 's \<Rightarrow> EgressConfig \<times> int" where
  "ConfigMgrLoadEgressConfig lc g s =
     need_int lc s ''interval'' g (\<lambda>v. let g1 = g\<lparr>eg_interval := v\<rparr> in
     need_int lc s ''time_range'' g1 (\<lambda>v. (g1\<lparr>eg_timeRange := v\<rparr>, 0)))"

definition ConfigMgrLoadKafkaConfig ::
    "('c, 's) libconfig \<Rightarrow> KafkaConfig \<Rightarrow> 's \<Rightarrow> KafkaConfig \<times> int" where
  "ConfigMgrLoadKafkaConfig lc k0 s =
     need_str lc s ''kafka_broker'' k0 (\<lambda>v.
       let k1 = k0\<lparr>broker := strncpy (MAX_KAFKA_BROKER_LEN - 1) v\<rparr> in
     need_str lc s ''kafka_topic'' k1 (\<lambda>v.
       let k2 = k1\<lparr>topic := strncpy (MAX_KAFKA_TOPIC_LEN - 1) v\<rparr> in
     need_int lc s ''batch_num_messages'' k2 (\<lambda>v.
       let k3 = k2\<lparr>batchNumMessages := v\<rparr> in
     need_str lc s ''compression_codec'' k3 (\<lambda>v.
       let k4 = k3\<lparr>compressionCodec := strncpy (KAFKA_COMPRESSION_CODEC_LEN - 1) v\<rparr> in
     need_int lc s ''queue_buffering_max_messages'' k4 (\<lambda>v.
       let k5 = k4\<lparr>queueBufferingMaxMessages := v\<rparr> in
     need_int lc s ''queue_buffering_max_kbytes'' k5 (\<lambda>v.
       let k6 = k5\<lparr>queueBufferingMaxKbytes := v\<rparr> in
     need_int lc s ''queue_buffering_max_ms'' k6 (\<lambda>v.
       let k7 = k6\<lparr>queueBufferingMaxMs := v\<rparr> in
     need_str lc s ''switch'' k7 (\<lambda>v.
       (k7\<lparr>kafkaSwitch := (if v = ''on'' then KAFKA_SWITCH_ON else KAFKA_SWITCH_OFF)\<rparr>, 0)))))))))"

definition parse_switch :: "cstr \<Rightarrow> ProbeSwitch" where
  "parse_switch v =
     (if v = ''auto'' then PROBE_SWITCH_AUTO else if v = ''on'' then PROBE_SWITCH_ON
      else PROBE_SWITCH_OFF)"

definition load_probe :: "('c, 's) libconfig \<Rightarrow> 's \<Rightarrow> ProbeConfig \<times> int" where
  "load_probe lc s =
     (let p0 = \<lparr>pc_name = [], pc_switch = PROBE_SWITCH_AUTO, pc_interval = 0, pc_param = []\<rparr> in
      need_str lc s ''name'' p0 (\<lambda>v.
        let p1 = p0\<lparr>pc_name := strncpy (MAX_PROBE_NAME_LEN - 1) v\<rparr> in
      need_str lc s ''param'' p1 (\<lambda>v.
        let p2 = p1\<lparr>pc_param := strncpy (MAX_CONF_PARAM_LEN - 1) v\<rparr> in
      need_str lc s ''switch'' p2 (\<lambda>v. (p2\<lparr>pc_switch := parse_switch v\<rparr>, 0)))))"

fun ConfigMgrLoadProbesConfig ::
    "('c, 's) libconfig \<Rightarrow> ProbeConfig list \<Rightarrow> heap \<Rightarrow> 's list \<Rightarrow> ProbeConfig list \<times> heap \<times> int" where
  "ConfigMgrLoadProbesConfig lc ps h [] = (ps, h, 0)"
| "ConfigMgrLoadProbesConfig lc ps h (s # ss) =
     (if length ps = MAX_PROBES_NUM then (ps, h, - 1)
      else
        (let (ok, h1) = malloc h in
         if \<not> ok then (ps, h1, - 1)
         else
           (let (p, ret) = load_probe lc s in
            if ret \<noteq> 0 then (ps @ [p], h1, - 1)
            else ConfigMgrLoadProbesConfig lc (ps @ [p]) h1 ss)))"

text \<open>The start check of an extended probe is read only when its switch is \<open>auto\<close>; a missing
  check is not an error.\<close>

definition load_start_check :: "('c, 's) libconfig \<Rightarrow> 's \<Rightarrow> ExtendProbeConfig \<Rightarrow> ExtendProbeConfig" where
  "load_start_check lc s e =
     (if ec_switch e \<noteq> PROBE_SWITCH_AUTO then e
      else
        (let e1 = e\<lparr>ec_startChkType := PROBE_CHK_MAX\<rparr> in
         case config_setting_lookup_string lc s ''start_check'' of
           None \<Rightarrow> e1
         | Some v \<Rightarrow>
             (let e2 = e1\<lparr>ec_startChkCmd := strncpy (MAX_EXTEND_PROBE_COMMAND_LEN - 1) v\<rparr> in
              case config_setting_lookup_string lc s ''check_type'' of
                None \<Rightarrow> e2
              | Some t \<Rightarrow> if t = ''count'' then e2\<lparr>ec_startChkType := PROBE_CHK_CNT\<rparr> else e2)))"

definition load_extend_probe :: "('c, 's) libconfig \<Rightarrow> 's \<Rightarrow> ExtendProbeConfig \<times> int" where
  "load_extend_probe lc s =
     (let e0 = \<lparr>ec_name = [], ec_command = [], ec_param = [], ec_startChkCmd = [],
                ec_startChkType = PROBE_CHK_CNT, ec_switch = PROBE_SWITCH_AUTO\<rparr> in
      need_str lc s ''name'' e0 (\<lambda>v.
        let e1 = e0\<lparr>ec_name := strncpy (MAX_PROBE_NAME_LEN - 1) v\<rparr> in
      need_str lc s ''command'' e1 (\<lambda>v.
        let e2 = e1\<lparr>ec_command := strncpy (MAX_EXTEND_PROBE_COMMAND_LEN - 1) v\<rparr> in
      need_str lc s ''param'' e2 (\<lambda>v.
        let e3 = e2\<lparr>ec_param := strncpy (MAX_CONF_PARAM_LEN - 1) v\<rparr> in
      need_str lc s ''switch'' e3 (\<lambda>v.
        (load_start_check lc s (e3\<lparr>ec_switch := parse_switch v\<rparr>), 0))))))"

fun ConfigMgrLoadExtendProbesConfig ::
    "('c, 's) libconfig \<Rightarrow> ExtendProbeConfig list \<Rightarrow> heap \<Rightarrow> 's list
     \<Rightarrow> ExtendProbeConfig list \<times> heap \<times> int" where
  "ConfigMgrLoadExtendProbesConfig lc es h [] = (es, h, 0)"
| "ConfigMgrLoadExtendProbesConfig lc es h (s # ss) =
     (if length es = MAX_EXTEND_PROBES_NUM then (es, h, - 1)
      else
        (let (ok, h1) = malloc h in
         if \<not> ok then (es, h1, - 1)
         else
           (let (e, ret) = load_extend_probe lc s in
            if ret \<noteq> 0 then (es @ [e], h1, - 1)
            else ConfigMgrLoadExtendProbesConfig lc (es @ [e]) h1 ss)))"

definition ConfigMgrLoadIMDBConfig ::
    "('c, 's) libconfig \<Rightarrow> IMDBConfig \<Rightarrow> 's \<Rightarrow> IMDBConfig \<times> int" where
  "ConfigMgrLoadIMDBConfig lc c0 s =
     need_int lc s ''max_tables_num'' c0 (\<lambda>v. let c1 = c0\<lparr>maxTablesNum := v\<rparr> in
     need_int lc s ''max_records_num'' c1 (\<lambda>v. let c2 = c1\<lparr>maxRecordsNum := v\<rparr> in
     need_int lc s ''max_metrics_num'' c2 (\<lambda>v. let c3 = c2\<lparr>maxMetricsNum := v\<rparr> in
       (case config_setting_lookup_int lc s ''record_timeout'' of
          None \<Rightarrow> (c3, 0)
        | Some t \<Rightarrow> (c3\<lparr>recordTimeout := word_of_int t\<rparr>, 0)))))"

definition ConfigMgrLoadWebServerConfig ::
    "('c, 's) libconfig \<Rightarrow> WebServerConfig \<Rightarrow> 's \<Rightarrow> WebServerConfig \<times> int" where
  "ConfigMgrLoadWebServerConfig lc w s =
     (case config_setting_lookup_int lc s ''port'' of
        None \<Rightarrow> (w, - 1)
      | Some p \<Rightarrow>
          (let w1 = w\<lparr>ws_port := word_of_int p\<rparr> in
           need_str lc s ''switch'' w1 (\<lambda>v. (w1\<lparr>ws_on := (if v = ''on'' then 1 else 0)\<rparr>, 0))))"

text \<open>
  The table of handlers. A handler works on the block of its section; without the block (which
  \<open>ConfigMgrCreate\<close> never leaves out) its writes go through a NULL pointer.
\<close>

type_synonym 's loader = "ConfigMgr \<Rightarrow> 's \<Rightarrow> heap \<Rightarrow> (ConfigMgr \<times> heap \<times> int) c"

definition on_block ::
    "(ConfigMgr \<Rightarrow> 'b option) \<Rightarrow> ('b \<Rightarrow> ConfigMgr \<Rightarrow> ConfigMgr) \<Rightarrow> ('b \<Rightarrow> 's \<Rightarrow> 'b \<times> int) \<Rightarrow> 's loader" where
  "on_block get put f mgr s h =
     (case get mgr of
        None \<Rightarrow> Inl NullDeref
      | Some b \<Rightarrow> (let (b', ret) = f b s in Inr (put b' mgr, h, ret)))"

definition configLoadHandles :: "('c, 's) libconfig \<Rightarrow> (cstr \<times> 's loader) list" where
  "configLoadHandles lc =
     [(''global'', on_block globalConfig (\<lambda>b m. m\<lparr>globalConfig := Some b\<rparr>) (ConfigMgrLoadGlobalConfig lc)),
      (''ingress'', on_block ingressConfig (\<lambda>b m. m\<lparr>ingressConfig := Some b\<rparr>) (ConfigMgrLoadIngressConfig lc)),
      (''egress'', on_block egressConfig (\<lambda>b m. m\<lparr>egressConfig := Some b\<rparr>) (ConfigMgrLoadEgressConfig lc)),
      (''kafka'', on_block kafkaConfig (\<lambda>b m. m\<lparr>kafkaConfig := Some b\<rparr>) (ConfigMgrLoadKafkaConfig lc)),
      (''probes'', (\<lambda>mgr s h. case probesConfig mgr of
          None \<Rightarrow> Inl NullDeref
        | Some ps \<Rightarrow>
            (let (ps', h', ret) = ConfigMgrLoadProbesConfig lc ps h (setting_elems lc s)
             in Inr (mgr\<lparr>probesConfig := Some ps'\<rparr>, h', ret)))),
      (''extend_probes'', (\<lambda>mgr s h. case extendProbesConfig mgr of
          None \<Rightarrow> Inl NullDeref
        | Some es \<Rightarrow>
            (let (es', h', ret) = ConfigMgrLoadExtendProbesConfig lc es h (setting_elems lc s)
             in Inr (mgr\<lparr>extendProbesConfig := Some es'\<rparr>, h', ret)))),
      (''imdb'', on_block imdbConfig (\<lambda>b m. m\<lparr>imdbConfig := Some b\<rparr>) (ConfigMgrLoadIMDBConfig lc)),
      (''web_server'', on_block webServerConfig (\<lambda>b m. m\<lparr>webServerConfig := Some b\<rparr>) (ConfigMgrLoadWebServerConfig lc))]"

fun load_units :: "('c, 's) libconfig \<Rightarrow> 'c \<Rightarrow> (cstr \<times> 's loader) list \<Rightarrow> ConfigMgr \<Rightarrow> heap
    \<Rightarrow> (ConfigMgr \<times> heap \<times> int) c" where
  "load_units lc cfg [] mgr h = Inr (mgr, h, 0)"
| "load_units lc cfg ((sectionName, func) # us) mgr h =
     (case config_lookup lc cfg sectionName of
        None \<Rightarrow> Inr (mgr, h, - 1)
      | Some settings \<Rightarrow>
          bindc (func mgr settings h) (\<lambda>(mgr', h', ret).
            if ret \<noteq> 0 then Inr (mgr', h', - 1) else load_units lc cfg us mgr' h'))"

definition ConfigMgrLoad ::
    "('c, 's) libconfig \<Rightarrow> ConfigMgr \<Rightarrow> heap \<Rightarrow> cstr \<Rightarrow> (ConfigMgr \<times> heap \<times> int) c" where
  "ConfigMgrLoad lc mgr h confPath =
     (case config_read_file lc confPath of
        None \<Rightarrow> Inr (mgr, h, - 1)
      | Some cfg \<Rightarrow> load_units lc cfg (configLoadHandles lc) mgr h)"

subsection \<open>What a loaded manager holds\<close>

definition the_str :: "('c, 's) libconfig \<Rightarrow> 's \<Rightarrow> cstr \<Rightarrow> cstr" where
  "the_str lc s k = (case config_setting_lookup_string lc s k of None \<Rightarrow> [] | Some v \<Rightarrow> v)"

definition the_int :: "('c, 's) libconfig \<Rightarrow> 's \<Rightarrow> cstr \<Rightarrow> u32" where
  "the_int lc s k = (case config_setting_lookup_int lc s k of None \<Rightarrow> 0 | Some v \<Rightarrow> word_of_int v)"

definition kafka_of :: "('c, 's) libconfig \<Rightarrow> 's \<Rightarrow> KafkaConfig" where
  "kafka_of lc s =
     \<lparr>broker = take 31 (the_str lc s ''kafka_broker''), topic = take 31 (the_str lc s ''kafka_topic''),
      batchNumMessages = the_int lc s ''batch_num_messages'',
      compressionCodec = take 31 (the_str lc s ''compression_codec''),
      queueBufferingMaxMessages = the_int lc s ''queue_buffering_max_messages'',
      queueBufferingMaxKbytes = the_int lc s ''queue_buffering_max_kbytes'',
      queueBufferingMaxMs = the_int lc s ''queue_buffering_max_ms'',
      kafkaSwitch = (if the_str lc s ''switch'' = ''on'' then KAFKA_SWITCH_ON else KAFKA_SWITCH_OFF)\<rparr>"

definition imdb_of :: "('c, 's) libconfig \<Rightarrow> 's \<Rightarrow> IMDBConfig" where
  "imdb_of lc s = \<lparr>maxTablesNum = the_int lc s ''max_tables_num'',
      maxRecordsNum = the_int lc s ''max_records_num'', maxMetricsNum = the_int lc s ''max_metrics_num'',
      recordTimeout = the_int lc s ''record_timeout''\<rparr>"

definition probe_of :: "('c, 's) libconfig \<Rightarrow> 's \<Rightarrow> ProbeConfig" where
  "probe_of lc s = \<lparr>pc_name = take 31 (the_str lc s ''name''),
      pc_switch = parse_switch (the_str lc s ''switch''), pc_interval = 0,
      pc_param = take 127 (the_str lc s ''param'')\<rparr>"

definition extend_probe_of :: "('c, 's) libconfig \<Rightarrow> 's \<Rightarrow> ExtendProbeConfig" where
  "extend_probe_of lc s = load_start_check lc s
     \<lparr>ec_name = take 31 (the_str lc s ''name''), ec_command = take 127 (the_str lc s ''command''),
      ec_param = take 127 (the_str lc s ''param''), ec_startChkCmd = [],
      ec_startChkType = PROBE_CHK_CNT, ec_switch = parse_switch (the_str lc s ''switch'')\<rparr>"

lemma need_str_0 [simp]:
  "need_str lc s k cfg f = (r, 0) \<longleftrightarrow> config_setting_lookup_string lc s k \<noteq> None \<and> f (the_str lc s k) = (r, 0)"
  by (auto simp: need_str_def the_str_def split: option.splits)

lemma need_int_0 [simp]:
  "need_int lc s k cfg f = (r, 0) \<longleftrightarrow> config_setting_lookup_int lc s k \<noteq> None \<and> f (the_int lc s k) = (r, 0)"
  by (auto simp: need_int_def the_int_def split: option.splits)

lemma load_kafka_0: "ConfigMgrLoadKafkaConfig lc k s = (k', 0) \<Longrightarrow> k' = kafka_of lc s"
  by (auto simp: ConfigMgrLoadKafkaConfig_def kafka_of_def Let_def strncpy_def config_lens)

lemma load_imdb_0: "ConfigMgrLoadIMDBConfig lc zero_imdb s = (c, 0) \<Longrightarrow> c = imdb_of lc s"
  by (auto simp: ConfigMgrLoadIMDBConfig_def imdb_of_def zero_imdb_def Let_def the_int_def
      split: option.splits)

lemma load_probe_0: "load_probe lc s = (p, 0) \<Longrightarrow> p = probe_of lc s"
  by (auto simp: load_probe_def probe_of_def Let_def strncpy_def config_lens)

lemma load_extend_probe_0: "load_extend_probe lc s = (p, 0) \<Longrightarrow> p = extend_probe_of lc s"
  by (auto simp: load_extend_probe_def extend_probe_of_def Let_def strncpy_def config_lens)

lemma load_probes:
  "ConfigMgrLoadProbesConfig lc ps h ss = (ps', h', r) \<Longrightarrow> length ps \<le> 32 \<Longrightarrow>
     length ps' \<le> 32 \<and> mlive h' - int (length ps') = mlive h - int (length ps)
     \<and> (r = 0 \<longrightarrow> ps' = ps @ map (probe_of lc) ss)"
proof (induction ss arbitrary: ps h)
  case (Cons s ss)
  show ?case
  proof (cases "length ps = MAX_PROBES_NUM")
    case True
    with Cons.prems show ?thesis by simp
  next
    case False
    obtain ok h1 where m: "malloc h = (ok, h1)" by force
    obtain p r1 where p: "load_probe lc s = (p, r1)" by force
    have len: "length (ps @ [p]) \<le> 32"
      using False Cons.prems(2) by (simp add: config_lens)
    consider "\<not> ok" | "ok" "r1 \<noteq> 0" | "ok" "r1 = 0" by blast
    then show ?thesis
    proof cases
      case 1
      with Cons.prems False m malloc_live(2) [of h h1] show ?thesis by auto
    next
      case 2
      with Cons.prems False m p len malloc_live(1) [of h h1] show ?thesis by auto
    next
      case 3
      with Cons.prems(1) False m p
      have rec: "ConfigMgrLoadProbesConfig lc (ps @ [p]) h1 ss = (ps', h', r)" by simp
      have "p = probe_of lc s" using load_probe_0 [of lc s p] p 3 by simp
      with Cons.IH [OF rec len] m 3 malloc_live(1) [of h h1] show ?thesis by auto
    qed
  qed
qed simp

lemma load_extend_probes:
  "ConfigMgrLoadExtendProbesConfig lc ps h ss = (ps', h', r) \<Longrightarrow> length ps \<le> 32 \<Longrightarrow>
     length ps' \<le> 32 \<and> mlive h' - int (length ps') = mlive h - int (length ps)
     \<and> (r = 0 \<longrightarrow> ps' = ps @ map (extend_probe_of lc) ss)"
proof (induction ss arbitrary: ps h)
  case (Cons s ss)
  show ?case
  proof (cases "length ps = MAX_EXTEND_PROBES_NUM")
    case True
    with Cons.prems show ?thesis by simp
  next
    case False
    obtain ok h1 where m: "malloc h = (ok, h1)" by force
    obtain p r1 where p: "load_extend_probe lc s = (p, r1)" by force
    have len: "length (ps @ [p]) \<le> 32"
      using False Cons.prems(2) by (simp add: config_lens)
    consider "\<not> ok" | "ok" "r1 \<noteq> 0" | "ok" "r1 = 0" by blast
    then show ?thesis
    proof cases
      case 1
      with Cons.prems False m malloc_live(2) [of h h1] show ?thesis by auto
    next
      case 2
      with Cons.prems False m p len malloc_live(1) [of h h1] show ?thesis by auto
    next
      case 3
      with Cons.prems(1) False m p
      have rec: "ConfigMgrLoadExtendProbesConfig lc (ps @ [p]) h1 ss = (ps', h', r)" by simp
      have "p = extend_probe_of lc s" using load_extend_probe_0 [of lc s p] p 3 by simp
      with Cons.IH [OF rec len] m 3 malloc_live(1) [of h h1] show ?thesis by auto
    qed
  qed
qed simp

subsection \<open>What every load keeps\<close>

text \<open>All blocks are there, the probe tables are within their bounds, and the blocks that were
  allocated since the count was \<open>L\<close> are those the manager points to.\<close>

definition config_inv :: "int \<Rightarrow> ConfigMgr \<Rightarrow> heap \<Rightarrow> bool" where
  "config_inv L mgr h \<longleftrightarrow>
     globalConfig mgr \<noteq> None \<and> ingressConfig mgr \<noteq> None \<and> egressConfig mgr \<noteq> None
     \<and> kafkaConfig mgr \<noteq> None \<and> imdbConfig mgr \<noteq> None \<and> webServerConfig mgr \<noteq> None
     \<and> (\<exists>ps es. probesConfig mgr = Some ps \<and> extendProbesConfig mgr = Some es
          \<and> length ps \<le> 32 \<and> length es \<le> 32
          \<and> mlive h = L + 9 + int (length ps) + int (length es))"

lemma ConfigMgrCreate_some:
  assumes "ConfigMgrCreate h0 = (Some mgr, h1)"
  shows "mgr = \<lparr>globalConfig = Some \<lparr>logDirectory = [], logLevel = LOG_DEBUG, bpfPinPath = []\<rparr>,
      ingressConfig = Some \<lparr>in_interval = 0\<rparr>, egressConfig = Some \<lparr>eg_interval = 0, eg_timeRange = 0\<rparr>,
      kafkaConfig = Some zero_kafka, probesConfig = Some [], extendProbesConfig = Some [],
      imdbConfig = Some zero_imdb, webServerConfig = Some \<lparr>ws_port = 0, ws_on = 0\<rparr>\<rparr>"
    and "mlive h1 = mlive h0 + 9"
  using assms
  by (auto simp: ConfigMgrCreate_def config_blocks_def null_mgr_def Let_def
      split: prod.splits if_splits dest!: malloc_live)

lemma created_inv: "ConfigMgrCreate h0 = (Some mgr, h1) \<Longrightarrow> config_inv (mlive h0) mgr h1"
  using ConfigMgrCreate_some [of h0 mgr h1] by (simp add: config_inv_def)

definition keeps_inv :: "'s loader \<Rightarrow> bool" where
  "keeps_inv f \<longleftrightarrow> (\<forall>L mgr s h. config_inv L mgr h \<longrightarrow>
     (\<exists>mgr' h' r. f mgr s h = Inr (mgr', h', r) \<and> config_inv L mgr' h'))"

lemma handles_keep_inv: "(n, f) \<in> set (configLoadHandles lc) \<Longrightarrow> keeps_inv f"
  unfolding keeps_inv_def
proof (intro allI impI)
  fix L mgr s h
  assume f: "(n, f) \<in> set (configLoadHandles lc)" and inv: "config_inv L mgr h"
  then obtain ps es where pe: "probesConfig mgr = Some ps" "extendProbesConfig mgr = Some es"
      "length ps \<le> 32" "length es \<le> 32" "mlive h = L + 9 + int (length ps) + int (length es)"
    by (auto simp: config_inv_def)
  obtain ps' h1 r1 where 1: "ConfigMgrLoadProbesConfig lc ps h (setting_elems lc s) = (ps', h1, r1)"
    using prod_cases3 by blast
  obtain es' h2 r2 where 2: "ConfigMgrLoadExtendProbesConfig lc es h (setting_elems lc s) = (es', h2, r2)"
    using prod_cases3 by blast
  from f inv load_probes [OF 1 pe(3)] load_extend_probes [OF 2 pe(4)] 1 2 pe
  show "\<exists>mgr' h' r. f mgr s h = Inr (mgr', h', r) \<and> config_inv L mgr' h'"
    by (auto simp: configLoadHandles_def on_block_def config_inv_def split: option.splits prod.splits)
qed

lemma load_units_inv:
  "(\<And>n f. (n, f) \<in> set us \<Longrightarrow> keeps_inv f) \<Longrightarrow> config_inv L mgr h \<Longrightarrow>
     \<exists>mgr' h' r. load_units lc cfg us mgr h = Inr (mgr', h', r) \<and> config_inv L mgr' h'"
proof (induction us arbitrary: mgr h)
  case (Cons u us)
  obtain n f where u: "u = (n, f)" by force
  show ?case
  proof (cases "config_lookup lc cfg n")
    case (Some s)
    from Cons.prems(1) [of n f] u have "keeps_inv f" by simp
    with Cons.prems(2) obtain m1 h1 r1 where f: "f mgr s h = Inr (m1, h1, r1)" "config_inv L m1 h1"
      unfolding keeps_inv_def by blast
    from Cons.IH [OF _ f(2)] Cons.prems(1) obtain m2 h2 r2 where
      "load_units lc cfg us m1 h1 = Inr (m2, h2, r2)" "config_inv L m2 h2" by fastforce
    with f Some u show ?thesis by auto
  qed (use Cons.prems u in auto)
qed auto

lemma ConfigMgrLoad_inv:
  "config_inv L mgr h \<Longrightarrow>
     \<exists>mgr' h' r. ConfigMgrLoad lc mgr h path = Inr (mgr', h', r) \<and> config_inv L mgr' h'"
  unfolding ConfigMgrLoad_def
  using load_units_inv [of "configLoadHandles lc" L mgr h, OF handles_keep_inv]
  by (auto split: option.splits)

lemma destroy_inv: "config_inv L mgr h \<Longrightarrow> mlive (ConfigMgrDestroy (Some mgr) h) = L + 2"
  by (auto simp: config_inv_def ConfigMgrDestroy_def free_if_def free_list_def Let_def)

definition loaded_mgr :: "('c, 's) libconfig \<Rightarrow> (cstr \<Rightarrow> 's) \<Rightarrow> ConfigMgr" where
  "loaded_mgr lc sec = \<lparr>
     globalConfig = Some \<lparr>logDirectory = take 127 (the_str lc (sec ''global'') ''log_directory''),
       logLevel = LOG_DEBUG, bpfPinPath = take 127 (the_str lc (sec ''global'') ''pin_path'')\<rparr>,
     ingressConfig = Some \<lparr>in_interval = the_int lc (sec ''ingress'') ''interval''\<rparr>,
     egressConfig = Some \<lparr>eg_interval = the_int lc (sec ''egress'') ''interval'',
       eg_timeRange = the_int lc (sec ''egress'') ''time_range''\<rparr>,
     kafkaConfig = Some (kafka_of lc (sec ''kafka'')),
     probesConfig = Some (map (probe_of lc) (setting_elems lc (sec ''probes''))),
     extendProbesConfig = Some (map (extend_probe_of lc) (setting_elems lc (sec ''extend_probes''))),
     imdbConfig = Some (imdb_of lc (sec ''imdb'')),
     webServerConfig = Some \<lparr>ws_port = ucast (the_int lc (sec ''web_server'') ''port''),
       ws_on = (if the_str lc (sec ''web_server'') ''switch'' = ''on'' then 1 else 0)\<rparr>\<rparr>"

definition section_names :: "cstr list" where
  "section_names = [''global'', ''ingress'', ''egress'', ''kafka'', ''probes'', ''extend_probes'',
     ''imdb'', ''web_server'']"

subsection \<open>Properties\<close>

lemma on_block_Inr:
  "on_block get put f mgr s h = Inr (m', h', r) \<longleftrightarrow>
     (\<exists>b b'. get mgr = Some b \<and> f b s = (b', r) \<and> m' = put b' mgr \<and> h' = h)"
  by (auto simp: on_block_def split: option.splits prod.splits)

lemma load_units_0 [simp]:
  "load_units lc cfg ((n, f) # us) mgr h = Inr (m', h', 0) \<longleftrightarrow>
     (\<exists>s m1 h1. config_lookup lc cfg n = Some s \<and> f mgr s h = Inr (m1, h1, 0)
        \<and> load_units lc cfg us m1 h1 = Inr (m', h', 0))"
  by (auto split: option.splits prod.splits if_splits)

lemma load_global_0: "ConfigMgrLoadGlobalConfig lc g s = (g', 0) \<Longrightarrow>
    g' = g\<lparr>logDirectory := take 127 (the_str lc s ''log_directory''), bpfPinPath := take 127 (the_str lc s ''pin_path'')\<rparr>"
  by (auto simp: ConfigMgrLoadGlobalConfig_def Let_def strncpy_def config_lens)

lemma load_ingress_0: "ConfigMgrLoadIngressConfig lc g s = (g', 0) \<Longrightarrow>
    g' = g\<lparr>in_interval := the_int lc s ''interval''\<rparr>"
  by (auto simp: ConfigMgrLoadIngressConfig_def)

lemma load_egress_0: "ConfigMgrLoadEgressConfig lc g s = (g', 0) \<Longrightarrow>
    g' = g\<lparr>eg_interval := the_int lc s ''interval'', eg_timeRange := the_int lc s ''time_range''\<rparr>"
  by (auto simp: ConfigMgrLoadEgressConfig_def Let_def)

lemma ucast_of_int32: "(ucast (word_of_int n :: u32) :: u16) = word_of_int n"
  by (rule bit_word_eqI) (simp add: bit_simps)

lemma load_web_0: "ConfigMgrLoadWebServerConfig lc g s = (g', 0) \<Longrightarrow>
    g' = \<lparr>ws_port = ucast (the_int lc s ''port''), ws_on = (if the_str lc s ''switch'' = ''on'' then 1 else 0)\<rparr>"
  by (auto simp: ConfigMgrLoadWebServerConfig_def Let_def the_int_def ucast_of_int32 split: option.splits)

lemmas sections_0 = load_global_0 load_ingress_0 load_egress_0 load_kafka_0 load_imdb_0 load_web_0

text \<open>What a load that returns 0 has found and stored.\<close>

lemma ConfigMgrLoad_0:
  assumes "ConfigMgrCreate h0 = (Some mgr, h1)"
    and "ConfigMgrLoad lc mgr h1 path = Inr (mgr', h2, 0)"
  shows "\<exists>cfg. config_read_file lc path = Some cfg
      \<and> (\<forall>n \<in> set section_names. config_lookup lc cfg n \<noteq> None)
      \<and> mgr' = loaded_mgr lc (\<lambda>n. the (config_lookup lc cfg n))"
proof -
  from assms(2) obtain cfg where cfg: "config_read_file lc path = Some cfg"
      "load_units lc cfg (configLoadHandles lc) mgr h1 = Inr (mgr', h2, 0)"
    by (auto simp: ConfigMgrLoad_def split: option.splits)
  have probes: "ps' = map (probe_of lc) ss" if "ConfigMgrLoadProbesConfig lc [] h ss = (ps', h', 0)" for ps' h h' ss
    using load_probes [OF that] by simp
  have eprobes: "ps' = map (extend_probe_of lc) ss"
    if "ConfigMgrLoadExtendProbesConfig lc [] h ss = (ps', h', 0)" for ps' h h' ss
    using load_extend_probes [OF that] by simp
  from cfg(2) ConfigMgrCreate_some(1) [OF assms(1)] show ?thesis
    by (auto simp: cfg(1) configLoadHandles_def on_block_Inr section_names_def loaded_mgr_def Let_def
        simp del: load_units.simps(2) split: prod.splits dest!: sections_0 probes eprobes)
qed

text \<open>A file with every section, one probe and one extended probe.\<close>

definition example_file :: setting where
  "example_file = SGroup [
     (''global'', SGroup [(''log_directory'', SStr ''/var/log''), (''pin_path'', SStr ''/sys/fs/bpf'')]),
     (''ingress'', SGroup [(''interval'', SInt 5)]),
     (''egress'', SGroup [(''interval'', SInt 5), (''time_range'', SInt 5)]),
     (''kafka'', SGroup [(''kafka_broker'', SStr ''localhost:9092''), (''kafka_topic'', SStr ''gala''),
        (''batch_num_messages'', SInt 100), (''compression_codec'', SStr ''none''),
        (''queue_buffering_max_messages'', SInt 10), (''queue_buffering_max_kbytes'', SInt 10),
        (''queue_buffering_max_ms'', SInt 10), (''switch'', SStr ''off'')]),
     (''probes'', SList [SGroup [(''name'', SStr ''event''), (''param'', SStr []), (''switch'', SStr ''on'')]]),
     (''extend_probes'', SList [SGroup [(''name'', SStr ''redis''), (''command'', SStr ''run''),
        (''param'', SStr []), (''switch'', SStr ''auto''), (''start_check'', SStr ''pgrep redis | wc -l''),
        (''check_type'', SStr ''count'')]]),
     (''imdb'', SGroup [(''max_tables_num'', SInt 99), (''max_records_num'', SInt 1000),
        (''max_metrics_num'', SInt 1024), (''record_timeout'', SInt 60)]),
     (''web_server'', SGroup [(''port'', SInt 8888), (''switch'', SStr ''on'')])]"

abbreviation example_lc :: "(setting, setting) libconfig" where
  "example_lc \<equiv> tree_config [(''g.conf'', example_file)]"

definition example_load :: "(ConfigMgr \<times> heap \<times> int) c" where
  "example_load = (case ConfigMgrCreate \<lparr>mscript = [], mlive = 0\<rparr> of
      (Some mgr, h) \<Rightarrow> ConfigMgrLoad example_lc mgr h ''g.conf''
    | (None, h) \<Rightarrow> Inl NullDeref)"

lemma example_load_ok:
  "case example_load of Inr (m, h, r) \<Rightarrow> r = 0 \<and> mlive h = 11
     \<and> probesConfig m = Some [\<lparr>pc_name = ''event'', pc_switch = PROBE_SWITCH_ON, pc_interval = 0, pc_param = []\<rparr>]
   | Inl e \<Rightarrow> False"
  by code_simp

lemma example_create:
  "\<exists>mgr h. ConfigMgrCreate \<lparr>mscript = [], mlive = 0\<rparr> = (Some mgr, h)"
  by (simp add: ConfigMgrCreate_def config_blocks_def Let_def)



end
