(* ===== verification/Args.thy ===== *)
theory Args
  imports Interfaces
begin

section \<open>The parameters of a probe\<close>

text \<open>
  \<open>common/args.c\<close> and \<open>args.h\<close>: a probe's parameters come from its command line (\<open>args_parse\<close>)
  or from the \<open>param\<close> string of its entry in the configuration file (\<open>params_parse\<close>). The type
  \<open>char\<close> is signed, as on x86.
\<close>

subsection \<open>The code\<close>

definition DEFAULT_PERIOD :: u32 where "DEFAULT_PERIOD = 5"
definition OUT_PUT_PERIOD_MAX :: u32 where "OUT_PUT_PERIOD_MAX = 120"
definition OUT_PUT_PERIOD_MIN :: u32 where "OUT_PUT_PERIOD_MIN = 1"
definition MAX_PATH_LEN :: nat where "MAX_PATH_LEN = 512"
definition BLOCK_NAME :: nat where "BLOCK_NAME = 32"
definition MAX_PARAM_LEN :: nat where "MAX_PARAM_LEN = 128"
definition FILTER_BY_TASKPROBE :: cstr where "FILTER_BY_TASKPROBE = ''task''"

record probe_params =
  period :: u32
  latency_thr :: u32
  jitter_thr :: u32
  offline_thr :: u32
  drops_count_thr :: u32
  filter_pid :: u32
  logs :: int
  filter_task_probe :: int
  res_percent_upper :: int
  res_percent_lower :: int
  cport_flag :: u8
  filter_block :: cstr
  elf_path :: cstr
  task_whitelist :: cstr
  netcard_list :: cstr

definition set_default_params :: probe_params where
  "set_default_params =
     \<lparr>period = DEFAULT_PERIOD, latency_thr = 0, jitter_thr = 0, offline_thr = 0,
      drops_count_thr = 0, filter_pid = 0, logs = 0, filter_task_probe = 0,
      res_percent_upper = 0, res_percent_lower = 0, cport_flag = 0, filter_block = [],
      elf_path = [], task_whitelist = [], netcard_list = []\<rparr>"

definition is_digit_str :: "cstr \<Rightarrow> bool" where
  "is_digit_str s \<longleftrightarrow> list_all is_digit s"

definition filter_arg_parse :: "cstr \<Rightarrow> probe_params \<Rightarrow> probe_params" where
  "filter_arg_parse arg params =
     (if arg = FILTER_BY_TASKPROBE then params\<lparr>filter_task_probe := 1\<rparr>
      else if is_digit_str arg then params\<lparr>filter_pid := word_of_int (atoi arg)\<rparr>
      else params\<lparr>filter_block := strncpy (BLOCK_NAME - 1) arg\<rparr>)"

text \<open>\<open>(char)atoi(arg) % 100\<close>: truncation to 8 bits, then the remainder with the sign of the
  dividend.\<close>

definition char_percent :: "int \<Rightarrow> int" where
  "char_percent n = (let ch = sint (word_of_int n :: u8) in sgn ch * (\<bar>ch\<bar> mod 100))"

definition period_arg_parse :: "char \<Rightarrow> cstr \<Rightarrow> probe_params \<Rightarrow> probe_params \<times> int" where
  "period_arg_parse opt arg params =
     (if opt = CHR ''t'' then
        (let interval = word_of_int (atoi arg) :: u32 in
         if interval < OUT_PUT_PERIOD_MIN \<or> interval > OUT_PUT_PERIOD_MAX then (params, - 1)
         else (params\<lparr>period := interval\<rparr>, 0))
      else if opt = CHR ''p'' then (params\<lparr>elf_path := fst (snprintf MAX_PATH_LEN (elf_path params) arg)\<rparr>, 0)
      else if opt = CHR ''w'' then
        (params\<lparr>task_whitelist := fst (snprintf MAX_PATH_LEN (task_whitelist params) arg)\<rparr>, 0)
      else if opt = CHR ''c'' then
        (let flag = word_of_int (atoi arg) :: u32 in
         if flag \<noteq> 0 \<and> flag \<noteq> 1 then (params, - 1)
         else (params\<lparr>cport_flag := ucast flag\<rparr>, 0))
      else if opt = CHR ''T'' then (params\<lparr>latency_thr := word_of_int (atoi arg)\<rparr>, 0)
      else if opt = CHR ''J'' then (params\<lparr>jitter_thr := word_of_int (atoi arg)\<rparr>, 0)
      else if opt = CHR ''O'' then (params\<lparr>offline_thr := word_of_int (atoi arg)\<rparr>, 0)
      else if opt = CHR ''D'' then (params\<lparr>drops_count_thr := word_of_int (atoi arg)\<rparr>, 0)
      else if opt = CHR ''U'' then (params\<lparr>res_percent_upper := char_percent (atoi arg)\<rparr>, 0)
      else if opt = CHR ''L'' then (params\<lparr>res_percent_lower := char_percent (atoi arg)\<rparr>, 0)
      else if opt = CHR ''F'' then (filter_arg_parse arg params, 0)
      else if opt = CHR ''l'' then (params\<lparr>logs := 1\<rparr>, 0)
      else if opt = CHR ''n'' then
        (params\<lparr>netcard_list := fst (snprintf MAX_PATH_LEN (netcard_list params) arg)\<rparr>, 0)
      else (params, - 1))"

text \<open>\<open>getopt\<close> is given by the options it returns, each with its \<open>optarg\<close>.\<close>

fun args_parse_loop :: "(char \<times> cstr option) list \<Rightarrow> probe_params \<Rightarrow> probe_params \<times> int" where
  "args_parse_loop [] params = (params, 0)"
| "args_parse_loop ((ch, optarg) # rest) params =
     (case optarg of
        None \<Rightarrow> (params, - 1)
      | Some arg \<Rightarrow>
          (let (params', ret) = period_arg_parse ch arg params in
           if ret \<noteq> 0 then (params', - 1) else args_parse_loop rest params'))"

definition args_parse :: "(char \<times> cstr option) list \<Rightarrow> probe_params \<times> int" where
  "args_parse opts = args_parse_loop opts set_default_params"

text \<open>The value of an option: the characters after its letter up to a minus, without spaces.\<close>

fun params_val_loop :: "cstr \<Rightarrow> nat \<Rightarrow> cstr \<Rightarrow> cstr" where
  "params_val_loop [] params_len val = val"
| "params_val_loop (ch # cs) params_len val =
     (if ch = CHR ''-'' then val
      else params_val_loop cs params_len
             (if ch \<noteq> CHR '' '' \<and> length val < params_len then val @ [ch] else val))"

definition params_val_parse :: "cstr \<Rightarrow> nat \<Rightarrow> cstr c" where
  "params_val_parse p params_len =
     (let val = params_val_loop (drop 1 p) params_len [] in
      if length val < params_len then Inr val else Inl OutOfBounds)"

fun params_parse_loop :: "cstr list \<Rightarrow> probe_params \<Rightarrow> (probe_params \<times> int) c" where
  "params_parse_loop [] params = Inr (params, 0)"
| "params_parse_loop (p # ps) params =
     bindc (params_val_parse p MAX_PARAM_LEN) (\<lambda>val.
       (let (params', ret) = period_arg_parse (hd p) val params in
        if ret \<noteq> 0 then Inr (params', - 1) else params_parse_loop ps params'))"

text \<open>\<open>strcpy(temp, s)\<close> writes past \<open>temp\<close> unless \<open>s\<close> and its NUL fit.\<close>

definition params_parse :: "cstr \<Rightarrow> (probe_params \<times> int) c" where
  "params_parse s =
     (if length s < MAX_PARAM_LEN then
        params_parse_loop (strtok_all (CHR ''-'') s) set_default_params
      else Inl OutOfBounds)"

subsection \<open>Well-formed parameters\<close>

definition params_ok :: "probe_params \<Rightarrow> bool" where
  "params_ok p \<longleftrightarrow> OUT_PUT_PERIOD_MIN \<le> period p \<and> period p \<le> OUT_PUT_PERIOD_MAX
     \<and> cport_flag p \<in> {0, 1} \<and> \<bar>res_percent_upper p\<bar> < 100 \<and> \<bar>res_percent_lower p\<bar> < 100
     \<and> length (filter_block p) < BLOCK_NAME \<and> length (elf_path p) < MAX_PATH_LEN
     \<and> length (task_whitelist p) < MAX_PATH_LEN \<and> length (netcard_list p) < MAX_PATH_LEN"

lemma default_ok: "params_ok set_default_params"
  by (simp add: params_ok_def set_default_params_def DEFAULT_PERIOD_def OUT_PUT_PERIOD_MIN_def
      OUT_PUT_PERIOD_MAX_def BLOCK_NAME_def MAX_PATH_LEN_def)

lemma char_percent_bound: "\<bar>char_percent n\<bar> < 100"
  by (auto simp: char_percent_def Let_def abs_mult sgn_if)

lemma snprintf_less: "0 < n \<Longrightarrow> length (fst (snprintf n old out)) < n"
  by (auto simp: snprintf_def)

lemma filter_arg_ok: "params_ok p \<Longrightarrow> params_ok (filter_arg_parse arg p)"
  by (auto simp: params_ok_def filter_arg_parse_def strncpy_def BLOCK_NAME_def)

lemma filter_arg_cport [simp]: "cport_flag (filter_arg_parse arg p) = cport_flag p"
  by (simp add: filter_arg_parse_def)

lemma period_arg_ok:
  assumes "params_ok p" "period_arg_parse opt arg p = (p', r)"
  shows "params_ok p'" "r = 0 \<or> r = - 1"
proof -
  have n: "0 < MAX_PATH_LEN" by (simp add: MAX_PATH_LEN_def)
  from assms show "params_ok p'"
    by (auto simp: period_arg_parse_def params_ok_def Let_def filter_arg_ok [unfolded params_ok_def]
        snprintf_less [OF n] char_percent_bound split: if_splits)
  from assms(2) show "r = 0 \<or> r = - 1"
    by (auto simp: period_arg_parse_def Let_def split: if_splits)
qed

lemma args_loop_ok: "params_ok p \<Longrightarrow> args_parse_loop opts p = (p', r) \<Longrightarrow> params_ok p' \<and> (r = 0 \<or> r = - 1)"
proof (induction opts p rule: args_parse_loop.induct)
  case (2 ch optarg rest params)
  then show ?case
    using period_arg_ok [of params ch] by (auto split: option.splits prod.splits if_splits)
qed auto

lemma params_loop_ok:
  "params_ok p \<Longrightarrow> params_parse_loop toks p = Inr (p', r) \<Longrightarrow> params_ok p' \<and> (r = 0 \<or> r = - 1)"
proof (induction toks arbitrary: p)
  case (Cons t toks)
  then obtain val where val: "params_val_parse t MAX_PARAM_LEN = Inr val" by auto
  obtain p1 r1 where 1: "period_arg_parse (hd t) val p = (p1, r1)" by force
  with Cons.prems val have "(if r1 \<noteq> 0 then Inr (p1, - 1) else params_parse_loop toks p1) = Inr (p', r)"
    by simp
  with period_arg_ok [OF Cons.prems(1) 1] Cons.IH show ?case by (auto split: if_splits)
qed auto

subsection \<open>Options written into one string\<close>

definition render_opts :: "(char \<times> cstr) list \<Rightarrow> cstr" where
  "render_opts opts = concat (map (\<lambda>(ch, v). ''-'' @ [ch] @ '' '' @ v @ '' '') opts)"

definition opt_token :: "char \<times> cstr \<Rightarrow> cstr" where
  "opt_token x = (case x of (ch, v) \<Rightarrow> [ch] @ '' '' @ v @ '' '')"

definition clean_opt :: "char \<times> cstr \<Rightarrow> bool" where
  "clean_opt x \<longleftrightarrow> fst x \<noteq> CHR ''-'' \<and> CHR ''-'' \<notin> set (snd x) \<and> CHR '' '' \<notin> set (snd x)"

lemma render_opts_split:
  "list_all clean_opt opts \<Longrightarrow> CHR ''-'' \<notin> set s \<Longrightarrow>
     split_on (CHR ''-'') (s @ render_opts opts) = s # map opt_token opts"
proof (induction opts arbitrary: s)
  case Nil
  then show ?case by (simp add: render_opts_def str_simps)
next
  case (Cons x opts)
  obtain ch v where x: "x = (ch, v)" by force
  have r: "render_opts (x # opts) = CHR ''-'' # (opt_token x @ render_opts opts)"
    by (simp add: render_opts_def opt_token_def x)
  from Cons.prems x have "CHR ''-'' \<notin> set (opt_token x)"
    by (auto simp: clean_opt_def opt_token_def)
  with Cons.IH [of "opt_token x"] Cons.prems show ?case by (simp add: r str_simps)
qed

lemma strtok_render:
  "list_all clean_opt opts \<Longrightarrow> strtok_all (CHR ''-'') (render_opts opts) = map opt_token opts"
  using render_opts_split [of opts "[]"]
  by (auto simp: strtok_all_def opt_token_def filter_empty_conv filter_id_conv split: prod.splits)

lemma params_val_loop_plain:
  "CHR ''-'' \<notin> set v \<Longrightarrow> length acc + length v < n \<Longrightarrow>
     params_val_loop v n acc = acc @ filter (\<lambda>ch. ch \<noteq> CHR '' '') v"
  by (induction v arbitrary: acc) auto

lemma params_val_token:
  assumes "clean_opt x" "length (snd x) + 2 < n"
  shows "params_val_parse (opt_token x) n = Inr (snd x)"
proof -
  obtain ch v where x: "x = (ch, v)" by force
  have "params_val_loop ('' '' @ v @ '' '') n [] = v"
    using assms x by (subst params_val_loop_plain) (auto simp: clean_opt_def filter_id_conv)
  with assms x show ?thesis by (simp add: params_val_parse_def opt_token_def)
qed

lemma params_loop_tokens:
  "list_all clean_opt opts \<Longrightarrow> \<forall>x \<in> set opts. length (snd x) + 2 < MAX_PARAM_LEN \<Longrightarrow>
     params_parse_loop (map opt_token opts) p =
       Inr (args_parse_loop (map (\<lambda>(ch, v). (ch, Some v)) opts) p)"
proof (induction opts arbitrary: p)
  case (Cons x opts)
  obtain ch v where x: "x = (ch, v)" by force
  with Cons show ?case
    by (auto simp: params_val_token opt_token_def [of "(ch, v)"] params_val_token [of "(ch, v)", unfolded opt_token_def, simplified] split: prod.splits)
qed auto

lemma render_length: "x \<in> set opts \<Longrightarrow> length (snd x) + 4 \<le> length (render_opts opts)"
  by (induction opts) (auto simp: render_opts_def)

subsection \<open>What a parameter string can give\<close>

text \<open>The values hold no minus, where the tokens end, and no space, which are left out.\<close>

definition clean_str :: "cstr \<Rightarrow> bool" where
  "clean_str x \<longleftrightarrow> CHR ''-'' \<notin> set x \<and> CHR '' '' \<notin> set x"

definition strings_clean :: "probe_params \<Rightarrow> bool" where
  "strings_clean p \<longleftrightarrow> list_all clean_str [elf_path p, task_whitelist p, netcard_list p, filter_block p]"

lemma default_clean: "strings_clean set_default_params"
  by (simp add: strings_clean_def clean_str_def set_default_params_def)

lemma val_loop_clean: "clean_str val \<Longrightarrow> clean_str (params_val_loop cs n val)"
  by (induction cs n val rule: params_val_loop.induct) (auto simp: clean_str_def)

lemma val_parse_clean: "params_val_parse t n = Inr val \<Longrightarrow> clean_str val"
  using val_loop_clean [of "[]" "drop 1 t" n] by (auto simp: params_val_parse_def clean_str_def Let_def split: if_splits)

lemma snprintf_clean: "clean_str x \<Longrightarrow> 0 < n \<Longrightarrow> clean_str (fst (snprintf n old x))"
  by (auto simp: snprintf_def clean_str_def dest: in_set_takeD)

lemma period_arg_clean:
  assumes "strings_clean p" "clean_str arg" "period_arg_parse opt arg p = (p', r)"
  shows "strings_clean p'"
proof -
  have n: "0 < MAX_PATH_LEN" by (simp add: MAX_PATH_LEN_def)
  have "strings_clean (filter_arg_parse arg p)"
    using assms(1,2) by (auto simp: strings_clean_def filter_arg_parse_def clean_str_def strncpy_def dest: in_set_takeD)
  then show ?thesis
    using assms n snprintf_clean [OF assms(2) n] 
    by (auto simp: period_arg_parse_def strings_clean_def Let_def split: if_splits)
qed

lemma params_clean_loop:
  "strings_clean p \<Longrightarrow> params_parse_loop toks p = Inr (p', r) \<Longrightarrow> strings_clean p'"
proof (induction toks arbitrary: p)
  case (Cons t toks)
  then obtain val where val: "params_val_parse t MAX_PARAM_LEN = Inr val" by auto
  obtain p1 r1 where 1: "period_arg_parse (hd t) val p = (p1, r1)" by force
  with Cons.prems val have "(if r1 \<noteq> 0 then Inr (p1, - 1) else params_parse_loop toks p1) = Inr (p', r)"
    by simp
  with period_arg_clean [OF Cons.prems(1) val_parse_clean [OF val] 1] Cons.IH show ?case by (auto split: if_splits)
qed auto

lemma params_parse_total:
  assumes "length s < MAX_PARAM_LEN"
  shows "\<exists>p r. params_parse_loop (strtok_all (CHR ''-'') s) set_default_params = Inr (p, r)"
proof -
  have tok: "length t \<le> length s" if "t \<in> set (strtok_all (CHR ''-'') s)" for t
  proof -
    have "length t \<le> length s" if "t \<in> set (split_on d s)" for d
      using that by (induction s arbitrary: t) (fastforce split: list.splits if_splits)+
    with that show ?thesis by (auto simp: strtok_all_def)
  qed
  have val: "\<exists>v. params_val_parse t MAX_PARAM_LEN = Inr v" if "length t < MAX_PARAM_LEN" for t
  proof -
    have "length (params_val_loop cs n acc) \<le> length acc + length cs" for cs n acc
      by (induction cs n acc rule: params_val_loop.induct) (auto split: if_splits)
    from this [of "drop 1 t" MAX_PARAM_LEN "[]"] that show ?thesis
      by (auto simp: params_val_parse_def Let_def)
  qed
  have run: "\<exists>res. params_parse_loop toks p = Inr res" if "\<forall>t \<in> set toks. length t < MAX_PARAM_LEN" for toks p
    using that
  proof (induction toks arbitrary: p)
    case (Cons t toks)
    with val [of t] show ?case by (fastforce split: prod.splits if_splits)
  qed auto
  from tok assms have "\<forall>t \<in> set (strtok_all (CHR ''-'') s). length t < MAX_PARAM_LEN" by fastforce
  from run [OF this, of set_default_params] show ?thesis by auto
qed

subsection \<open>Properties\<close>

text \<open>C6: Whatever the parameter string of a configuration entry says, which is shorter than 128 characters as
  the entry is an array of that size, and whether it is accepted or refused, the probe is left with usable
  parameters: the period is between 1 and 120 seconds, the client-port flag is 0 or 1, the percentages
  are below 100 in absolute value and every string ends inside its buffer. The command line gives the
  same guarantee.\<close>

theorem params_always_ok:
  assumes "length s < MAX_PARAM_LEN"
  shows "(case params_parse s of Inr (p, r) \<Rightarrow> params_ok p \<and> (r = 0 \<or> r = - 1) | Inl e \<Rightarrow> False)
    \<and> params_ok (fst (args_parse opts))"
proof -
  obtain p r where "params_parse_loop (strtok_all (CHR ''-'') s) set_default_params = Inr (p, r)"
    using params_parse_total [OF assms] by blast
  moreover from params_loop_ok [OF default_ok this] have "params_ok p" "r = 0 \<or> r = - 1" by auto
  moreover obtain p' r' where "args_parse opts = (p', r')" by force
  ultimately show ?thesis
    using assms args_loop_ok [OF default_ok, of opts p' r'] by (simp add: params_parse_def args_parse_def)
qed

theorem params_always_ok_witness:
  "case params_parse ''-t 500'' of Inr (p, r) \<Rightarrow> params_ok p \<and> (r = 0 \<or> r = - 1) | Inl e \<Rightarrow> False"
  using params_always_ok [of "''-t 500''" "[]"] by (simp add: MAX_PARAM_LEN_def)

text \<open>C7: Options whose values hold no minus and no space, written one after the other in the
  form \<open>-t 5 -c 1\<close>, have the effect of the same options on the command line, as long as the
  string fits the parser's buffer.\<close>

theorem params_parse_as_args:
  assumes "list_all clean_opt opts" and "length (render_opts opts) < MAX_PARAM_LEN"
  shows "params_parse (render_opts opts) = Inr (args_parse (map (\<lambda>(ch, v). (ch, Some v)) opts))"
proof -
  have "\<forall>x \<in> set opts. length (snd x) + 2 < MAX_PARAM_LEN"
    using render_length [of _ opts] assms(2) by fastforce
  with assms show ?thesis
    by (simp add: params_parse_def args_parse_def strtok_render params_loop_tokens)
qed

theorem params_parse_as_args_witness:
  "params_parse ''-t 30 -c 1 '' = Inr (args_parse [(CHR ''t'', Some ''30''), (CHR ''c'', Some ''1'')])"
  using params_parse_as_args [of "[(CHR ''t'', ''30''), (CHR ''c'', ''1'')]"]
  by (simp add: render_opts_def clean_opt_def MAX_PARAM_LEN_def)

text \<open>C8: A value with a minus cannot be given in a parameter string. Whatever the string, none of the path,
  the whitelist, the network cards and the block filter that are stored holds a minus or a space. The
  value of \<open>-p\<close> ends at its first minus, and what follows there is parsed as a further option of its own, the
  character after the minus being its letter: refused with -1 when it is none of the option letters, as in
  \<open>-p /opt/gala-gopher\<close>, and obeyed when it is one, as in \<open>-p /opt/a-l\<close>, which turns the logs on.\<close>

theorem params_parse_cuts_at_minus:
  assumes "length s < MAX_PARAM_LEN"
    and "CHR ''-'' \<notin> set v" "CHR '' '' \<notin> set v" "CHR ''-'' \<notin> set (ch # w)" "length v + length w + 5 < MAX_PARAM_LEN"
  shows "(\<exists>p r. params_parse s = Inr (p, r)
      \<and> list_all (\<lambda>x. CHR ''-'' \<notin> set x \<and> CHR '' '' \<notin> set x) [elf_path p, task_whitelist p, netcard_list p, filter_block p])
    \<and> params_parse (''-p '' @ v @ ''-'' @ ch # w) =
        Inr (case period_arg_parse ch (filter (\<lambda>c. c \<noteq> CHR '' '') w) (set_default_params\<lparr>elf_path := v\<rparr>) of
               (p, r) \<Rightarrow> (p, if r \<noteq> 0 then - 1 else 0))
    \<and> (ch \<notin> set ''tpwcTJODULFln'' \<longrightarrow>
         params_parse (''-p '' @ v @ ''-'' @ ch # w) = Inr (set_default_params\<lparr>elf_path := v\<rparr>, - 1))"
proof -
  have cut: "params_parse (''-p '' @ v @ ''-'' @ ch # w) =
      Inr (case period_arg_parse ch (filter (\<lambda>c. c \<noteq> CHR '' '') w) (set_default_params\<lparr>elf_path := v\<rparr>) of
             (p, r) \<Rightarrow> (p, if r \<noteq> 0 then - 1 else 0))"
  proof -
    have "split_on (CHR ''-'') (''p '' @ v @ ''-'' @ ch # w) = [''p '' @ v, ch # w]"
      using assms(2,4) by (auto simp: str_simps)
    then have toks: "strtok_all (CHR ''-'') (''-p '' @ v @ ''-'' @ ch # w) = [''p '' @ v, ch # w]"
      by (simp add: strtok_all_def)
    have "filter (\<lambda>ch. ch \<noteq> CHR '' '') v = v" using assms(3) by (auto simp: filter_id_conv)
    then have "params_val_loop ('' '' @ v) MAX_PARAM_LEN [] = v"
      using assms(2,5) by (subst params_val_loop_plain) auto
    then have v: "params_val_parse (''p '' @ v) MAX_PARAM_LEN = Inr v"
      using assms(5) by (simp add: params_val_parse_def Let_def)
    have "length (filter (\<lambda>c. c \<noteq> CHR '' '') w) < MAX_PARAM_LEN"
      by (rule le_less_trans [OF length_filter_le]) (use assms(5) in simp)
    then have u: "params_val_parse (ch # w) MAX_PARAM_LEN = Inr (filter (\<lambda>c. c \<noteq> CHR '' '') w)"
      using assms(4,5) params_val_loop_plain [of w "[]" MAX_PARAM_LEN]
      by (simp add: params_val_parse_def Let_def)
    have "fst (snprintf MAX_PATH_LEN s v) = v" for s
      using assms(5) by (simp add: snprintf_def MAX_PATH_LEN_def MAX_PARAM_LEN_def)
    then have p: "period_arg_parse (CHR ''p'') v set_default_params
        = (set_default_params\<lparr>elf_path := v\<rparr>, 0)" by (simp add: period_arg_parse_def)
    show ?thesis using assms(5) u v p toks by (simp add: params_parse_def split: prod.splits)
  qed
  have "period_arg_parse ch u params = (params, - 1)" if "ch \<notin> set ''tpwcTJODULFln''" for u params
    using that by (simp add: period_arg_parse_def)
  with cut have bad: "ch \<notin> set ''tpwcTJODULFln'' \<longrightarrow>
      params_parse (''-p '' @ v @ ''-'' @ ch # w) = Inr (set_default_params\<lparr>elf_path := v\<rparr>, - 1)" by simp
  have "\<exists>p r. params_parse s = Inr (p, r) \<and> strings_clean p"
    using params_parse_total [OF assms(1)] params_clean_loop [OF default_clean] assms(1)
    by (fastforce simp: params_parse_def)
  with cut bad show ?thesis by (simp add: strings_clean_def clean_str_def)
qed

theorem params_parse_cuts_at_minus_witness:
  "params_parse ''-p /opt/gala-gopher/bin'' = Inr (set_default_params\<lparr>elf_path := ''/opt/gala''\<rparr>, - 1)
   \<and> params_parse ''-p /opt/a-l'' = Inr (set_default_params\<lparr>elf_path := ''/opt/a'', logs := 1\<rparr>, 0)"
  using params_parse_cuts_at_minus [of "[]" "''/opt/gala''" "CHR ''g''" "''opher/bin''"]
    params_parse_cuts_at_minus [of "[]" "''/opt/a''" "CHR ''l''" "[]"]
  by (simp add: MAX_PARAM_LEN_def period_arg_parse_def)

end
