(* ===== verification/Imdb.thy ===== *)
theory Imdb
  imports Interfaces
begin

section \<open>The in-memory database\<close>

text \<open>
  \<open>lib/imdb/imdb.c\<close> and \<open>imdb.h\<close>: metrics, records, tables and the database manager, and the two
  ways to add a record. The hash table \<open>uthash\<close> the records of a table live in is not part of the
  repository: it is a parameter, a record of the operations the code uses. A pointer to a table
  of the manager is its index. \<open>metricsNum\<close> and \<open>tablesNum\<close> are the lengths of the lists of metrics
  and tables, since every operation changes both together. \<open>time(NULL)\<close> is the argument \<open>now\<close>,
  constant during one operation.
\<close>

subsection \<open>The data\<close>

definition MAX_IMDB_METRIC_DESC_LEN :: nat where "MAX_IMDB_METRIC_DESC_LEN = 1024"
definition MAX_IMDB_METRIC_TYPE_LEN :: nat where "MAX_IMDB_METRIC_TYPE_LEN = 32"
definition MAX_IMDB_METRIC_NAME_LEN :: nat where "MAX_IMDB_METRIC_NAME_LEN = 32"
definition MAX_IMDB_METRIC_VAL_LEN :: nat where "MAX_IMDB_METRIC_VAL_LEN = 512"
definition MAX_IMDB_TABLE_NAME_LEN :: nat where "MAX_IMDB_TABLE_NAME_LEN = 32"
definition MAX_IMDB_MACHINEID_LEN :: nat where "MAX_IMDB_MACHINEID_LEN = 40"
definition MAX_IMDB_HOSTNAME_LEN :: nat where "MAX_IMDB_HOSTNAME_LEN = 64"

lemmas imdb_lens =
  MAX_IMDB_METRIC_DESC_LEN_def MAX_IMDB_METRIC_TYPE_LEN_def MAX_IMDB_METRIC_NAME_LEN_def
  MAX_IMDB_METRIC_VAL_LEN_def MAX_IMDB_TABLE_NAME_LEN_def MAX_IMDB_MACHINEID_LEN_def
  MAX_IMDB_HOSTNAME_LEN_def

definition METRIC_TYPE_LABEL :: cstr where "METRIC_TYPE_LABEL = ''label''"
definition METRIC_TYPE_KEY :: cstr where "METRIC_TYPE_KEY = ''key''"
definition INVALID_METRIC_VALUE :: cstr where "INVALID_METRIC_VALUE = ''(null)''"

definition nul :: char where "nul = CHR 0x00"
definition newline :: cstr where "newline = [CHR 0x0A]"

record IMDB_NodeInfo =
  machineId :: cstr
  hostName :: cstr

record IMDB_Metric =
  description :: cstr
  m_type :: cstr
  m_name :: cstr
  m_val :: cstr

text \<open>\<open>key\<close> is the buffer itself: \<open>keySize\<close> bytes.\<close>

record IMDB_Record =
  keySize :: u32
  key :: "char list option"
  updateTime :: int
  metricsCapacity :: u32
  metrics :: "IMDB_Metric list"

record 'h IMDB_Table =
  t_name :: cstr
  t_meta :: "IMDB_Record option"
  recordsCapability :: u32
  recordKeySize :: u32
  records :: 'h

datatype lock = Unlocked | RdLocked | WrLocked

record 'h IMDB_DataBaseMgr =
  tblsCapability :: u32
  tables :: "'h IMDB_Table list"
  nodeInfo :: IMDB_NodeInfo
  rwlock :: lock
  webServerOn :: u32

subsection \<open>The hash table\<close>

text \<open>The operations of uthash: the empty table, \<open>HASH_FIND\<close> on the bytes of a key,
  \<open>HASH_ADD_KEYPTR\<close>, \<open>HASH_DEL\<close>, \<open>HASH_COUNT\<close> and the order of \<open>HASH_ITER\<close>.\<close>

record 'h uthash =
  uh_empty :: 'h
  uh_find :: "'h \<Rightarrow> char list \<Rightarrow> IMDB_Record option"
  uh_add :: "'h \<Rightarrow> IMDB_Record \<Rightarrow> 'h"
  uh_del :: "'h \<Rightarrow> IMDB_Record \<Rightarrow> 'h"
  uh_count :: "'h \<Rightarrow> nat"
  uh_iter :: "'h \<Rightarrow> IMDB_Record list"

definition key_bytes :: "IMDB_Record \<Rightarrow> char list" where
  "key_bytes r = (case key r of None \<Rightarrow> [] | Some k \<Rightarrow> k)"

text \<open>What the documentation of uthash promises to a user who never adds a key twice: items are
  found by their key and iterated in the order in which they were added.\<close>

definition uthash_ok :: "'h uthash \<Rightarrow> bool" where
  "uthash_ok uh \<longleftrightarrow>
     uh_iter uh (uh_empty uh) = []
     \<and> (\<forall>h k. uh_find uh h k = List.find (\<lambda>r. key_bytes r = k) (uh_iter uh h))
     \<and> (\<forall>h r. key_bytes r \<notin> key_bytes ` set (uh_iter uh h)
          \<longrightarrow> uh_iter uh (uh_add uh h r) = uh_iter uh h @ [r])
     \<and> (\<forall>h r. uh_iter uh (uh_del uh h r) = filter (\<lambda>r'. key_bytes r' \<noteq> key_bytes r) (uh_iter uh h))
     \<and> (\<forall>h. uh_count uh h = length (uh_iter uh h))"

definition list_uthash :: "IMDB_Record list uthash" where
  "list_uthash = \<lparr>uh_empty = [],
     uh_find = (\<lambda>h k. List.find (\<lambda>r. key_bytes r = k) h),
     uh_add = (\<lambda>h r. h @ [r]),
     uh_del = (\<lambda>h r. filter (\<lambda>r'. key_bytes r' \<noteq> key_bytes r) h),
     uh_count = length, uh_iter = (\<lambda>h. h)\<rparr>"

lemma list_uthash_ok: "uthash_ok list_uthash"
  by (simp add: uthash_ok_def list_uthash_def)

subsection \<open>Metrics\<close>

text \<open>The name, the description, the type and the value are passed to \<open>snprintf\<close> as the format.\<close>

definition IMDB_MetricCreate :: "cstr \<Rightarrow> cstr \<Rightarrow> cstr \<Rightarrow> heap \<Rightarrow> (IMDB_Metric option \<times> heap) c" where
  "IMDB_MetricCreate name desc type h =
     (let (ok, h1) = malloc h in
      if \<not> ok then Inr (None, h1)
      else
        bindc (fmt0 name) (\<lambda>n. bindc (fmt0 desc) (\<lambda>d. bindc (fmt0 type) (\<lambda>t.
          Inr (Some \<lparr>description = fst (snprintf MAX_IMDB_METRIC_DESC_LEN [] d),
                     m_type = fst (snprintf MAX_IMDB_METRIC_TYPE_LEN [] t),
                     m_name = fst (snprintf MAX_IMDB_METRIC_NAME_LEN [] n), m_val = []\<rparr>, h1)))))"

definition IMDB_MetricSetValue :: "IMDB_Metric \<Rightarrow> cstr \<Rightarrow> (IMDB_Metric \<times> int) c" where
  "IMDB_MetricSetValue metric val =
     bindc (fmt0 val) (\<lambda>v.
       (let (s, ret) = snprintf MAX_IMDB_METRIC_VAL_LEN (m_val metric) v
        in Inr (metric\<lparr>m_val := s\<rparr>, if ret < 0 then - 1 else 0)))"

definition IMDB_MetricDestroy :: "IMDB_Metric option \<Rightarrow> heap \<Rightarrow> heap" where
  "IMDB_MetricDestroy metric h = (case metric of None \<Rightarrow> h | Some _ \<Rightarrow> free h)"

subsection \<open>Records\<close>

definition IMDB_RecordDestroy :: "IMDB_Record option \<Rightarrow> heap \<Rightarrow> heap" where
  "IMDB_RecordDestroy record h =
     (case record of
        None \<Rightarrow> h
      | Some r \<Rightarrow>
          (let h1 = (if key r \<noteq> None then free h else h);
               h2 = foldl (\<lambda>h m. IMDB_MetricDestroy (Some m) h) h1 (metrics r)
           in free (free h2)))"

definition IMDB_RecordCreate :: "u32 \<Rightarrow> heap \<Rightarrow> IMDB_Record option \<times> heap" where
  "IMDB_RecordCreate capacity h =
     (if capacity = 0 then (None, h)
      else
        (let (ok, h1) = malloc h in
         if \<not> ok then (None, h1)
         else
           (let (ok2, h2) = malloc h1 in
            if \<not> ok2 then (None, free h2)
            else (Some \<lparr>keySize = 0, key = None, updateTime = 0, metricsCapacity = capacity,
                        metrics = []\<rparr>, h2))))"

definition IMDB_RecordCreateWithKey :: "u32 \<Rightarrow> u32 \<Rightarrow> heap \<Rightarrow> IMDB_Record option \<times> heap" where
  "IMDB_RecordCreateWithKey capacity ks h =
     (if ks = 0 then (None, h)
      else
        (let (record, h1) = IMDB_RecordCreate capacity h in
         case record of
           None \<Rightarrow> (None, h1)
         | Some r \<Rightarrow>
             (let (ok, h2) = malloc h1 in
              if \<not> ok then (None, IMDB_RecordDestroy (Some r) h2)
              else (Some (r\<lparr>key := Some (replicate (unat ks) nul), keySize := ks\<rparr>), h2))))"

definition IMDB_RecordAddMetric :: "IMDB_Record \<Rightarrow> IMDB_Metric \<Rightarrow> IMDB_Record \<times> int" where
  "IMDB_RecordAddMetric record metric =
     (if length (metrics record) = unat (metricsCapacity record) then (record, - 1)
      else (record\<lparr>metrics := metrics record @ [metric]\<rparr>, 0))"

text \<open>The check of the end of the slot is in 32-bit arithmetic; the bytes that \<open>snprintf\<close> writes are
  the output and the NUL that ends it.\<close>

definition IMDB_RecordAppendKey :: "IMDB_Record \<Rightarrow> u32 \<Rightarrow> cstr \<Rightarrow> (IMDB_Record \<times> int) c" where
  "IMDB_RecordAppendKey record keyIdx val =
     (let offset = keyIdx * of_nat MAX_IMDB_METRIC_VAL_LEN in
      if offset + of_nat MAX_IMDB_METRIC_VAL_LEN > keySize record then Inr (record, - 1)
      else
        bindc (fmt0 val) (\<lambda>v.
          case key record of
            None \<Rightarrow> Inl NullDeref
          | Some k \<Rightarrow>
              (let out = fst (snprintf MAX_IMDB_METRIC_VAL_LEN [] v) @ [nul]; off = unat offset in
               if off + length out > length k then Inl OutOfBounds
               else Inr (record\<lparr>key := Some (take off k @ out @ drop (off + length out) k)\<rparr>, 0))))"

definition IMDB_RecordUpdateTime :: "IMDB_Record \<Rightarrow> int \<Rightarrow> IMDB_Record" where
  "IMDB_RecordUpdateTime record seconds = record\<lparr>updateTime := seconds\<rparr>"

subsection \<open>Tables\<close>

definition HASH_findRecord :: "'h uthash \<Rightarrow> 'h \<Rightarrow> IMDB_Record \<Rightarrow> IMDB_Record option" where
  "HASH_findRecord uh recs record = uh_find uh recs (key_bytes record)"

definition HASH_addRecord :: "'h uthash \<Rightarrow> 'h \<Rightarrow> IMDB_Record \<Rightarrow> 'h" where
  "HASH_addRecord uh recs record = uh_add uh recs record"

definition HASH_deleteRecord :: "'h uthash \<Rightarrow> 'h \<Rightarrow> IMDB_Record \<Rightarrow> 'h" where
  "HASH_deleteRecord uh recs record = uh_del uh recs record"

definition HASH_recordCount :: "'h uthash \<Rightarrow> 'h \<Rightarrow> u32" where
  "HASH_recordCount uh recs = of_nat (uh_count uh recs)"

definition HASH_deleteAndFreeRecords :: "'h uthash \<Rightarrow> 'h \<Rightarrow> heap \<Rightarrow> 'h \<times> heap" where
  "HASH_deleteAndFreeRecords uh recs h =
     foldl (\<lambda>(recs, h) r. (HASH_deleteRecord uh recs r, IMDB_RecordDestroy (Some r) h))
       (recs, h) (uh_iter uh recs)"

definition IMDB_TableCreate :: "'h uthash \<Rightarrow> cstr \<Rightarrow> u32 \<Rightarrow> heap \<Rightarrow> 'h IMDB_Table option \<times> heap" where
  "IMDB_TableCreate uh name capacity h =
     (let (ok, h1) = malloc h in
      if \<not> ok then (None, h1)
      else
        (let (ok2, h2) = malloc h1 in
         if \<not> ok2 then (None, free h2)
         else (Some \<lparr>t_name = strncpy (MAX_IMDB_TABLE_NAME_LEN - 1) name, t_meta = None,
                     recordsCapability = capacity, recordKeySize = 0, records = uh_empty uh\<rparr>, h2)))"

definition IMDB_TableSetMeta :: "'h IMDB_Table \<Rightarrow> IMDB_Record \<Rightarrow> 'h IMDB_Table \<times> int" where
  "IMDB_TableSetMeta table metaRecord = (table\<lparr>t_meta := Some metaRecord\<rparr>, 0)"

definition IMDB_TableSetRecordKeySize :: "'h IMDB_Table \<Rightarrow> u32 \<Rightarrow> 'h IMDB_Table \<times> int" where
  "IMDB_TableSetRecordKeySize table keyNum =
     (table\<lparr>recordKeySize := keyNum * of_nat MAX_IMDB_METRIC_VAL_LEN\<rparr>, 0)"

text \<open>The record as it is stored, with its update time, is returned beside the table.\<close>

definition IMDB_TableAddRecord ::
    "'h uthash \<Rightarrow> int \<Rightarrow> 'h IMDB_Table \<Rightarrow> IMDB_Record \<Rightarrow> heap
     \<Rightarrow> 'h IMDB_Table \<times> IMDB_Record \<times> heap \<times> int" where
  "IMDB_TableAddRecord uh now table record h =
     (let old_record = HASH_findRecord uh (records table) record;
          (recs, h1) = (case old_record of
              None \<Rightarrow> (records table, h)
            | Some old \<Rightarrow> (HASH_deleteRecord uh (records table) old, IMDB_RecordDestroy (Some old) h));
          table1 = table\<lparr>records := recs\<rparr>
      in if HASH_recordCount uh recs \<ge> recordsCapability table1 then (table1, record, h1, - 1)
         else
           (let record1 = IMDB_RecordUpdateTime record now
            in (table1\<lparr>records := HASH_addRecord uh recs record1\<rparr>, record1, h1, 0)))"

definition IMDB_TableDestroy :: "'h uthash \<Rightarrow> 'h IMDB_Table option \<Rightarrow> heap \<Rightarrow> heap" where
  "IMDB_TableDestroy uh table h =
     (case table of
        None \<Rightarrow> h
      | Some t \<Rightarrow>
          (let h1 = free (snd (HASH_deleteAndFreeRecords uh (records t) h));
               h2 = (if t_meta t \<noteq> None then IMDB_RecordDestroy (t_meta t) h1 else h1)
           in free h2))"

subsection \<open>The database manager\<close>

text \<open>The machine id is the first line of a pipe and the host name comes from the system; both are
  arguments, \<open>None\<close> when the call fails, and so is the outcome of \<open>pthread_rwlock_init\<close>.\<close>

definition IMDB_GetMachineId :: "cstr option \<Rightarrow> cstr option" where
  "IMDB_GetMachineId line =
     (case line of
        None \<Rightarrow> None
      | Some l \<Rightarrow>
          (let buffer = take (MAX_IMDB_MACHINEID_LEN - 1) l
           in Some (if buffer \<noteq> [] \<and> last buffer = CHR 0x0A then butlast buffer else buffer)))"

definition IMDB_DataBaseMgrCreate ::
    "cstr option \<Rightarrow> cstr option \<Rightarrow> bool \<Rightarrow> u32 \<Rightarrow> heap \<Rightarrow> 'h IMDB_DataBaseMgr option \<times> heap" where
  "IMDB_DataBaseMgrCreate line hostname lock_ok capacity h =
     (let (ok, h1) = malloc h in
      if \<not> ok then (None, h1)
      else
        (case IMDB_GetMachineId line of
           None \<Rightarrow> (None, free h1)
         | Some mid \<Rightarrow>
             (case hostname of
                None \<Rightarrow> (None, free h1)
              | Some host \<Rightarrow>
                  (let (ok2, h2) = malloc h1 in
                   if \<not> ok2 then (None, free h2)
                   else if \<not> lock_ok then (None, free (free h2))
                   else (Some \<lparr>tblsCapability = capacity, tables = [],
                               nodeInfo = \<lparr>machineId = mid, hostName = host\<rparr>,
                               rwlock = Unlocked, webServerOn = 0\<rparr>, h2)))))"

definition IMDB_DataBaseMgrSetRecordTimeout :: "u32 \<Rightarrow> u32 \<Rightarrow> u32" where
  "IMDB_DataBaseMgrSetRecordTimeout timeout g_recordTimeout =
     (if timeout > 0 then timeout else g_recordTimeout)"

definition default_recordTimeout :: u32 where "default_recordTimeout = 60"

definition IMDB_DataBaseMgrDestroy :: "'h uthash \<Rightarrow> 'h IMDB_DataBaseMgr option \<Rightarrow> heap \<Rightarrow> heap" where
  "IMDB_DataBaseMgrDestroy uh mgr h =
     (case mgr of
        None \<Rightarrow> h
      | Some m \<Rightarrow> free (free (foldl (\<lambda>h t. IMDB_TableDestroy uh (Some t) h) h (tables m))))"

definition IMDB_DataBaseMgrAddTable ::
    "'h IMDB_DataBaseMgr \<Rightarrow> 'h IMDB_Table \<Rightarrow> 'h IMDB_DataBaseMgr \<times> int" where
  "IMDB_DataBaseMgrAddTable mgr table =
     (if length (tables mgr) = unat (tblsCapability mgr) then (mgr, - 1)
      else if list_ex (\<lambda>t. t_name t = t_name table) (tables mgr) then (mgr, - 1)
      else (mgr\<lparr>tables := tables mgr @ [table]\<rparr>, 0))"

fun find_table :: "'h IMDB_Table list \<Rightarrow> nat \<Rightarrow> cstr \<Rightarrow> nat option" where
  "find_table [] i tableName = None"
| "find_table (t # ts) i tableName =
     (if t_name t = tableName then Some i else find_table ts (i + 1) tableName)"

definition IMDB_DataBaseMgrFindTable :: "'h IMDB_DataBaseMgr \<Rightarrow> cstr \<Rightarrow> nat option" where
  "IMDB_DataBaseMgrFindTable mgr tableName = find_table (tables mgr) 0 tableName"

subsection \<open>Adding a record\<close>

text \<open>The body that both loops over the tokens share: the metric at \<open>index\<close> of the table's
  description is created, set to the token and added, and a key metric is copied into the key.\<close>

definition fill_metric ::
    "IMDB_Record \<Rightarrow> bool \<Rightarrow> u32 \<Rightarrow> u32 \<Rightarrow> cstr \<Rightarrow> IMDB_Record \<Rightarrow> heap
     \<Rightarrow> (IMDB_Record \<times> u32 \<times> heap \<times> int) c" where
  "fill_metric mt needKey index keyIdx token record h =
     (let mm = metrics mt ! unat index in
      bindc (IMDB_MetricCreate (m_name mm) (description mm) (m_type mm) h) (\<lambda>(metric, h1).
        case metric of
          None \<Rightarrow> Inr (record, keyIdx, h1, - 1)
        | Some m \<Rightarrow>
            bindc (IMDB_MetricSetValue m token) (\<lambda>(m1, ret).
              if ret \<noteq> 0 then Inr (record, keyIdx, IMDB_MetricDestroy (Some m1) h1, - 1)
              else
                (let (record1, ret1) = IMDB_RecordAddMetric record m1 in
                 if ret1 \<noteq> 0 then Inr (record1, keyIdx, IMDB_MetricDestroy (Some m1) h1, - 1)
                 else if needKey \<and> METRIC_TYPE_KEY = m_type mm then
                   bindc (IMDB_RecordAppendKey record1 keyIdx token) (\<lambda>(record2, ret2).
                     if ret2 < 0 then Inr (record2, keyIdx, h1, - 1)
                     else Inr (record2, keyIdx + 1, h1, 0))
                 else Inr (record1, keyIdx, h1, 0)))))"

fun parse_content ::
    "IMDB_Record option \<Rightarrow> bool \<Rightarrow> u32 \<Rightarrow> u32 \<Rightarrow> cstr list \<Rightarrow> IMDB_Record \<Rightarrow> heap
     \<Rightarrow> (IMDB_Record \<times> heap \<times> int) c" where
  "parse_content mt needKey keyIdx index [] record h = Inr (record, h, 0)"
| "parse_content mt needKey keyIdx index (token # tokens) record h =
     (if token = newline then Inr (record, h, 0)
      else if token = [] \<and> index = 0 then parse_content mt needKey keyIdx index tokens record h
      else
        (let token' = (if token = [] then INVALID_METRIC_VALUE else token) in
         case mt of
           None \<Rightarrow> Inl NullDeref
         | Some meta \<Rightarrow>
             if unat index \<ge> length (metrics meta) then Inr (record, h, 0)
             else
               bindc (fill_metric meta needKey index keyIdx token' record h)
                 (\<lambda>(record1, keyIdx1, h1, ret).
                    if ret \<noteq> 0 then Inr (record1, h1, - 1)
                    else parse_content mt needKey keyIdx1 (index + 1) tokens record1 h1)))"

definition IMDB_DataBaseMgrParseContent ::
    "'h IMDB_Table \<Rightarrow> IMDB_Record \<Rightarrow> cstr \<Rightarrow> bool \<Rightarrow> heap \<Rightarrow> (IMDB_Record \<times> heap \<times> int) c" where
  "IMDB_DataBaseMgrParseContent table record content needKey h =
     (let (ok, h1) = malloc h in
      if \<not> ok then Inr (record, h1, - 1)
      else
        bindc (parse_content (t_meta table) needKey 0 0 (split_on (CHR ''|'') content) record h1)
          (\<lambda>(record1, h2, ret). Inr (record1, free h2, ret)))"

definition set_table :: "'h IMDB_DataBaseMgr \<Rightarrow> nat \<Rightarrow> 'h IMDB_Table \<Rightarrow> 'h IMDB_DataBaseMgr" where
  "set_table mgr ti table = mgr\<lparr>tables := (tables mgr)[ti := table]\<rparr>"

definition wrlock :: "'h IMDB_DataBaseMgr \<Rightarrow> 'h IMDB_DataBaseMgr" where
  "wrlock mgr = mgr\<lparr>rwlock := WrLocked\<rparr>"

definition rdlock :: "'h IMDB_DataBaseMgr \<Rightarrow> 'h IMDB_DataBaseMgr" where
  "rdlock mgr = mgr\<lparr>rwlock := RdLocked\<rparr>"

definition unlock :: "'h IMDB_DataBaseMgr \<Rightarrow> 'h IMDB_DataBaseMgr" where
  "unlock mgr = mgr\<lparr>rwlock := Unlocked\<rparr>"

definition IMDB_DataBaseMgrCreateRec ::
    "'h uthash \<Rightarrow> int \<Rightarrow> 'h IMDB_DataBaseMgr \<Rightarrow> nat \<Rightarrow> cstr \<Rightarrow> heap
     \<Rightarrow> ('h IMDB_DataBaseMgr \<times> IMDB_Record option \<times> heap) c" where
  "IMDB_DataBaseMgrCreateRec uh now mgr0 ti content h =
     (let mgr = wrlock mgr0; table = tables mgr ! ti in
      case t_meta table of
        None \<Rightarrow> Inl NullDeref
      | Some meta \<Rightarrow>
          (let (record, h1) = IMDB_RecordCreateWithKey (metricsCapacity meta) (recordKeySize table) h in
           case record of
             None \<Rightarrow> Inr (unlock mgr, None, h1)
           | Some r \<Rightarrow>
               bindc (IMDB_DataBaseMgrParseContent table r content True h1) (\<lambda>(r1, h2, ret).
                 if ret \<noteq> 0 then Inr (unlock mgr, None, IMDB_RecordDestroy (Some r1) h2)
                 else
                   (let (table1, r2, h3, ret1) = IMDB_TableAddRecord uh now table r1 h2;
                        mgr1 = set_table mgr ti table1
                    in if ret1 \<noteq> 0 then Inr (unlock mgr1, None, IMDB_RecordDestroy (Some r2) h3)
                       else Inr (unlock mgr1, Some r2, h3)))))"

text \<open>\<open>IMDB_DataBaseMgrAddRecord\<close>: the tokens up to the one that names the table, with \<open>index = -1\<close>.
  The result carries the table and the new record, or the return value of an error.\<close>

fun add_record_head ::
    "'h IMDB_DataBaseMgr \<Rightarrow> cstr list \<Rightarrow> heap
     \<Rightarrow> ((nat \<times> IMDB_Record \<times> cstr list) option \<times> heap \<times> int) c" where
  "add_record_head mgr [] h = Inr (None, h, 0)"
| "add_record_head mgr (token # tokens) h =
     (if token = [] then add_record_head mgr tokens h
      else if token = newline then add_record_head mgr tokens h
      else
        (case IMDB_DataBaseMgrFindTable mgr token of
           None \<Rightarrow> Inr (None, h, - 1)
         | Some ti \<Rightarrow>
             (let table = tables mgr ! ti in
              if recordKeySize table = 0 then Inr (None, h, - 1)
              else
                (case t_meta table of
                   None \<Rightarrow> Inl NullDeref
                 | Some meta \<Rightarrow>
                     (let (record, h1) =
                        IMDB_RecordCreateWithKey (metricsCapacity meta) (recordKeySize table) h
                      in case record of
                           None \<Rightarrow> Inr (None, h1, - 1)
                         | Some r \<Rightarrow> Inr (Some (ti, r, tokens), h1, 0))))))"

text \<open>The tokens after it.\<close>

fun add_record_fields ::
    "IMDB_Record \<Rightarrow> u32 \<Rightarrow> u32 \<Rightarrow> cstr list \<Rightarrow> IMDB_Record \<Rightarrow> heap \<Rightarrow> (IMDB_Record \<times> heap \<times> int) c" where
  "add_record_fields meta keyIdx index [] record h = Inr (record, h, 0)"
| "add_record_fields meta keyIdx index (token # tokens) record h =
     (if token = newline then add_record_fields meta keyIdx index tokens record h
      else
        (let token' = (if token = [] then INVALID_METRIC_VALUE else token) in
         if unat index \<ge> length (metrics meta) then Inr (record, h, 0)
         else
           bindc (fill_metric meta True index keyIdx token' record h)
             (\<lambda>(record1, keyIdx1, h1, ret).
                if ret \<noteq> 0 then Inr (record1, h1, - 1)
                else add_record_fields meta keyIdx1 (index + 1) tokens record1 h1)))"

definition IMDB_DataBaseMgrAddRecord ::
    "'h uthash \<Rightarrow> int \<Rightarrow> 'h IMDB_DataBaseMgr \<Rightarrow> cstr \<Rightarrow> heap \<Rightarrow> ('h IMDB_DataBaseMgr \<times> heap \<times> int) c" where
  "IMDB_DataBaseMgrAddRecord uh now mgr0 recordStr h =
     (let mgr = wrlock mgr0; (ok, h1) = malloc h in
      if \<not> ok then Inr (unlock mgr, h1, - 1)
      else
        bindc (add_record_head mgr (split_on (CHR ''|'') recordStr) h1) (\<lambda>(start, h2, ret).
          if ret \<noteq> 0 then Inr (unlock mgr, free h2, - 1)
          else
            (case start of
               None \<Rightarrow> Inl NullDeref
             | Some (ti, r, tokens) \<Rightarrow>
                 (let table = tables mgr ! ti in
                  case t_meta table of
                    None \<Rightarrow> Inl NullDeref
                  | Some meta \<Rightarrow>
                      bindc (add_record_fields meta 0 0 tokens r h2) (\<lambda>(r1, h3, ret1).
                        if ret1 \<noteq> 0 then Inr (unlock mgr, IMDB_RecordDestroy (Some r1) (free h3), - 1)
                        else
                          (let (table1, r2, h4, ret2) = IMDB_TableAddRecord uh now table r1 h3;
                               mgr1 = set_table mgr ti table1
                           in if ret2 \<noteq> 0
                              then Inr (unlock mgr1, IMDB_RecordDestroy (Some r2) (free h4), - 1)
                              else Inr (unlock mgr1, free h4, 0)))))))"

subsection \<open>Blocks\<close>

definition rec_blocks :: "IMDB_Record \<Rightarrow> int" where
  "rec_blocks r = 2 + int (length (metrics r)) + (if key r \<noteq> None then 1 else 0)"

definition recs_blocks :: "'h uthash \<Rightarrow> 'h \<Rightarrow> int" where
  "recs_blocks uh recs = sum_list (map rec_blocks (uh_iter uh recs))"

definition table_blocks :: "'h uthash \<Rightarrow> 'h IMDB_Table \<Rightarrow> int" where
  "table_blocks uh t = 2 + recs_blocks uh (records t)
     + (case t_meta t of None \<Rightarrow> 0 | Some m \<Rightarrow> rec_blocks m)"

definition mgr_blocks :: "'h uthash \<Rightarrow> 'h IMDB_DataBaseMgr \<Rightarrow> int" where
  "mgr_blocks uh mgr = 2 + sum_list (map (table_blocks uh) (tables mgr))"

lemma foldl_free: "mlive (foldl (\<lambda>h m. IMDB_MetricDestroy (Some m) h) h ms) = mlive h - int (length ms)"
  by (induction ms arbitrary: h) (simp_all add: IMDB_MetricDestroy_def)

lemma RecordDestroy_live [heap_simps, simp]:
  "mlive (IMDB_RecordDestroy (Some r) h) = mlive h - rec_blocks r"
  "IMDB_RecordDestroy None h = h"
  by (simp_all add: IMDB_RecordDestroy_def rec_blocks_def Let_def foldl_free)

lemma foldl_script: "mscript (foldl (\<lambda>h m. IMDB_MetricDestroy (Some m) h) h ms) = mscript h"
  by (induction ms arbitrary: h) (simp_all add: IMDB_MetricDestroy_def)

lemma RecordDestroy_script [simp]: "mscript (IMDB_RecordDestroy r h) = mscript h"
  by (simp add: IMDB_RecordDestroy_def Let_def foldl_script split: option.splits)

lemma foldl_destroy_records:
  "mlive (snd (foldl (\<lambda>(recs, h) r. (HASH_deleteRecord uh recs r, IMDB_RecordDestroy (Some r) h)) (recs, h) rs))
     = mlive h - sum_list (map rec_blocks rs)"
  by (induction rs arbitrary: recs h) auto

lemma TableDestroy_live [heap_simps, simp]:
  "mlive (IMDB_TableDestroy uh (Some t) h) = mlive h - table_blocks uh t"
  by (auto simp: IMDB_TableDestroy_def Let_def HASH_deleteAndFreeRecords_def foldl_destroy_records
      table_blocks_def recs_blocks_def)

lemma MgrDestroy_live [heap_simps, simp]:
  "mlive (IMDB_DataBaseMgrDestroy uh (Some m) h) = mlive h - mgr_blocks uh m"
proof -
  have "mlive (foldl (\<lambda>h t. IMDB_TableDestroy uh (Some t) h) h ts)
      = mlive h - sum_list (map (table_blocks uh) ts)" for ts
    by (induction ts arbitrary: h) auto
  then show ?thesis by (simp add: IMDB_DataBaseMgrDestroy_def mgr_blocks_def)
qed

lemma RecordCreate_cases:
  assumes "IMDB_RecordCreate cap h = (res, h')"
  shows "mlive h' = mlive h + (case res of None \<Rightarrow> 0 | Some r \<Rightarrow> rec_blocks r)"
    and "res = Some r \<Longrightarrow> r = \<lparr>keySize = 0, key = None, updateTime = 0, metricsCapacity = cap, metrics = []\<rparr>"
    and "mscript h = [] \<Longrightarrow> mscript h' = [] \<and> (cap \<noteq> 0 \<longrightarrow> res \<noteq> None)"
  using assms
  by (auto simp: IMDB_RecordCreate_def rec_blocks_def split: if_splits prod.splits dest!: malloc_live)

lemma RecordCreateWithKey_cases:
  assumes "IMDB_RecordCreateWithKey cap ks h = (res, h')"
  shows "mlive h' = mlive h + (case res of None \<Rightarrow> 0 | Some r \<Rightarrow> rec_blocks r)"
    and "res = Some r \<Longrightarrow> r = \<lparr>keySize = ks, key = Some (replicate (unat ks) nul), updateTime = 0,
      metricsCapacity = cap, metrics = []\<rparr>"
    and "mscript h = [] \<Longrightarrow> mscript h' = [] \<and> (cap \<noteq> 0 \<and> ks \<noteq> 0 \<longrightarrow> res \<noteq> None)"
proof -
  obtain res1 h1 where c: "IMDB_RecordCreate cap h = (res1, h1)" by force
  note facts = RecordCreate_cases [OF c]
  show "mlive h' = mlive h + (case res of None \<Rightarrow> 0 | Some r \<Rightarrow> rec_blocks r)"
    using assms c facts(1) facts(2)
    by (auto simp: IMDB_RecordCreateWithKey_def rec_blocks_def split: if_splits prod.splits option.splits dest!: malloc_live)
  show "res = Some r \<Longrightarrow> r = \<lparr>keySize = ks, key = Some (replicate (unat ks) nul), updateTime = 0,
      metricsCapacity = cap, metrics = []\<rparr>"
    using assms c facts(2)
    by (auto simp: IMDB_RecordCreateWithKey_def split: if_splits prod.splits option.splits)
  show "mscript h = [] \<Longrightarrow> mscript h' = [] \<and> (cap \<noteq> 0 \<and> ks \<noteq> 0 \<longrightarrow> res \<noteq> None)"
    using assms c facts(3)
    by (auto simp: IMDB_RecordCreateWithKey_def split: if_splits prod.splits option.splits)
qed

subsection \<open>The key buffer\<close>

text \<open>A key is a row of slots of 512 bytes, one for each key metric, padded with NUL.\<close>

definition slot :: "cstr \<Rightarrow> char list" where
  "slot v = take 511 v @ replicate (512 - length (take 511 v)) nul"

definition key_of :: "nat \<Rightarrow> cstr list \<Rightarrow> char list" where
  "key_of n kvs = concat (map slot kvs) @ replicate (n - 512 * length kvs) nul"

lemma slot_length [simp]: "length (slot v) = 512"
  by (simp add: slot_def)

lemma slots_length [simp]: "length (concat (map slot kvs)) = 512 * length kvs"
  by (induction kvs) simp_all

lemma key_of_length [simp]: "512 * length kvs \<le> n \<Longrightarrow> length (key_of n kvs) = n"
  by (simp add: key_of_def)

lemma slot_inj: "nul \<notin> set v \<Longrightarrow> nul \<notin> set w \<Longrightarrow> slot v = slot w \<Longrightarrow> take 511 v = take 511 w"
proof -
  assume n: "nul \<notin> set v" "nul \<notin> set w" and eq: "slot v = slot w"
  have tw: "takeWhile (\<lambda>ch. ch \<noteq> nul) (slot u) = take 511 u" if "nul \<notin> set u" for u
  proof -
    have "\<forall>ch \<in> set (take 511 u). ch \<noteq> nul" using that by (auto dest: in_set_takeD)
    then show ?thesis unfolding slot_def
      by (subst takeWhile_append2) auto
  qed
  from eq tw [OF n(1)] tw [OF n(2)] show ?thesis by simp
qed

text \<open>Two keys of the same table are the same bytes exactly when the values agree up to the 511
  characters that are kept.\<close>

lemma key_of_inj:
  assumes "length kvs = length kws" "\<forall>v \<in> set (kvs @ kws). nul \<notin> set v"
  shows "key_of n kvs = key_of n kws \<longleftrightarrow> map (take 511) kvs = map (take 511) kws"
proof
  assume "key_of n kvs = key_of n kws"
  then have "concat (map slot kvs) = concat (map slot kws)"
    using assms(1) by (simp add: key_of_def)
  with assms show "map (take 511) kvs = map (take 511) kws"
    by (induction kvs kws rule: list_induct2) (auto simp: slot_inj)
next
  assume "map (take 511) kvs = map (take 511) kws"
  with assms(1) have "map slot kvs = map slot kws"
    by (induction kvs kws rule: list_induct2) (auto simp: slot_def)
  with assms(1) show "key_of n kvs = key_of n kws" by (simp add: key_of_def)
qed

lemma AppendKey_spec:
  assumes k: "key r = Some (key_of (unat (keySize r)) kvs)"
    and room: "512 * (length kvs + 1) \<le> unat (keySize r)" and v: "plain v"
  shows "IMDB_RecordAppendKey r (of_nat (length kvs)) v =
    Inr (r\<lparr>key := Some (key_of (unat (keySize r)) (kvs @ [v]))\<rparr>, 0)"
proof -
  let ?n = "unat (keySize r)" and ?m = "512 * length kvs" and ?out = "take 511 v @ [nul]"
  have lt: "?n < 2 ^ 32" by (rule u32_bound)
  have off: "of_nat (length kvs) * of_nat MAX_IMDB_METRIC_VAL_LEN = (of_nat ?m :: u32)"
    by (simp add: imdb_lens)
  have u1: "unat (of_nat ?m :: u32) = ?m"
    using room lt by (subst unat_u32) auto
  have u2: "unat (of_nat ?m + of_nat MAX_IMDB_METRIC_VAL_LEN :: u32) = ?m + 512"
  proof -
    have "(of_nat ?m + of_nat MAX_IMDB_METRIC_VAL_LEN :: u32) = of_nat (?m + 512)"
      by (simp add: imdb_lens)
    also have "unat \<dots> = ?m + 512" using room lt by (subst unat_u32) auto
    finally show ?thesis .
  qed
  have ok: "\<not> of_nat ?m + of_nat MAX_IMDB_METRIC_VAL_LEN > keySize r"
    using u2 room by (simp add: word_less_nat_alt)
  have out: "fst (snprintf MAX_IMDB_METRIC_VAL_LEN [] v) = take 511 v"
    by (simp add: snprintf_def imdb_lens)
  have tk: "take ?m (key_of ?n kvs) = concat (map slot kvs)"
    by (simp add: key_of_def)
  have dr: "drop (?m + length ?out) (key_of ?n kvs) = replicate (?n - ?m - length ?out) nul"
    by (simp add: key_of_def)
  have len: "\<not> ?m + length ?out > length (key_of ?n kvs)"
    using room by simp
  have pad: "?out @ replicate (?n - ?m - length ?out) nul = slot v @ replicate (?n - 512 * (length kvs + 1)) nul"
  proof -
    have "?n - ?m - length ?out + 1 = 512 - length (take 511 v) + (?n - 512 * (length kvs + 1))"
      using room by simp
    then have "replicate (Suc (?n - ?m - length ?out)) nul
        = replicate (512 - length (take 511 v)) nul @ replicate (?n - 512 * (length kvs + 1)) nul"
      by (simp add: replicate_add [symmetric] del: length_take length_append)
    then show ?thesis by (simp add: slot_def)
  qed
  have res: "take ?m (key_of ?n kvs) @ ?out @ drop (?m + length ?out) (key_of ?n kvs)
      = key_of ?n (kvs @ [v])"
    unfolding tk dr pad by (simp add: key_of_def)
  show ?thesis
    unfolding IMDB_RecordAppendKey_def Let_def off u1 k
    using ok v len res out by (simp del: length_append length_take take_append)
qed

subsection \<open>What a content string says\<close>

definition is_key :: "IMDB_Metric \<Rightarrow> bool" where
  "is_key m \<longleftrightarrow> m_type m = METRIC_TYPE_KEY"

definition metric_ok :: "IMDB_Metric \<Rightarrow> bool" where
  "metric_ok m \<longleftrightarrow> plain (m_name m) \<and> plain (description m) \<and> plain (m_type m)
     \<and> length (m_name m) \<le> 31 \<and> length (description m) \<le> 1023 \<and> length (m_type m) \<le> 31"

text \<open>A description of a table: its metrics are well-formed and fit the record, and the key has a
  slot for each key metric.\<close>

definition meta_ok :: "u32 \<Rightarrow> IMDB_Record \<Rightarrow> bool" where
  "meta_ok ks mt \<longleftrightarrow> (\<forall>m \<in> set (metrics mt). metric_ok m)
     \<and> length (metrics mt) \<le> unat (metricsCapacity mt)
     \<and> unat ks = 512 * length (filter is_key (metrics mt))"

definition key_values :: "IMDB_Record \<Rightarrow> cstr list \<Rightarrow> cstr list" where
  "key_values mt vals = map snd (filter (\<lambda>(m, v). is_key m) (zip (metrics mt) vals))"

definition mk_metrics :: "IMDB_Record \<Rightarrow> cstr list \<Rightarrow> IMDB_Metric list" where
  "mk_metrics mt vals = map (\<lambda>(m, v). m\<lparr>m_val := take 511 v\<rparr>) (zip (metrics mt) vals)"

text \<open>The record that holds the given values, with or without a key.\<close>

definition rec_of :: "bool \<Rightarrow> u32 \<Rightarrow> IMDB_Record \<Rightarrow> cstr list \<Rightarrow> IMDB_Record" where
  "rec_of b ks mt vals = \<lparr>keySize = (if b then ks else 0),
     key = (if b then Some (key_of (unat ks) (key_values mt vals)) else None),
     updateTime = 0, metricsCapacity = metricsCapacity mt, metrics = mk_metrics mt vals\<rparr>"

definition fill :: "cstr \<Rightarrow> cstr" where
  "fill t = (if t = [] then INVALID_METRIC_VALUE else t)"

text \<open>The values of a content string: empty ones at the front are dropped, the others become
  \<open>(null)\<close>, a newline ends the record and what the table has no metric for is ignored.\<close>

definition content_values :: "IMDB_Record \<Rightarrow> cstr \<Rightarrow> cstr list" where
  "content_values mt content =
     take (length (metrics mt))
       (map fill (takeWhile (\<lambda>t. t \<noteq> newline)
          (dropWhile (\<lambda>t. t = []) (split_on (CHR ''|'') content))))"

definition key_idx :: "bool \<Rightarrow> IMDB_Record \<Rightarrow> cstr list \<Rightarrow> u32" where
  "key_idx b mt vals = (if b then of_nat (length (key_values mt vals)) else 0)"

lemma zip_snoc: "length ys < length xs \<Longrightarrow> zip xs (ys @ [y]) = zip xs ys @ [(xs ! length ys, y)]"
proof (induction ys arbitrary: xs)
  case Nil
  then show ?case by (cases xs) auto
next
  case (Cons z ys)
  then show ?case by (cases xs) auto
qed

lemma key_values_snoc: "length vals < length (metrics mt) \<Longrightarrow>
    key_values mt (vals @ [v]) =
      key_values mt vals @ (if is_key (metrics mt ! length vals) then [v] else [])"
  by (simp add: key_values_def zip_snoc)

lemma mk_metrics_snoc: "length vals < length (metrics mt) \<Longrightarrow>
    mk_metrics mt (vals @ [v]) = mk_metrics mt vals @ [(metrics mt ! length vals)\<lparr>m_val := take 511 v\<rparr>]"
  by (simp add: mk_metrics_def zip_snoc)

lemma mk_metrics_length [simp]:
  "length vals \<le> length (metrics mt) \<Longrightarrow> length (mk_metrics mt vals) = length vals"
  by (simp add: mk_metrics_def)

lemma key_values_count:
  "length vals \<le> length (metrics mt) \<Longrightarrow>
     length (key_values mt vals) = length (filter is_key (take (length vals) (metrics mt)))"
proof (induction vals rule: rev_induct)
  case (snoc v vals)
  then show ?case
    by (simp add: key_values_snoc take_Suc_conv_app_nth)
qed (simp add: key_values_def)

lemma key_values_le: "length vals \<le> length (metrics mt) \<Longrightarrow>
    length (key_values mt vals) \<le> length (filter is_key (metrics mt))"
  by (metis append_take_drop_id filter_append key_values_count le_add1 length_append)

lemma rec_blocks_rec_of [simp]: "length vals \<le> length (metrics mt) \<Longrightarrow>
    rec_blocks (rec_of b ks mt vals) = 2 + int (length vals) + (if b then 1 else 0)"
  by (simp add: rec_blocks_def rec_of_def)

lemma fill_metric_spec:
  assumes mt: "if b then meta_ok ks mt else meta_ok ks' mt" and lt: "length vals < length (metrics mt)"
    and tok: "plain tok" and m: "malloc h = (ok, h1)"
  shows "fill_metric mt b (of_nat (length vals)) (key_idx b mt vals) tok (rec_of b ks mt vals) h =
    (if ok then Inr (rec_of b ks mt (vals @ [tok]), key_idx b mt (vals @ [tok]), h1, 0)
     else Inr (rec_of b ks mt vals, key_idx b mt vals, h1, - 1))"
proof -
  let ?mm = "metrics mt ! length vals"
  from mt have cap: "length (metrics mt) \<le> unat (metricsCapacity mt)"
    and mok: "metric_ok ?mm" using lt by (auto simp: meta_ok_def split: if_splits)
  have idx: "unat (of_nat (length vals) :: u32) = length vals"
    using lt cap u32_bound [of "metricsCapacity mt"] by (intro unat_u32) linarith
  from mok have create: "IMDB_MetricCreate (m_name ?mm) (description ?mm) (m_type ?mm) h
      = (if ok then Inr (Some (?mm\<lparr>m_val := []\<rparr>), h1) else Inr (None, h1))"
    by (simp add: IMDB_MetricCreate_def m metric_ok_def snprintf_def imdb_lens)
  have set: "IMDB_MetricSetValue (?mm\<lparr>m_val := []\<rparr>) tok = Inr (?mm\<lparr>m_val := take 511 tok\<rparr>, 0)"
    using tok by (simp add: IMDB_MetricSetValue_def snprintf_def imdb_lens)
  let ?r1 = "(rec_of b ks mt vals)\<lparr>metrics := mk_metrics mt (vals @ [tok])\<rparr>"
  have add: "IMDB_RecordAddMetric (rec_of b ks mt vals) (?mm\<lparr>m_val := take 511 tok\<rparr>) = (?r1, 0)"
    using lt cap by (simp add: IMDB_RecordAddMetric_def rec_of_def mk_metrics_snoc)
  have ik: "(METRIC_TYPE_KEY = m_type ?mm) = is_key ?mm" by (auto simp: is_key_def)
  show ?thesis
  proof (cases "b \<and> is_key ?mm")
    case True
    have kv: "key_values mt (vals @ [tok]) = key_values mt vals @ [tok]"
      using lt True by (simp add: key_values_snoc)
    have le: "length (key_values mt (vals @ [tok])) \<le> length (filter is_key (metrics mt))"
      using lt by (intro key_values_le) simp
    have "IMDB_RecordAppendKey ?r1 (of_nat (length (key_values mt vals))) tok =
      Inr (?r1\<lparr>key := Some (key_of (unat (keySize ?r1)) (key_values mt vals @ [tok]))\<rparr>, 0)"
      using True tok le mt kv by (intro AppendKey_spec) (auto simp: rec_of_def meta_ok_def)
    then have "IMDB_RecordAppendKey ?r1 (of_nat (length (key_values mt vals))) tok
        = Inr (rec_of b ks mt (vals @ [tok]), 0)"
      using True kv by (simp add: rec_of_def)
    with True kv add show ?thesis
      by (cases ok) (simp_all add: fill_metric_def Let_def idx create set key_idx_def ik)
  next
    case False
    then have "?r1 = rec_of b ks mt (vals @ [tok])" "key_idx b mt (vals @ [tok]) = key_idx b mt vals"
      using lt by (auto simp: rec_of_def key_idx_def key_values_snoc)
    with False add show ?thesis
      by (cases ok) (auto simp add: fill_metric_def Let_def idx create set ik)
  qed
qed

text \<open>The loop over the tokens from any point of it: on success the values are all there, and an
  allocation failure leaves the values so far; the blocks taken are those of the metrics.\<close>

definition rest_values :: "IMDB_Record \<Rightarrow> nat \<Rightarrow> cstr list \<Rightarrow> cstr list" where
  "rest_values mt n tokens =
     take (length (metrics mt) - n)
       (map fill (takeWhile (\<lambda>t. t \<noteq> newline)
          (if n = 0 then dropWhile (\<lambda>t. t = []) tokens else tokens)))"

definition parsed :: "bool \<Rightarrow> u32 \<Rightarrow> IMDB_Record \<Rightarrow> cstr list \<Rightarrow> heap \<Rightarrow> cstr list
    \<Rightarrow> (IMDB_Record \<times> heap \<times> int) c \<Rightarrow> bool" where
  "parsed b ks mt vals h goal res \<longleftrightarrow>
     (\<exists>vals' h' ret. res = Inr (rec_of b ks mt vals', h', ret)
        \<and> length vals' \<le> length (metrics mt)
        \<and> mlive h' = mlive h + int (length vals') - int (length vals)
        \<and> (ret = 0 \<and> vals' = goal \<or> ret = - 1)
        \<and> (mscript h = [] \<longrightarrow> ret = 0 \<and> mscript h' = []))"

lemma parsed_here: "length vals \<le> length (metrics mt) \<Longrightarrow>
    parsed b ks mt vals h vals (Inr (rec_of b ks mt vals, h, 0))"
  by (auto simp: parsed_def)

lemma parsed_step:
  "parsed b ks mt (vals @ [v]) h1 goal res \<Longrightarrow> malloc h = (True, h1) \<Longrightarrow> parsed b ks mt vals h goal res"
  unfolding parsed_def by (fastforce dest: malloc_live malloc_script)

lemma zip_take_len: "zip xs (take (length xs) ys) = zip xs ys"
proof (induction xs arbitrary: ys)
  case (Cons x xs)
  then show ?case by (cases ys) simp_all
qed simp

lemma fill_nul: "nul \<in> set (fill v) \<longleftrightarrow> nul \<in> set v"
  by (simp add: fill_def INVALID_METRIC_VALUE_def nul_def)

lemma plain_fill: "plain t \<Longrightarrow> plain (fill t)"
  by (simp add: fill_def plain_def INVALID_METRIC_VALUE_def)

lemma rest_values_cons:
  assumes "n < length (metrics mt)" "t \<noteq> newline" "n = 0 \<longrightarrow> t \<noteq> []"
  shows "rest_values mt n (t # ts) = fill t # rest_values mt (n + 1) ts"
proof -
  have "length (metrics mt) - n = Suc (length (metrics mt) - (n + 1))" using assms(1) by simp
  then show ?thesis using assms by (auto simp: rest_values_def simp del: diff_Suc)
qed

lemma key_idx_Nil [simp]: "key_idx b mt [] = 0"
  by (cases b) (simp_all add: key_idx_def key_values_def)

lemma parse_content_run:
  assumes mt: "if b then meta_ok ks mt else meta_ok ks' mt"
  shows "list_all plain tokens \<Longrightarrow> length vals \<le> length (metrics mt) \<Longrightarrow>
     parsed b ks mt vals h (vals @ rest_values mt (length vals) tokens)
       (parse_content (Some mt) b (key_idx b mt vals) (of_nat (length vals)) tokens (rec_of b ks mt vals) h)"
proof (induction tokens arbitrary: vals h)
  case Nil
  then show ?case by (simp add: rest_values_def parsed_here)
next
  case (Cons t ts)
  have "length (metrics mt) < 2 ^ 32"
    using mt u32_bound [of "metricsCapacity mt"] by (auto simp: meta_ok_def split: if_splits)
  then have idx: "unat (of_nat (length vals) :: u32) = length vals"
    using Cons.prems(2) by (intro unat_u32) simp
  then have zero: "of_nat (length vals) = (0 :: u32) \<longleftrightarrow> length vals = 0"
  proof -
    have "length vals = 0" if "of_nat (length vals) = (0 :: u32)"
    proof -
      have "unat (of_nat (length vals) :: u32) = 0" unfolding that by simp
      with idx show ?thesis by simp
    qed
    then show ?thesis by auto
  qed
  consider "t = newline" | "t \<noteq> newline" "t = []" "vals = []"
    | "t \<noteq> newline" "t = [] \<longrightarrow> vals \<noteq> []" "length vals = length (metrics mt)"
    | "t \<noteq> newline" "t = [] \<longrightarrow> vals \<noteq> []" "length vals < length (metrics mt)"
    using Cons.prems(2) by fastforce
  then show ?case
  proof cases
    case 1
    with Cons.prems show ?thesis by (simp add: rest_values_def newline_def parsed_here)
  next
    case 2
    then have "rest_values mt (length vals) (t # ts) = rest_values mt (length vals) ts"
      by (simp add: rest_values_def)
    with 2 Cons.IH [of "[]" h] Cons.prems show ?thesis by simp
  next
    case 3
    with Cons.prems idx zero show ?thesis by (auto simp: rest_values_def Let_def parsed_here)
  next
    case 4
    obtain ok h1 where m: "malloc h = (ok, h1)" by force
    note f = fill_metric_spec [OF mt 4(3) plain_fill m, of t]
    have rest: "vals @ rest_values mt (length vals) (t # ts)
        = (vals @ [fill t]) @ rest_values mt (length (vals @ [fill t])) ts"
      using 4 by (subst rest_values_cons) auto
    have n: "of_nat (length vals) + (1 :: u32) = of_nat (length (vals @ [fill t]))" by simp
    have step: "parse_content (Some mt) b (key_idx b mt vals) (of_nat (length vals)) (t # ts) (rec_of b ks mt vals) h
      = bindc (fill_metric mt b (of_nat (length vals)) (key_idx b mt vals) (fill t) (rec_of b ks mt vals) h)
          (\<lambda>(record1, keyIdx1, h1, ret). if ret \<noteq> 0 then Inr (record1, h1, - 1)
             else parse_content (Some mt) b keyIdx1 (of_nat (length vals) + 1) ts record1 h1)"
      using 4 idx zero by (auto simp: Let_def fill_def)
    show ?thesis
    proof (cases ok)
      case True
      have "parsed b ks mt (vals @ [fill t]) h1
          ((vals @ [fill t]) @ rest_values mt (length (vals @ [fill t])) ts)
          (parse_content (Some mt) b (key_idx b mt (vals @ [fill t])) (of_nat (length (vals @ [fill t]))) ts
             (rec_of b ks mt (vals @ [fill t])) h1)"
        using Cons.prems 4(3) by (intro Cons.IH) auto
      with True Cons.prems(1) f m show ?thesis
        unfolding rest step n by (simp add: parsed_step)
    next
      case False
      with Cons.prems f m malloc_live(2) [of h h1] malloc_script [OF _ m] show ?thesis
        unfolding step by (auto simp: parsed_def)
    qed
  qed
qed

lemma split_on_plain: "plain s \<Longrightarrow> list_all plain (split_on d s)"
  by (induction s) (auto simp: plain_def list_all_iff split: list.splits)

lemma rec_of_start:
  "rec_of True ks mt [] = \<lparr>keySize = ks, key = Some (replicate (unat ks) nul), updateTime = 0,
     metricsCapacity = metricsCapacity mt, metrics = []\<rparr>"
  "rec_of False ks mt [] = \<lparr>keySize = 0, key = None, updateTime = 0,
     metricsCapacity = metricsCapacity mt, metrics = []\<rparr>"
  by (simp_all add: rec_of_def key_of_def key_values_def mk_metrics_def)

lemma ParseContent_spec:
  assumes "if b then meta_ok ks mt else meta_ok ks' mt" and "t_meta table = Some mt" and "plain content"
  shows "parsed b ks mt [] h (content_values mt content)
    (IMDB_DataBaseMgrParseContent table (rec_of b ks mt []) content b h)"
proof -
  obtain ok h1 where m: "malloc h = (ok, h1)" by force
  have "parsed b ks mt [] h1 (content_values mt content)
    (parse_content (Some mt) b 0 0 (split_on (CHR ''|'') content) (rec_of b ks mt []) h1)"
    using parse_content_run [OF assms(1) split_on_plain [OF assms(3)], of "[]"]
    by (simp add: rest_values_def content_values_def)
  moreover have "mscript h = [] \<longrightarrow> ok \<and> mscript h1 = []" using malloc_script [OF _ m] by blast
  ultimately show ?thesis
    using m assms(2) malloc_live [of h h1]
    by (auto simp: parsed_def IMDB_DataBaseMgrParseContent_def)
qed

subsection \<open>The table of tables\<close>

lemma find_table_nth:
  "find_table ts i k = Some j \<Longrightarrow> i \<le> j \<and> j - i < length ts \<and> t_name (ts ! (j - i)) = k"
proof (induction ts arbitrary: i)
  case (Cons t ts)
  show ?case
  proof (cases "t_name t = k")
    case False
    with Cons have *: "i + 1 \<le> j \<and> j - (i + 1) < length ts \<and> t_name (ts ! (j - (i + 1))) = k" by simp
    then have "i + 1 \<le> j" by blast
    then have "j - i = Suc (j - (i + 1))" by simp
    then have "(t # ts) ! (j - i) = ts ! (j - (i + 1))" by (metis nth_Cons_Suc)
    with * show ?thesis by auto
  qed (use Cons.prems in simp)
qed simp

lemma find_table_find:
  "map_option (\<lambda>j. ts ! (j - i)) (find_table ts i k) = List.find (\<lambda>t. t_name t = k) ts"
proof (induction ts arbitrary: i)
  case (Cons t ts)
  show ?case
  proof (cases "t_name t = k")
    case False
    have "(t # ts) ! (j - i) = ts ! (j - (i + 1))" if "find_table ts (i + 1) k = Some j" for j
    proof -
      have "i + 1 \<le> j" using find_table_nth [OF that] by blast
      then have "j - i = Suc (j - (i + 1))" by simp
      then show ?thesis by (metis nth_Cons_Suc)
    qed
    with False Cons.IH [of "i + 1"] show ?thesis
      by (cases "find_table ts (i + 1) k") auto
  qed simp
qed simp

definition imdb_look :: "'h IMDB_DataBaseMgr \<Rightarrow> cstr \<Rightarrow> 'h IMDB_Table option" where
  "imdb_look mgr k = map_option (\<lambda>i. tables mgr ! i) (IMDB_DataBaseMgrFindTable mgr k)"

interpretation tbls: unique_registry tables "\<lambda>m. unat (tblsCapability m)"
    "\<lambda>m t. \<not> list_ex (\<lambda>t'. t_name t' = t_name t) (tables m)" IMDB_DataBaseMgrAddTable t_name imdb_look
proof unfold_locales
  show "imdb_look m k = List.find (\<lambda>t. t_name t = k) (tables m)" for m :: "'a IMDB_DataBaseMgr" and k
    using find_table_find [of "tables m" 0 k] by (simp add: imdb_look_def IMDB_DataBaseMgrFindTable_def)
  then show "(\<not> list_ex (\<lambda>t'. t_name t' = t_name t) (tables m)) = (imdb_look m (t_name t) = None)"
    for m :: "'a IMDB_DataBaseMgr" and t
    by (auto simp: find_None_iff list_ex_iff)
qed (auto simp: IMDB_DataBaseMgrAddTable_def)

lemma FindTable_Some:
  "IMDB_DataBaseMgrFindTable mgr k = Some i \<Longrightarrow> i < length (tables mgr) \<and> t_name (tables mgr ! i) = k"
  using find_table_nth [of "tables mgr" 0 k i] by (simp add: IMDB_DataBaseMgrFindTable_def)

subsection \<open>Records of a table\<close>

lemma uthash_laws:
  assumes "uthash_ok uh"
  shows "uh_iter uh (uh_empty uh) = []"
    and "uh_find uh h k = List.find (\<lambda>r. key_bytes r = k) (uh_iter uh h)"
    and "key_bytes r \<notin> key_bytes ` set (uh_iter uh h) \<Longrightarrow> uh_iter uh (uh_add uh h r) = uh_iter uh h @ [r]"
    and "uh_iter uh (uh_del uh h r) = filter (\<lambda>r'. key_bytes r' \<noteq> key_bytes r) (uh_iter uh h)"
    and "uh_count uh h = length (uh_iter uh h)"
  using assms by (simp_all add: uthash_ok_def)

definition stored :: "'h uthash \<Rightarrow> 'h IMDB_Table \<Rightarrow> IMDB_Record list" where
  "stored uh t = uh_iter uh (records t)"

definition others :: "IMDB_Record \<Rightarrow> IMDB_Record list \<Rightarrow> IMDB_Record list" where
  "others r rs = filter (\<lambda>r'. key_bytes r' \<noteq> key_bytes r) rs"

lemma others_cong: "key_bytes r = key_bytes r' \<Longrightarrow> others r rs = others r' rs"
  by (simp add: others_def)

lemma others_absent: "key_bytes r \<notin> key_bytes ` set rs \<Longrightarrow> others r rs = rs"
  by (auto simp: others_def filter_id_conv image_iff)

lemma others_fresh: "key_bytes r \<notin> key_bytes ` set (others r rs)"
  by (auto simp: others_def)

lemma others_distinct: "distinct (map key_bytes rs) \<Longrightarrow> distinct (map key_bytes (others r rs))"
  by (simp add: others_def distinct_map_filter)

lemma others_blocks:
  "distinct (map key_bytes rs) \<Longrightarrow> old \<in> set rs \<Longrightarrow> key_bytes old = key_bytes r \<Longrightarrow>
     sum_list (map rec_blocks (others r rs)) = sum_list (map rec_blocks rs) - rec_blocks old
     \<and> length (others r rs) < length rs"
proof (induction rs)
  case (Cons x rs)
  show ?case
  proof (cases "x = old")
    case True
    with Cons.prems have "key_bytes r \<notin> key_bytes ` set rs" by (simp add: image_iff)
    then have "others r rs = rs" by (rule others_absent)
    with True Cons.prems(3) show ?thesis by (simp add: others_def)
  next
    case False
    with Cons.prems have "old \<in> set rs" by simp
    moreover from this Cons.prems have "key_bytes x \<noteq> key_bytes r" by (auto simp: image_iff)
    ultimately have "old \<in> set rs" "key_bytes x \<noteq> key_bytes r" by simp_all
    with Cons show ?thesis by (simp add: others_def)
  qed
qed simp

lemma key_bytes_time [simp]: "key_bytes (r\<lparr>updateTime := t\<rparr>) = key_bytes r"
  by (simp add: key_bytes_def)

lemma rec_blocks_time [simp]: "rec_blocks (r\<lparr>updateTime := t\<rparr>) = rec_blocks r"
  by (simp add: rec_blocks_def)

lemma TableAddRecord_spec:
  assumes uh: "uthash_ok uh" and d: "distinct (map key_bytes (stored uh t))"
    and le: "length (stored uh t) \<le> unat (recordsCapability t)"
    and add: "IMDB_TableAddRecord uh now t r h = (t', r', h', ret)"
  shows "t'\<lparr>records := records t\<rparr> = t" and "mscript h' = mscript h"
    and "mlive h' - recs_blocks uh (records t') =
      mlive h - recs_blocks uh (records t) - (if ret = 0 then rec_blocks r' else 0)"
    and "ret = 0 \<and> r' = r\<lparr>updateTime := now\<rparr> \<and> stored uh t' = others r (stored uh t) @ [r']
         \<and> length (others r (stored uh t)) < unat (recordsCapability t)
       \<or> ret = - 1 \<and> r' = r \<and> stored uh t' = stored uh t
         \<and> length (others r (stored uh t)) = unat (recordsCapability t)"
proof -
  note laws = uthash_laws [OF uh]
  let ?old = "List.find (\<lambda>x. key_bytes x = key_bytes r) (stored uh t)"
  define recs where "recs = (case ?old of None \<Rightarrow> records t | Some old \<Rightarrow> uh_del uh (records t) old)"
  define h1 where "h1 = (case ?old of None \<Rightarrow> h | Some old \<Rightarrow> IMDB_RecordDestroy (Some old) h)"
  have it: "uh_iter uh recs = others r (stored uh t)
      \<and> mlive h1 - recs_blocks uh recs = mlive h - recs_blocks uh (records t)
      \<and> mscript h1 = mscript h \<and> length (uh_iter uh recs) \<le> length (stored uh t)
      \<and> (length (uh_iter uh recs) = length (stored uh t) \<longrightarrow> recs = records t)"
  proof (cases ?old)
    case None
    then have "others r (stored uh t) = stored uh t"
      by (intro others_absent) (auto simp: find_None_iff)
    with None show ?thesis by (simp add: recs_def h1_def stored_def)
  next
    case (Some old)
    then have old: "old \<in> set (stored uh t)" "key_bytes old = key_bytes r"
      by (auto simp: find_Some_iff)
    have "uh_iter uh recs = others r (stored uh t)"
      using Some old(2) by (simp add: recs_def laws(4) others_def stored_def)
    with Some others_blocks [OF d old] show ?thesis
      by (simp add: h1_def recs_blocks_def stored_def)
  qed
  have n: "unat (of_nat (length (uh_iter uh recs)) :: u32) = length (uh_iter uh recs)"
    using it le u32_bound [of "recordsCapability t"] by (intro unat_u32) linarith
  have full: "HASH_recordCount uh recs \<ge> recordsCapability t \<longleftrightarrow>
      length (uh_iter uh recs) \<ge> unat (recordsCapability t)"
    by (simp add: HASH_recordCount_def laws(5) word_le_nat_alt n)
  have res: "(t', r', h', ret) =
    (if length (uh_iter uh recs) \<ge> unat (recordsCapability t)
     then (t\<lparr>records := recs\<rparr>, r, h1, - 1)
     else (t\<lparr>records := uh_add uh recs (r\<lparr>updateTime := now\<rparr>)\<rparr>, r\<lparr>updateTime := now\<rparr>, h1, 0))"
  proof -
    have "(case ?old of None \<Rightarrow> (records t, h)
        | Some old \<Rightarrow> (HASH_deleteRecord uh (records t) old, IMDB_RecordDestroy (Some old) h)) = (recs, h1)"
      by (simp add: recs_def h1_def HASH_deleteRecord_def split: option.split)
    then have "IMDB_TableAddRecord uh now t r h =
      (if length (uh_iter uh recs) \<ge> unat (recordsCapability t)
       then (t\<lparr>records := recs\<rparr>, r, h1, - 1)
       else (t\<lparr>records := uh_add uh recs (r\<lparr>updateTime := now\<rparr>)\<rparr>, r\<lparr>updateTime := now\<rparr>, h1, 0))"
      unfolding IMDB_TableAddRecord_def HASH_findRecord_def laws(2) stored_def [symmetric]
      using full by (simp add: HASH_addRecord_def IMDB_RecordUpdateTime_def Let_def)
    with add show ?thesis by simp
  qed
  have new: "uh_iter uh (uh_add uh recs (r\<lparr>updateTime := now\<rparr>))
      = others r (stored uh t) @ [r\<lparr>updateTime := now\<rparr>]"
    using laws(3) [of "r\<lparr>updateTime := now\<rparr>" recs] it others_fresh [of r] by simp
  have parts: "uh_iter uh recs = others r (stored uh t)"
      "mlive h1 - recs_blocks uh recs = mlive h - recs_blocks uh (records t)" "mscript h1 = mscript h"
      "length (others r (stored uh t)) \<le> length (stored uh t)"
      "length (others r (stored uh t)) = length (stored uh t) \<Longrightarrow> recs = records t"
    using it by (auto simp: others_def)
  consider (full) "unat (recordsCapability t) \<le> length (others r (stored uh t))"
      "t' = t\<lparr>records := recs\<rparr>" "r' = r" "h' = h1" "ret = - 1"
    | (room) "length (others r (stored uh t)) < unat (recordsCapability t)"
      "t' = t\<lparr>records := uh_add uh recs (r\<lparr>updateTime := now\<rparr>)\<rparr>" "r' = r\<lparr>updateTime := now\<rparr>"
      "h' = h1" "ret = 0"
    using res unfolding parts(1) by (cases "unat (recordsCapability t) \<le> length (others r (stored uh t))") auto
  then have "t'\<lparr>records := records t\<rparr> = t \<and> mscript h' = mscript h
      \<and> mlive h' - recs_blocks uh (records t') =
          mlive h - recs_blocks uh (records t) - (if ret = 0 then rec_blocks r' else 0)
      \<and> (ret = 0 \<and> r' = r\<lparr>updateTime := now\<rparr> \<and> stored uh t' = others r (stored uh t) @ [r']
           \<and> length (others r (stored uh t)) < unat (recordsCapability t)
         \<or> ret = - 1 \<and> r' = r \<and> stored uh t' = stored uh t
           \<and> length (others r (stored uh t)) = unat (recordsCapability t))"
  proof cases
    case full
    with le parts(4) have eq: "length (others r (stored uh t)) = length (stored uh t)"
        "length (others r (stored uh t)) = unat (recordsCapability t)" by simp_all
    from full parts(2,3) parts(5) [OF eq(1)] eq show ?thesis by (simp add: stored_def)
  next
    case room
    have "recs_blocks uh (uh_add uh recs (r\<lparr>updateTime := now\<rparr>)) = recs_blocks uh recs + rec_blocks r"
      by (simp add: recs_blocks_def new parts(1))
    with room parts(2,3) new show ?thesis by (simp add: stored_def)
  qed
  then show "t'\<lparr>records := records t\<rparr> = t" "mscript h' = mscript h"
    "mlive h' - recs_blocks uh (records t') =
      mlive h - recs_blocks uh (records t) - (if ret = 0 then rec_blocks r' else 0)"
    "ret = 0 \<and> r' = r\<lparr>updateTime := now\<rparr> \<and> stored uh t' = others r (stored uh t) @ [r']
         \<and> length (others r (stored uh t)) < unat (recordsCapability t)
       \<or> ret = - 1 \<and> r' = r \<and> stored uh t' = stored uh t
         \<and> length (others r (stored uh t)) = unat (recordsCapability t)"
    by blast+
qed

subsection \<open>Adding a record to a table\<close>

text \<open>The invariant of a table: it is described, its keys are distinct, it is within its bound, and
  every record holds values for a part of the metrics with the key that belongs to them.\<close>

definition rec_ok :: "u32 \<Rightarrow> IMDB_Record \<Rightarrow> IMDB_Record \<Rightarrow> bool" where
  "rec_ok ks mt r \<longleftrightarrow> (\<exists>vals tm. length vals \<le> length (metrics mt)
     \<and> r = (rec_of True ks mt vals)\<lparr>updateTime := tm\<rparr>)"

definition table_ok :: "'h uthash \<Rightarrow> 'h IMDB_Table \<Rightarrow> bool" where
  "table_ok uh t \<longleftrightarrow> (\<exists>mt. t_meta t = Some mt \<and> meta_ok (recordKeySize t) mt
      \<and> (\<forall>r \<in> set (stored uh t). rec_ok (recordKeySize t) mt r))
     \<and> distinct (map key_bytes (stored uh t))
     \<and> length (stored uh t) \<le> unat (recordsCapability t)"

definition mgr_ok :: "'h uthash \<Rightarrow> 'h IMDB_DataBaseMgr \<Rightarrow> bool" where
  "mgr_ok uh mgr \<longleftrightarrow> (\<forall>t \<in> set (tables mgr). table_ok uh t)
     \<and> distinct (map t_name (tables mgr)) \<and> length (tables mgr) \<le> unat (tblsCapability mgr)"

text \<open>The outcome of adding the values \<open>vals\<close> to a table.\<close>

definition new_record :: "int \<Rightarrow> 'h IMDB_Table \<Rightarrow> cstr list \<Rightarrow> IMDB_Record" where
  "new_record now t vals =
     (rec_of True (recordKeySize t) (the (t_meta t)) vals)\<lparr>updateTime := now\<rparr>"

definition added :: "'h uthash \<Rightarrow> int \<Rightarrow> 'h IMDB_Table \<Rightarrow> cstr list \<Rightarrow> 'h IMDB_Table \<Rightarrow> bool" where
  "added uh now t vals t' \<longleftrightarrow> t'\<lparr>records := records t\<rparr> = t
     \<and> stored uh t' = others (new_record now t vals) (stored uh t) @ [new_record now t vals]"

lemma table_ok_cong:
  "t'\<lparr>records := records t\<rparr> = t \<Longrightarrow> t_meta t' = t_meta t \<and> recordKeySize t' = recordKeySize t
     \<and> recordsCapability t' = recordsCapability t \<and> t_name t' = t_name t"
  by (metis IMDB_Table.select_convs(1-4) IMDB_Table.surjective IMDB_Table.update_convs(5))

lemma TableAddRecord_vals:
  assumes uh: "uthash_ok uh" and t: "table_ok uh t" and mt: "t_meta t = Some mt"
    and v: "length vals \<le> length (metrics mt)"
    and add: "IMDB_TableAddRecord uh now t (rec_of True (recordKeySize t) mt vals) h = (t', r', h', ret)"
  shows "table_ok uh t'" and "mscript h' = mscript h" and "t_name t' = t_name t"
    and "ret = 0 \<and> added uh now t vals t' \<and> r' = new_record now t vals
         \<and> mlive h' - table_blocks uh t' = mlive h - table_blocks uh t - rec_blocks r'
       \<or> ret = - 1 \<and> stored uh t' = stored uh t \<and> t'\<lparr>records := records t\<rparr> = t
         \<and> r' = rec_of True (recordKeySize t) mt vals
         \<and> mlive h' - table_blocks uh t' = mlive h - table_blocks uh t
         \<and> length (others (new_record now t vals) (stored uh t)) = unat (recordsCapability t)"
proof -
  let ?r = "rec_of True (recordKeySize t) mt vals"
  from t have d: "distinct (map key_bytes (stored uh t))"
    and le: "length (stored uh t) \<le> unat (recordsCapability t)" by (auto simp: table_ok_def)
  note spec = TableAddRecord_spec [OF uh d le add]
  note cong = table_ok_cong [OF spec(1)]
  have nr: "new_record now t vals = ?r\<lparr>updateTime := now\<rparr>" by (simp add: new_record_def mt)
  have ot: "others ?r (stored uh t) = others (new_record now t vals) (stored uh t)"
    by (rule others_cong) (simp add: nr)
  have fresh: "key_bytes (new_record now t vals) \<notin> key_bytes ` set (others (new_record now t vals) (stored uh t))"
    by (rule others_fresh)
  have sub: "set (others (new_record now t vals) (stored uh t)) \<subseteq> set (stored uh t)"
    by (auto simp: others_def)
  have new_ok: "rec_ok (recordKeySize t) mt (new_record now t vals)"
    using v nr by (auto simp: rec_ok_def)
  have blocks: "table_blocks uh t' - recs_blocks uh (records t') = table_blocks uh t - recs_blocks uh (records t)"
    using cong by (simp add: table_blocks_def)
  show "mscript h' = mscript h" by (rule spec(2))
  show "t_name t' = t_name t" using cong by simp
  show "table_ok uh t'"
    using spec(4) cong t mt new_ok sub fresh d others_distinct [OF d, of "new_record now t vals"]
    unfolding table_ok_def ot nr [symmetric] by (elim disjE) auto
  show "ret = 0 \<and> added uh now t vals t' \<and> r' = new_record now t vals
         \<and> mlive h' - table_blocks uh t' = mlive h - table_blocks uh t - rec_blocks r'
       \<or> ret = - 1 \<and> stored uh t' = stored uh t \<and> t'\<lparr>records := records t\<rparr> = t \<and> r' = ?r
         \<and> mlive h' - table_blocks uh t' = mlive h - table_blocks uh t
         \<and> length (others (new_record now t vals) (stored uh t)) = unat (recordsCapability t)"
    using spec blocks unfolding added_def ot nr by (elim disjE) auto
qed

lemma sum_list_int_update: "k < length xs \<Longrightarrow> sum_list (xs[k := x]) = sum_list xs - xs ! k + (x :: int)"
  by (induction xs arbitrary: k) (auto split: nat.split)

lemma set_table_blocks:
  "ti < length (tables mgr) \<Longrightarrow>
     mgr_blocks uh (set_table mgr ti t) = mgr_blocks uh mgr - table_blocks uh (tables mgr ! ti) + table_blocks uh t"
  by (simp add: mgr_blocks_def set_table_def map_update sum_list_int_update)

lemma set_table_ok:
  assumes "mgr_ok uh mgr" "ti < length (tables mgr)" "table_ok uh t" "t_name t = t_name (tables mgr ! ti)"
  shows "mgr_ok uh (set_table mgr ti t)"
proof -
  have "map t_name ((tables mgr)[ti := t]) = map t_name (tables mgr)"
    using assms(2,4) by (simp add: map_update list_update_same_conv)
  with assms show ?thesis
    by (auto simp: mgr_ok_def set_table_def dest: subsetD [OF set_update_subset_insert])
qed

lemma lock_simps [simp]:
  "tables (wrlock m) = tables m" "tables (unlock m) = tables m" "tables (rdlock m) = tables m"
  "rwlock (unlock m) = Unlocked" "mgr_blocks uh (wrlock m) = mgr_blocks uh m"
  "mgr_blocks uh (unlock m) = mgr_blocks uh m" "mgr_ok uh (wrlock m) = mgr_ok uh m"
  "mgr_ok uh (unlock m) = mgr_ok uh m" "nodeInfo (unlock m) = nodeInfo m" "nodeInfo (wrlock m) = nodeInfo m"
  "tables (set_table m i t) = (tables m)[i := t]"
  "unlock (set_table (wrlock m) i t) = unlock (set_table m i t)" "unlock (wrlock m) = unlock m"
  by (simp_all add: wrlock_def unlock_def rdlock_def mgr_blocks_def mgr_ok_def set_table_def)

text \<open>What \<open>IMDB_DataBaseMgrCreateRec\<close> can do: nothing, or add the values of the content.\<close>

definition created :: "'h uthash \<Rightarrow> int \<Rightarrow> 'h IMDB_DataBaseMgr \<Rightarrow> nat \<Rightarrow> cstr list
    \<Rightarrow> 'h IMDB_DataBaseMgr \<Rightarrow> IMDB_Record option \<Rightarrow> bool" where
  "created uh now mgr ti vals mgr' res \<longleftrightarrow>
     (\<exists>t'. mgr' = unlock (set_table mgr ti t') \<and> t_name t' = t_name (tables mgr ! ti) \<and> table_ok uh t'
        \<and> (res = None \<and> stored uh t' = stored uh (tables mgr ! ti)
             \<and> t'\<lparr>records := records (tables mgr ! ti)\<rparr> = tables mgr ! ti
           \<or> res = Some (new_record now (tables mgr ! ti) vals) \<and> added uh now (tables mgr ! ti) vals t'))"

lemma set_table_same [simp]: "set_table mgr ti (tables mgr ! ti) = mgr"
  by (simp add: set_table_def)

lemma CreateRec_lemma:
  assumes uh: "uthash_ok uh" and ok: "mgr_ok uh mgr" and ti: "ti < length (tables mgr)"
    and pl: "plain content"
  shows "\<exists>mgr' res h'. IMDB_DataBaseMgrCreateRec uh now mgr ti content h = Inr (mgr', res, h')
     \<and> created uh now mgr ti (content_values (the (t_meta (tables mgr ! ti))) content) mgr' res
     \<and> mlive h' - mgr_blocks uh mgr' = mlive h - mgr_blocks uh mgr
     \<and> (mscript h = [] \<longrightarrow> mscript h' = [] \<and> (recordKeySize (tables mgr ! ti) \<noteq> 0
          \<and> length (others (new_record now (tables mgr ! ti)
               (content_values (the (t_meta (tables mgr ! ti))) content)) (stored uh (tables mgr ! ti)))
             < unat (recordsCapability (tables mgr ! ti)) \<longrightarrow> res \<noteq> None))"
proof -
  define t where "t = tables mgr ! ti"
  have tok: "table_ok uh t" using ok ti by (simp add: mgr_ok_def t_def)
  then obtain mt where mt: "t_meta t = Some mt" "meta_ok (recordKeySize t) mt"
    by (auto simp: table_ok_def)
  define ks where "ks = recordKeySize t"
  define vals where "vals = content_values mt content"
  have idle: "created uh now mgr ti vals (unlock mgr) None"
    unfolding created_def using tok by (intro exI [of _ t]) (simp add: t_def)
  obtain res1 h1 where rc: "IMDB_RecordCreateWithKey (metricsCapacity mt) ks h = (res1, h1)" by force
  note create = RecordCreateWithKey_cases [OF rc]
  have goal: "\<exists>mgr' res h'. IMDB_DataBaseMgrCreateRec uh now mgr ti content h = Inr (mgr', res, h')
     \<and> created uh now mgr ti vals mgr' res
     \<and> mlive h' - mgr_blocks uh mgr' = mlive h - mgr_blocks uh mgr
     \<and> (mscript h = [] \<longrightarrow> mscript h' = [] \<and> (ks \<noteq> 0
          \<and> length (others (new_record now t vals) (stored uh t)) < unat (recordsCapability t) \<longrightarrow> res \<noteq> None))"
  proof (cases res1)
    case None
    have cap: "metricsCapacity mt \<noteq> 0" if "ks \<noteq> 0"
    proof -
      have "metrics mt \<noteq> []" using that mt(2) by (auto simp: meta_ok_def ks_def unat_eq_0)
      with mt(2) show ?thesis by (auto simp: meta_ok_def)
    qed
    have run: "IMDB_DataBaseMgrCreateRec uh now mgr ti content h = Inr (unlock mgr, None, h1)"
      using None rc mt by (simp add: IMDB_DataBaseMgrCreateRec_def t_def [symmetric] ks_def)
    have "mlive h1 = mlive h" "mscript h = [] \<Longrightarrow> mscript h1 = [] \<and> ks = 0" using create cap None by auto
    with run show ?thesis
      by (intro exI [of _ "unlock mgr"] exI [of _ None] exI [of _ h1] conjI idle) auto
  next
    case (Some r)
    then have r: "r = rec_of True ks mt []" using create(2) by (simp add: rec_of_start)
    have "if True then meta_ok ks mt else meta_ok ks mt" using mt(2) by (simp add: ks_def)
    from ParseContent_spec [OF this mt(1) pl, of h1] obtain vals' h2 ret where
      pc: "IMDB_DataBaseMgrParseContent t (rec_of True ks mt []) content True h1
             = Inr (rec_of True ks mt vals', h2, ret)"
        "length vals' \<le> length (metrics mt)" "mlive h2 = mlive h1 + int (length vals')"
        "ret = 0 \<and> vals' = vals \<or> ret = - 1" "mscript h1 = [] \<longrightarrow> ret = 0 \<and> mscript h2 = []"
      by (auto simp: parsed_def vals_def)
    have h1: "mlive h1 = mlive h + 3" using create(1) Some r by simp
    show ?thesis
    proof (cases "ret = 0")
      case False
      with Some rc mt pc h1 r idle create(3) show ?thesis
        by (auto simp: IMDB_DataBaseMgrCreateRec_def t_def [symmetric] ks_def)
    next
      case True
      then have v: "vals' = vals" using pc(4) by auto
      obtain t' r' h3 ret2 where add: "IMDB_TableAddRecord uh now t (rec_of True ks mt vals) h2 = (t', r', h3, ret2)"
        using prod_cases4 by blast
      note spec = TableAddRecord_vals [OF uh tok mt(1) pc(2) [unfolded v] add [unfolded ks_def]]
      have run: "IMDB_DataBaseMgrCreateRec uh now mgr ti content h =
          Inr (if ret2 \<noteq> 0 then (unlock (set_table mgr ti t'), None, IMDB_RecordDestroy (Some r') h3)
               else (unlock (set_table mgr ti t'), Some r', h3))"
        using Some rc mt pc True v add r by (simp add: IMDB_DataBaseMgrCreateRec_def t_def [symmetric] ks_def)
      from spec(4) show ?thesis
      proof (elim disjE conjE)
        assume 0: "ret2 = 0" "added uh now t vals t'" "r' = new_record now t vals"
          "mlive h3 - table_blocks uh t' = mlive h2 - table_blocks uh t - rec_blocks r'"
        have "created uh now mgr ti vals (unlock (set_table mgr ti t')) (Some r')"
          unfolding created_def t_def [symmetric] using spec(1,3) 0 by blast
        moreover have "rec_blocks r' = 3 + int (length vals)"
          using 0(3) mt pc(2) v by (simp add: new_record_def)
        ultimately show ?thesis
          using run 0 pc(3,5) h1 v ti spec(2) create(3) by (simp add: set_table_blocks t_def [symmetric])
      next
        assume 1: "ret2 = - 1" "stored uh t' = stored uh t" "t'\<lparr>records := records t\<rparr> = t"
          "r' = rec_of True (recordKeySize t) mt vals"
          "mlive h3 - table_blocks uh t' = mlive h2 - table_blocks uh t"
          "length (others (new_record now t vals) (stored uh t)) = unat (recordsCapability t)"
        have "created uh now mgr ti vals (unlock (set_table mgr ti t')) None"
          unfolding created_def t_def [symmetric] using spec(1,3) 1 by blast
        moreover have "rec_blocks r' = 3 + int (length vals)"
          using 1(4) pc(2) v by simp
        ultimately show ?thesis
          using run 1 pc(3,5) h1 v ti spec(2) create(3) by (simp add: set_table_blocks t_def [symmetric])
      qed
    qed
  qed
  then show ?thesis using mt(1) by (simp add: vals_def ks_def t_def)
qed

subsection \<open>Adding a whole record string\<close>

text \<open>The content of a record string as the ingress thread passes it on.\<close>

definition content_of :: "cstr list \<Rightarrow> cstr" where
  "content_of vals = CHR ''|'' # join (CHR ''|'') (vals @ [newline])"

definition clean_vals :: "cstr list \<Rightarrow> bool" where
  "clean_vals vals \<longleftrightarrow> (\<forall>v \<in> set vals. plain v \<and> CHR ''|'' \<notin> set v \<and> v \<noteq> newline)"

lemma join_cons: "ts \<noteq> [] \<Longrightarrow> join d (t # ts) = t @ d # join d ts"
  by (cases ts) simp_all

lemma split_content: "clean_vals vals \<Longrightarrow> split_on (CHR ''|'') (content_of vals) = [] # vals @ [newline]"
  by (auto simp: content_of_def clean_vals_def newline_def intro!: split_on_join)

lemma plain_join: "(\<And>t. t \<in> set ts \<Longrightarrow> plain t) \<Longrightarrow> d \<noteq> CHR ''%'' \<Longrightarrow> plain (join d ts)"
  by (induction d ts rule: join.induct) (auto simp: plain_def)

lemma plain_content: "clean_vals vals \<Longrightarrow> plain (content_of vals)"
proof -
  assume "clean_vals vals"
  then have "plain (join (CHR ''|'') (vals @ [newline]))"
    by (intro plain_join) (auto simp: clean_vals_def newline_def plain_def)
  then show ?thesis by (simp add: content_of_def plain_def)
qed

lemma content_values_of:
  assumes "clean_vals vals"
  shows "content_values mt (content_of vals) =
    take (length (metrics mt)) (map fill (dropWhile (\<lambda>t. t = []) vals))"
proof -
  have ne: "newline \<noteq> []" by (simp add: newline_def)
  have dw: "dropWhile (\<lambda>t. t = []) (vs @ [newline]) = dropWhile (\<lambda>t. t = []) vs @ [newline]" for vs
    using ne by (induction vs) auto
  have "\<forall>v \<in> set (dropWhile (\<lambda>t. t = []) vals). v \<noteq> newline"
    using assms by (auto simp: clean_vals_def dest: set_dropWhileD)
  then have "takeWhile (\<lambda>t. t \<noteq> newline) (dropWhile (\<lambda>t. t = []) (vals @ [newline])) = dropWhile (\<lambda>t. t = []) vals"
    unfolding dw by (subst takeWhile_append2) auto
  then show ?thesis unfolding content_values_def split_content [OF assms] by simp
qed

lemma fields_as_content:
  assumes "length (metrics meta) < 2 ^ 32" "newline \<notin> set vs" "index = 0 \<longrightarrow> vs = [] \<or> hd vs \<noteq> []"
  shows "add_record_fields meta keyIdx index (vs @ [newline]) r h
    = parse_content (Some meta) True keyIdx index (vs @ [newline]) r h"
  using assms(2,3)
proof (induction vs arbitrary: keyIdx index r h)
  case (Cons v vs)
  have nl: "v \<noteq> newline" and c: "\<not> (v = [] \<and> index = 0)" using Cons.prems by auto
  show ?case
  proof (cases "length (metrics meta) \<le> unat index")
    case True
    then show ?thesis using nl c by (auto simp: Let_def)
  next
    case False
    have "index + 1 \<noteq> 0"
    proof
      assume "index + 1 = 0"
      then have "unat index = 2 ^ 32 - 1" by (simp add: add_eq_0_iff2)
      with False assms(1) show False by simp
    qed
    with Cons have IH: "add_record_fields meta k (index + 1) (vs @ [newline]) r' h'
        = parse_content (Some meta) True k (index + 1) (vs @ [newline]) r' h'" for k r' h' by simp
    show ?thesis using nl c False by (auto simp: Let_def IH cong: if_cong)
  qed
qed simp

text \<open>The table a record string names.\<close>

lemma add_record_head_finds:
  assumes "tbl \<noteq> []" "tbl \<noteq> newline" "IMDB_DataBaseMgrFindTable mgr tbl = Some ti"
    and "recordKeySize (tables mgr ! ti) \<noteq> 0" "t_meta (tables mgr ! ti) = Some mt"
    and "metricsCapacity mt \<noteq> 0" "mscript h = []"
  shows "add_record_head mgr ([] # tbl # tokens) h
    = Inr (Some (ti, rec_of True (recordKeySize (tables mgr ! ti)) mt [], tokens), h\<lparr>mlive := mlive h + 3\<rparr>, 0)"
proof -
  obtain res h1 where c: "IMDB_RecordCreateWithKey (metricsCapacity mt) (recordKeySize (tables mgr ! ti)) h = (res, h1)"
    by force
  with RecordCreateWithKey_cases [OF c] assms have
    "res = Some (rec_of True (recordKeySize (tables mgr ! ti)) mt [])" "mlive h1 = mlive h + 3" "mscript h1 = []"
    by (auto simp: rec_of_start rec_blocks_def)
  moreover from this have "h1 = h\<lparr>mlive := mlive h + 3\<rparr>" using assms(7) by simp
  ultimately show ?thesis using assms c by simp
qed

lemma TableAddRecord_heap:
  "IMDB_TableAddRecord uh now t r h = (t', r', h', ret) \<Longrightarrow>
     \<exists>g'. IMDB_TableAddRecord uh now t r g = (t', r', g', ret)"
  by (auto simp: IMDB_TableAddRecord_def Let_def split: option.splits if_splits)

lemma AddRecord_run:
  assumes uh: "uthash_ok uh" and ok: "mgr_ok uh mgr" and h: "mscript h = []"
    and tbl: "tbl \<noteq> []" "tbl \<noteq> newline" "CHR ''|'' \<notin> set tbl" "IMDB_DataBaseMgrFindTable mgr tbl = Some ti"
    and ks: "recordKeySize (tables mgr ! ti) \<noteq> 0"
    and vals: "clean_vals vals" "vals = [] \<or> hd vals \<noteq> []"
    and mt: "t_meta (tables mgr ! ti) = Some mt"
    and add: "IMDB_TableAddRecord uh now (tables mgr ! ti)
       (rec_of True (recordKeySize (tables mgr ! ti)) mt (content_values mt (content_of vals))) g = (t', r', g', ret)"
  shows "\<exists>h'. IMDB_DataBaseMgrAddRecord uh now mgr (CHR ''|'' # tbl @ content_of vals) h
      = Inr (unlock (set_table mgr ti t'), h', ret) \<and> mlive h' - mgr_blocks uh (set_table mgr ti t') = mlive h - mgr_blocks uh mgr"
proof -
  define t where "t = tables mgr ! ti"
  have ti: "ti < length (tables mgr)" using FindTable_Some [OF tbl(4)] by simp
  have tok: "table_ok uh t" using ok ti by (simp add: mgr_ok_def t_def)
  have m: "meta_ok (recordKeySize t) mt" using tok mt by (auto simp: table_ok_def t_def)
  let ?vs = "content_values mt (content_of vals)"
  have toks: "split_on (CHR ''|'') (CHR ''|'' # tbl @ content_of vals) = [] # tbl # vals @ [newline]"
    using split_content [OF vals(1)] tbl(3) by (simp add: content_of_def str_simps)
  have cap: "metricsCapacity mt \<noteq> 0"
  proof -
    have "metrics mt \<noteq> []" using ks m by (auto simp: meta_ok_def unat_eq_0 t_def)
    with m show ?thesis by (auto simp: meta_ok_def)
  qed
  define h2 where "h2 = h\<lparr>mlive := mlive h + 4\<rparr>"
  have head: "add_record_head (wrlock mgr) ([] # tbl # vals @ [newline]) (h\<lparr>mlive := mlive h + 1\<rparr>)
    = Inr (Some (ti, rec_of True (recordKeySize t) mt [], vals @ [newline]), h2, 0)"
    using add_record_head_finds [of tbl "wrlock mgr" ti mt "h\<lparr>mlive := mlive h + 1\<rparr>"] tbl ks mt cap h
    by (simp add: IMDB_DataBaseMgrFindTable_def t_def h2_def)
  have len: "length (metrics mt) < 2 ^ 32"
    using m u32_bound [of "metricsCapacity mt"] by (simp add: meta_ok_def)
  have "newline \<notin> set vals" using vals(1) by (auto simp: clean_vals_def)
  then have fc: "add_record_fields mt 0 0 (vals @ [newline]) (rec_of True (recordKeySize t) mt []) h2
     = parse_content (Some mt) True 0 0 (vals @ [newline]) (rec_of True (recordKeySize t) mt []) h2"
    using vals(2) by (intro fields_as_content [OF len]) auto
  have pl: "list_all plain (vals @ [newline])"
    using vals(1) by (auto simp: clean_vals_def list_all_iff newline_def plain_def)
  have goal: "rest_values mt 0 (vals @ [newline]) = ?vs"
    unfolding content_values_def split_content [OF vals(1)] by (simp add: rest_values_def)
  have "if True then meta_ok (recordKeySize t) mt else meta_ok 0 mt" using m by simp
  from parse_content_run [OF this pl, of "[]" h2] goal
  have "parsed True (recordKeySize t) mt [] h2 ?vs
     (add_record_fields mt 0 0 (vals @ [newline]) (rec_of True (recordKeySize t) mt []) h2)"
    by (simp add: fc)
  then obtain h3 where f: "add_record_fields mt 0 0 (vals @ [newline]) (rec_of True (recordKeySize t) mt []) h2
      = Inr (rec_of True (recordKeySize t) mt ?vs, h3, 0)" "length ?vs \<le> length (metrics mt)"
      "mlive h3 = mlive h2 + int (length ?vs)"
    using h by (auto simp: parsed_def h2_def)
  from TableAddRecord_heap [OF add] obtain g3 where
    add3: "IMDB_TableAddRecord uh now t (rec_of True (recordKeySize t) mt ?vs) h3 = (t', r', g3, ret)"
    unfolding t_def by blast
  note spec = TableAddRecord_vals [OF uh tok mt [folded t_def] f(2) add3]
  have run: "IMDB_DataBaseMgrAddRecord uh now mgr (CHR ''|'' # tbl @ content_of vals) h
    = Inr (if ret \<noteq> 0 then (unlock (set_table mgr ti t'), IMDB_RecordDestroy (Some r') (free g3), - 1)
           else (unlock (set_table mgr ti t'), free g3, 0))"
    unfolding IMDB_DataBaseMgrAddRecord_def toks Let_def
    using h mt f add3 head by (simp add: t_def)
  from spec(4) show ?thesis
  proof (elim disjE conjE)
    assume "ret = 0" "r' = new_record now t ?vs"
      "mlive g3 - table_blocks uh t' = mlive h3 - table_blocks uh t - rec_blocks r'"
    with run f h2_def ti mt show ?thesis
      by (simp add: set_table_blocks new_record_def t_def)
  next
    assume "ret = - 1" "r' = rec_of True (recordKeySize t) mt ?vs"
      "mlive g3 - table_blocks uh t' = mlive h3 - table_blocks uh t"
    with run f h2_def ti mt show ?thesis
      by (simp add: set_table_blocks t_def)
  qed
qed

text \<open>The run of \<open>IMDB_DataBaseMgrCreateRec\<close> when allocation works.\<close>

lemma CreateRec_run:
  assumes uh: "uthash_ok uh" and ok: "mgr_ok uh mgr" and ti: "ti < length (tables mgr)"
    and pl: "plain content" and mt: "t_meta (tables mgr ! ti) = Some mt" and h: "mscript h = []"
    and ks: "recordKeySize (tables mgr ! ti) \<noteq> 0"
  shows "\<exists>g t' r' g' ret h'.
      IMDB_TableAddRecord uh now (tables mgr ! ti)
        (rec_of True (recordKeySize (tables mgr ! ti)) mt (content_values mt content)) g = (t', r', g', ret)
      \<and> IMDB_DataBaseMgrCreateRec uh now mgr ti content h
         = Inr (unlock (set_table mgr ti t'), if ret \<noteq> 0 then None else Some r', h')
      \<and> mlive h' - mgr_blocks uh (set_table mgr ti t') = mlive h - mgr_blocks uh mgr
      \<and> (ret = 0 \<or> ret = - 1)"
proof -
  define t where "t = tables mgr ! ti"
  have tok: "table_ok uh t" using ok ti by (simp add: mgr_ok_def t_def)
  have m: "meta_ok (recordKeySize t) mt" using tok mt by (auto simp: table_ok_def t_def)
  have cap: "metricsCapacity mt \<noteq> 0"
  proof -
    have "metrics mt \<noteq> []" using ks m by (auto simp: meta_ok_def unat_eq_0 t_def)
    with m show ?thesis by (auto simp: meta_ok_def)
  qed
  obtain res1 h1 where rc: "IMDB_RecordCreateWithKey (metricsCapacity mt) (recordKeySize t) h = (res1, h1)" by force
  with RecordCreateWithKey_cases [OF rc] cap ks h have
    c: "res1 = Some (rec_of True (recordKeySize t) mt [])" "mlive h1 = mlive h + 3" "mscript h1 = []"
    by (auto simp: rec_of_start rec_blocks_def t_def)
  have "if True then meta_ok (recordKeySize t) mt else meta_ok (recordKeySize t) mt" using m by simp
  from ParseContent_spec [OF this mt [folded t_def] pl, of h1] c(3) obtain h2 where
    pc: "IMDB_DataBaseMgrParseContent t (rec_of True (recordKeySize t) mt []) content True h1
           = Inr (rec_of True (recordKeySize t) mt (content_values mt content), h2, 0)"
      "length (content_values mt content) \<le> length (metrics mt)"
      "mlive h2 = mlive h1 + int (length (content_values mt content))"
    by (auto simp: parsed_def)
  obtain t' r' h3 ret where
    add: "IMDB_TableAddRecord uh now t (rec_of True (recordKeySize t) mt (content_values mt content)) h2 = (t', r', h3, ret)"
    using prod_cases4 by blast
  note spec = TableAddRecord_vals [OF uh tok mt [folded t_def] pc(2) add]
  have run: "IMDB_DataBaseMgrCreateRec uh now mgr ti content h =
      Inr (if ret \<noteq> 0 then (unlock (set_table mgr ti t'), None, IMDB_RecordDestroy (Some r') h3)
           else (unlock (set_table mgr ti t'), Some r', h3))"
    using c rc mt pc add by (simp add: IMDB_DataBaseMgrCreateRec_def t_def [symmetric])
  define h' where "h' = (if ret \<noteq> 0 then IMDB_RecordDestroy (Some r') h3 else h3)"
  have "mlive h' - mgr_blocks uh (set_table mgr ti t') = mlive h - mgr_blocks uh mgr \<and> (ret = 0 \<or> ret = - 1)"
    using spec(4)
  proof (elim disjE conjE)
    assume "ret = 0" "r' = new_record now t (content_values mt content)"
      "mlive h3 - table_blocks uh t' = mlive h2 - table_blocks uh t - rec_blocks r'"
    with pc c ti mt show ?thesis
      by (simp add: set_table_blocks new_record_def t_def [symmetric] h'_def)
  next
    assume "ret = - 1" "r' = rec_of True (recordKeySize t) mt (content_values mt content)"
      "mlive h3 - table_blocks uh t' = mlive h2 - table_blocks uh t"
    with pc c ti show ?thesis by (simp add: set_table_blocks t_def [symmetric] h'_def)
  qed
  moreover have "IMDB_DataBaseMgrCreateRec uh now mgr ti content h
      = Inr (unlock (set_table mgr ti t'), if ret \<noteq> 0 then None else Some r', h')"
    using run by (simp add: h'_def)
  ultimately show ?thesis using add unfolding t_def by blast
qed

text \<open>A record string in which nothing names a table.\<close>

lemma AddRecord_null:
  assumes "mscript h = []" "\<forall>token \<in> set (split_on (CHR ''|'') s). token = [] \<or> token = newline"
  shows "IMDB_DataBaseMgrAddRecord uh now mgr s h = Inl NullDeref"
proof -
  have "add_record_head m ts h = Inr (None, h, 0)"
    if "\<forall>token \<in> set ts. token = [] \<or> token = newline" for m :: "'a IMDB_DataBaseMgr" and ts and h
    using that by (induction ts) auto
  with assms show ?thesis by (simp add: IMDB_DataBaseMgrAddRecord_def Let_def)
qed

text \<open>A table as a map from keys to values, and a sequence of additions to it.\<close>

definition rows :: "'h uthash \<Rightarrow> 'h IMDB_Table \<Rightarrow> char list \<Rightarrow> cstr list option" where
  "rows uh t = map_of (map (\<lambda>r. (key_bytes r, map m_val (metrics r))) (stored uh t))"

definition put_row :: "u32 \<Rightarrow> IMDB_Record \<Rightarrow> (char list \<Rightarrow> cstr list option) \<Rightarrow> cstr
    \<Rightarrow> char list \<Rightarrow> cstr list option" where
  "put_row ks mt m content =
     m(key_of (unat ks) (key_values mt (content_values mt content))
         \<mapsto> map (take 511) (content_values mt content))"

definition create_all :: "'h uthash \<Rightarrow> int \<Rightarrow> nat \<Rightarrow> cstr list \<Rightarrow> 'h IMDB_DataBaseMgr \<times> heap
    \<Rightarrow> ('h IMDB_DataBaseMgr \<times> heap) c" where
  "create_all uh now ti =
     foldc (\<lambda>content (mgr, h). bindc (IMDB_DataBaseMgrCreateRec uh now mgr ti content h)
       (\<lambda>(mgr', _, h'). Inr (mgr', h')))"

lemma vals_mk: "length vs \<le> length (metrics mt) \<Longrightarrow> map m_val (mk_metrics mt vs) = map (take 511) vs"
proof (induction vs rule: rev_induct)
  case Nil
  then show ?case by (simp add: mk_metrics_def)
next
  case (snoc v vs)
  then show ?case by (simp add: mk_metrics_snoc)
qed

lemma added_rows:
  assumes "added uh now t vs t'" "t_meta t = Some mt" "length vs \<le> length (metrics mt)"
  shows "rows uh t' = (rows uh t)(key_of (unat (recordKeySize t)) (key_values mt vs) \<mapsto> map (take 511) vs)"
proof -
  let ?f = "\<lambda>r. (key_bytes r, map m_val (metrics r))"
  let ?r = "new_record now t vs"
  have key: "key_bytes ?r = key_of (unat (recordKeySize t)) (key_values mt vs)"
    and val: "map m_val (metrics ?r) = map (take 511) vs"
    using assms(2,3) by (simp_all add: new_record_def rec_of_def key_bytes_def vals_mk)
  have old: "map_of (map ?f (others ?r rs) @ [(key_bytes ?r, v)]) = (map_of (map ?f rs))(key_bytes ?r \<mapsto> v)" for rs v
    by (induction rs) (auto simp: others_def fun_upd_twist)
  show ?thesis
    using assms(1) old [of "stored uh t"] unfolding rows_def added_def by (simp add: key val)
qed

subsection \<open>An example database\<close>

lemma CreateRec_stored:
  assumes "uthash_ok uh" "mgr_ok uh mgr" "ti < length (tables mgr)" "mscript h = []"
    and "clean_vals vals" "hd vals \<noteq> []" "vals \<noteq> []"
    and "t = tables mgr ! ti" "t_meta t = Some mt" "recordKeySize t \<noteq> 0"
    and "length (stored uh t) < unat (recordsCapability t)"
    and "r = new_record now t (take (length (metrics mt)) (map fill vals))"
  shows "\<exists>h' t'. IMDB_DataBaseMgrCreateRec uh now mgr ti (content_of vals) h = Inr (unlock (set_table mgr ti t'), Some r, h')
     \<and> added uh now t (take (length (metrics mt)) (map fill vals)) t'"
proof -
  have "dropWhile (\<lambda>t. t = []) vals = vals" using assms(6,7) by (cases vals) auto
  then have vs: "content_values mt (content_of vals) = take (length (metrics mt)) (map fill vals)"
    using content_values_of [OF assms(5)] by simp
  have "length (others r (stored uh t)) < unat (recordsCapability t)"
    unfolding others_def by (rule le_less_trans [OF length_filter_le assms(11)])
  with CreateRec_lemma [OF assms(1,2,3) plain_content [OF assms(5)], of now h] assms(4,8-10,12) vs
  show ?thesis unfolding created_def by auto
qed

lemma new_record_metrics: "t_meta t = Some mt \<Longrightarrow>
    metrics (new_record now t (take (length (metrics mt)) (map fill vals)))
      = map (\<lambda>(m, v). m\<lparr>m_val := take 511 (fill v)\<rparr>) (zip (metrics mt) vals)"
  by (auto simp: new_record_def rec_of_def mk_metrics_def zip_take_len zip_map2)

definition example_meta :: IMDB_Record where
  "example_meta = \<lparr>keySize = 0, key = None, updateTime = 0, metricsCapacity = 2, metrics =
     [\<lparr>description = ''id'', m_type = ''key'', m_name = ''id'', m_val = []\<rparr>,
      \<lparr>description = ''count'', m_type = ''gauge'', m_name = ''v'', m_val = []\<rparr>]\<rparr>"

definition example_table :: "IMDB_Record list IMDB_Table" where
  "example_table = \<lparr>t_name = ''task'', t_meta = Some example_meta, recordsCapability = 3,
     recordKeySize = 512, records = []\<rparr>"

definition example_db :: "IMDB_Record list IMDB_DataBaseMgr" where
  "example_db = \<lparr>tblsCapability = 4, tables = [example_table],
     nodeInfo = \<lparr>machineId = ''m'', hostName = ''h''\<rparr>, rwlock = Unlocked, webServerOn = 1\<rparr>"


lemma example_meta_ok: "meta_ok 512 example_meta"
  by (simp add: meta_ok_def example_meta_def metric_ok_def plain_def is_key_def METRIC_TYPE_KEY_def)

lemma example_stored: "stored list_uthash example_table = []"
  by (simp add: stored_def list_uthash_def example_table_def)

lemma example_db_ok: "mgr_ok list_uthash example_db"
  using example_meta_ok example_stored
  by (simp add: mgr_ok_def example_db_def table_ok_def) (simp add: example_table_def)

lemma example_at: "tables example_db ! 0 = example_table" "length (tables example_db) = 1"
  by (simp_all add: example_db_def)

lemma example_clean: "clean_vals [''a'', ''1'']"
  by (simp add: clean_vals_def newline_def plain_def)

lemma example_find: "IMDB_DataBaseMgrFindTable example_db ''task'' = Some 0"
  by (simp add: IMDB_DataBaseMgrFindTable_def example_db_def example_table_def)

lemma example_fields: "t_meta example_table = Some example_meta" "recordKeySize example_table = 512"
    "recordsCapability example_table = 3"
  by (simp_all add: example_table_def)

lemmas example_facts = list_uthash_ok example_db_ok example_at example_clean example_stored example_find example_fields

subsection \<open>Properties\<close>

text \<open>C11: Adding a record to a table of a well-formed database from any content without percent
  signs, with any allocations failing, never leaves the bounds of the key buffer or of the arrays:
  the database stays well-formed with its lock released, no other table changes, and every block
  allocated is one of the database, on the paths that refuse the record too.\<close>
theorem CreateRec_safe:
  assumes "uthash_ok uh" "mgr_ok uh mgr" "ti < length (tables mgr)" "plain content"
  shows "\<exists>mgr' res h'. IMDB_DataBaseMgrCreateRec uh now mgr ti content h = Inr (mgr', res, h')
     \<and> mgr_ok uh mgr' \<and> rwlock mgr' = Unlocked
     \<and> (\<exists>t'. tables mgr' = (tables mgr)[ti := t']
          \<and> (res = None \<longrightarrow> stored uh t' = stored uh (tables mgr ! ti)))
     \<and> mlive h' - mgr_blocks uh mgr' = mlive h - mgr_blocks uh mgr"
  using CreateRec_lemma [OF assms, of now h] set_table_ok [OF assms(2,3)]
  unfolding created_def by (elim exE conjE disjE) auto

theorem CreateRec_safe_witness:
  "\<exists>mgr' res h'. IMDB_DataBaseMgrCreateRec list_uthash 7 example_db 0 (content_of [''a'', ''1''])
       \<lparr>mscript = [True, False], mlive = 0\<rparr> = Inr (mgr', res, h') \<and> mgr_ok list_uthash mgr'"
  using CreateRec_safe [OF list_uthash_ok example_db_ok, of 0 "content_of [''a'', ''1'']" 7 "\<lparr>mscript = [True, False], mlive = 0\<rparr>"]
    plain_content [OF example_clean] example_at(2) by auto

text \<open>C9: When allocation works and the table has room, a content string whose first value is not
  empty is stored as one record, at the end of the table: its metrics are those of the table's
  description in order, each with its value (\<open>(null)\<close> for an empty one, at most 511 characters), values
  beyond the description are dropped, and a record with the same key is replaced. Two complete
  records have the same key exactly when their key values agree in the characters that are kept.\<close>
theorem CreateRec_stores:
  assumes "uthash_ok uh" "mgr_ok uh mgr" "ti < length (tables mgr)" "mscript h = []"
    and "clean_vals vals" "hd vals \<noteq> []" "vals \<noteq> []"
    and "t = tables mgr ! ti" "t_meta t = Some mt" "recordKeySize t \<noteq> 0"
    and "length (stored uh t) < unat (recordsCapability t)"
  shows "\<exists>mgr' r h' t'. IMDB_DataBaseMgrCreateRec uh now mgr ti (content_of vals) h = Inr (mgr', Some r, h')
     \<and> tables mgr' = (tables mgr)[ti := t']
     \<and> stored uh t' = filter (\<lambda>r'. key_bytes r' \<noteq> key_bytes r) (stored uh t) @ [r]
     \<and> updateTime r = now
     \<and> metrics r = map (\<lambda>(m, v). m\<lparr>m_val := take 511 (fill v)\<rparr>) (zip (metrics mt) vals)
     \<and> (\<forall>vals'. length vals = length (metrics mt) \<and> length vals' = length (metrics mt)
          \<and> list_all (\<lambda>v. nul \<notin> set v) (vals @ vals') \<longrightarrow>
         (key_bytes (rec_of True (recordKeySize t) mt vals') = key_bytes r
            \<longleftrightarrow> map (take 511) (key_values mt vals') = map (take 511) (key_values mt (map fill vals))))"
proof -
  let ?vs = "take (length (metrics mt)) (map fill vals)"
  define r where "r = new_record now t ?vs"
  obtain mgr' h' t' where run: "IMDB_DataBaseMgrCreateRec uh now mgr ti (content_of vals) h = Inr (mgr', Some r, h')"
      "mgr' = unlock (set_table mgr ti t')" "added uh now t ?vs t'"
    using CreateRec_stored [OF assms r_def] by blast
  have mets: "metrics r = map (\<lambda>(m, v). m\<lparr>m_val := take 511 (fill v)\<rparr>) (zip (metrics mt) vals)"
    using new_record_metrics [OF assms(9)] by (simp add: r_def)
  have kv: "key_values mt ?vs = key_values mt (map fill vals)"
    by (simp add: key_values_def zip_take_len)
  have kb: "key_bytes r = key_of (unat (recordKeySize t)) (key_values mt (map fill vals))"
    using assms(9) by (simp add: r_def new_record_def rec_of_def key_bytes_def kv)
  have keys: "key_bytes (rec_of True (recordKeySize t) mt vals') = key_bytes r
      \<longleftrightarrow> map (take 511) (key_values mt vals') = map (take 511) (key_values mt (map fill vals))"
    if len: "length vals = length (metrics mt)" "length vals' = length (metrics mt)"
      and nn: "list_all (\<lambda>v. nul \<notin> set v) (vals @ vals')" for vals'
  proof -
    have "length (key_values mt vals') = length (key_values mt (map fill vals))"
      using len by (simp add: key_values_count)
    moreover have "\<forall>v \<in> set (key_values mt vals' @ key_values mt (map fill vals)). nul \<notin> set v"
      using nn by (auto simp: key_values_def list_all_iff fill_nul dest!: set_zip_rightD)
    ultimately show ?thesis
      unfolding kb using key_of_inj by (simp add: rec_of_def key_bytes_def)
  qed
  have st: "stored uh t' = filter (\<lambda>r'. key_bytes r' \<noteq> key_bytes r) (stored uh t) @ [r]"
    using run(3) unfolding added_def others_def r_def by blast
  have tm: "updateTime r = now" by (simp add: r_def new_record_def)
  have tb: "tables mgr' = (tables mgr)[ti := t']" using run(2) by simp
  show ?thesis using run(1) tb st tm mets keys by blast
qed

theorem CreateRec_stores_witness:
  "\<exists>mgr' r h'. IMDB_DataBaseMgrCreateRec list_uthash 7 example_db 0 (content_of [''a'', ''1'']) heap0
       = Inr (mgr', Some r, h') \<and> map m_val (metrics r) = [''a'', ''1'']"
proof -
  from CreateRec_stores [OF list_uthash_ok example_db_ok _ _ example_clean _ _ example_at(1) [symmetric] example_fields(1),
      of heap0 7] obtain mgr' r h' where
    "IMDB_DataBaseMgrCreateRec list_uthash 7 example_db 0 (content_of [''a'', ''1'']) heap0 = Inr (mgr', Some r, h')"
    "metrics r = map (\<lambda>(m, v). m\<lparr>m_val := take 511 (fill v)\<rparr>) (zip (metrics example_meta) [''a'', ''1''])"
    using example_at(2) example_fields example_stored by auto
  then show ?thesis by (simp add: example_meta_def fill_def)
qed

text \<open>C10: The table is a map from keys to values in which the last writer wins: when allocation works
  and there is room, adding a sequence of contents updates the map with each of them in turn.\<close>
theorem CreateRec_refines_map:
  assumes "uthash_ok uh" "mgr_ok uh mgr" "ti < length (tables mgr)" "mscript h = []"
    and "list_all plain contents" "t = tables mgr ! ti" "t_meta t = Some mt" "recordKeySize t \<noteq> 0"
    and "length (stored uh t) + length contents \<le> unat (recordsCapability t)"
  shows "\<exists>mgr' h'. create_all uh now ti contents (mgr, h) = Inr (mgr', h')
     \<and> rows uh (tables mgr' ! ti) = foldl (put_row (recordKeySize t) mt) (rows uh t) contents"
  using assms
proof (induction contents arbitrary: mgr h t)
  case Nil
  then show ?case by (simp add: create_all_def)
next
  case (Cons content contents)
  define vs where "vs = content_values mt content"
  have room: "length (others (new_record now t vs) (stored uh t)) < unat (recordsCapability t)"
    unfolding others_def using Cons.prems(9) by (intro le_less_trans [OF length_filter_le]) simp
  have "plain content" using Cons.prems(5) by simp
  from CreateRec_lemma [OF Cons.prems(1,2,3) this, of now h] Cons.prems(4,6,7,8) room
  obtain mgr1 r h1 t1 where run: "IMDB_DataBaseMgrCreateRec uh now mgr ti content h = Inr (mgr1, Some r, h1)"
      "mgr1 = unlock (set_table mgr ti t1)" "added uh now t vs t1" "mscript h1 = []" "table_ok uh t1"
      "t_name t1 = t_name t"
    unfolding created_def vs_def by auto
  have t1: "tables mgr1 ! ti = t1" using run(2) Cons.prems(3) by simp
  have c: "t_meta t1 = Some mt" "recordKeySize t1 = recordKeySize t" "recordsCapability t1 = recordsCapability t"
    using Cons.prems(7) table_ok_cong [OF conjunct1 [OF run(3) [unfolded added_def]]] by simp_all
  have len: "length (stored uh t1) + length contents \<le> unat (recordsCapability t1)"
  proof -
    have "length (others (new_record now t vs) (stored uh t)) \<le> length (stored uh t)"
      unfolding others_def by (rule length_filter_le)
    then show ?thesis using run(3) Cons.prems(9) c(3) by (simp add: added_def)
  qed
  have ok1: "mgr_ok uh mgr1"
    using set_table_ok [OF Cons.prems(2,3) run(5)] run(2,6) Cons.prems(6) by simp
  have lt1: "ti < length (tables mgr1)" using run(2) Cons.prems(3) by simp
  have rec: "\<exists>mgr' h'. create_all uh now ti contents (mgr1, h1) = Inr (mgr', h')
     \<and> rows uh (tables mgr' ! ti) = foldl (put_row (recordKeySize t1) mt) (rows uh t1) contents"
    using Cons.IH [OF Cons.prems(1) ok1 lt1 run(4) _ t1 [symmetric] c(1) _ len] Cons.prems(5,8) c(2) by simp
  have "rows uh t1 = (rows uh t)(key_of (unat (recordKeySize t)) (key_values mt vs) \<mapsto> map (take 511) vs)"
    by (rule added_rows [OF run(3) Cons.prems(7)]) (simp add: vs_def content_values_def)
  then have "rows uh t1 = put_row (recordKeySize t) mt (rows uh t) content"
    by (simp add: put_row_def vs_def)
  with rec run(1) c(2) show ?case by (auto simp: create_all_def vs_def)
qed

theorem CreateRec_refines_map_witness:
  "\<exists>mgr' h'. create_all list_uthash 7 0 [''|a|1|'', ''|a|2|''] (example_db, heap0) = Inr (mgr', h')
     \<and> rows list_uthash (tables mgr' ! 0) (key_of 512 [''a'']) = Some [''a'', ''2'']"
proof -
  from CreateRec_refines_map [OF list_uthash_ok example_db_ok _ _ _ example_at(1) [symmetric] example_fields(1),
      of heap0 "[''|a|1|'', ''|a|2|'']" 7] obtain mgr' h' where
    "create_all list_uthash 7 0 [''|a|1|'', ''|a|2|''] (example_db, heap0) = Inr (mgr', h')"
    "rows list_uthash (tables mgr' ! 0) = foldl (put_row 512 example_meta) (rows list_uthash example_table) [''|a|1|'', ''|a|2|'']"
    using example_at(2) example_fields example_stored by (auto simp: plain_def)
  moreover have "content_values example_meta ''|a|2|'' = [''a'', ''2'']"
    by (simp add: content_values_def example_meta_def newline_def fill_def)
  moreover have "key_values example_meta [''a'', ''2''] = [''a'']"
    by (simp add: key_values_def example_meta_def is_key_def METRIC_TYPE_KEY_def)
  ultimately show ?thesis by (simp add: put_row_def)
qed

text \<open>\<open>IMDB_DataBaseMgrAddRecord\<close> on a whole record string does what looking up the table and
  \<open>IMDB_DataBaseMgrCreateRec\<close> do, when the first value is not empty and allocation works.\<close>
lemma AddRecord_as_CreateRec:
  assumes "uthash_ok uh" "mgr_ok uh mgr" "mscript h = []" "clean_vals vals" "vals = [] \<or> hd vals \<noteq> []"
    and "tbl \<noteq> []" "tbl \<noteq> newline" "CHR ''|'' \<notin> set tbl" "IMDB_DataBaseMgrFindTable mgr tbl = Some ti"
    and "recordKeySize (tables mgr ! ti) \<noteq> 0"
  shows "\<exists>mgr' res h1 h2. IMDB_DataBaseMgrCreateRec uh now mgr ti (content_of vals) h = Inr (mgr', res, h1)
       \<and> IMDB_DataBaseMgrAddRecord uh now mgr (CHR ''|'' # tbl @ content_of vals) h
           = Inr (mgr', h2, if res = None then - 1 else 0)
       \<and> mlive h1 = mlive h2"
proof -
  have ti: "ti < length (tables mgr)" using FindTable_Some [OF assms(9)] by simp
  with assms(2) have "table_ok uh (tables mgr ! ti)" by (simp add: mgr_ok_def)
  then obtain mt where mt: "t_meta (tables mgr ! ti) = Some mt" by (auto simp: table_ok_def)
  from CreateRec_run [OF assms(1,2) ti plain_content [OF assms(4)] mt assms(3,10)]
  obtain g t' r' g' ret h1 where
    add: "IMDB_TableAddRecord uh now (tables mgr ! ti)
       (rec_of True (recordKeySize (tables mgr ! ti)) mt (content_values mt (content_of vals))) g = (t', r', g', ret)"
    and run: "IMDB_DataBaseMgrCreateRec uh now mgr ti (content_of vals) h
       = Inr (unlock (set_table mgr ti t'), if ret \<noteq> 0 then None else Some r', h1)"
    "mlive h1 - mgr_blocks uh (set_table mgr ti t') = mlive h - mgr_blocks uh mgr" "ret = 0 \<or> ret = - 1"
    by blast
  from AddRecord_run [OF assms(1,2,3,6,7,8,9,10,4,5) mt add] obtain h2 where
    "IMDB_DataBaseMgrAddRecord uh now mgr (CHR ''|'' # tbl @ content_of vals) h
      = Inr (unlock (set_table mgr ti t'), h2, ret)"
    "mlive h2 - mgr_blocks uh (set_table mgr ti t') = mlive h - mgr_blocks uh mgr" by blast
  with run show ?thesis by (elim disjE) simp_all
qed

lemma AddRecord_as_CreateRec_witness:
  "\<exists>mgr' res h1 h2. IMDB_DataBaseMgrCreateRec list_uthash 7 example_db 0 (content_of [''a'', ''1'']) heap0 = Inr (mgr', res, h1)
     \<and> IMDB_DataBaseMgrAddRecord list_uthash 7 example_db (CHR ''|'' # ''task'' @ content_of [''a'', ''1'']) heap0
         = Inr (mgr', h2, if res = None then - 1 else 0)"
proof -
  have "\<exists>mgr' res h1 h2. IMDB_DataBaseMgrCreateRec list_uthash 7 example_db 0 (content_of [''a'', ''1'']) heap0 = Inr (mgr', res, h1)
     \<and> IMDB_DataBaseMgrAddRecord list_uthash 7 example_db (CHR ''|'' # ''task'' @ content_of [''a'', ''1'']) heap0
         = Inr (mgr', h2, if res = None then - 1 else 0) \<and> mlive h1 = mlive h2"
    by (rule AddRecord_as_CreateRec [OF list_uthash_ok example_db_ok _ example_clean _ _ _ _ example_find])
      (use example_at example_fields in \<open>simp_all add: newline_def\<close>)
  then show ?thesis by blast
qed

end
