(* ===== verification/ImdbProm.thy ===== *)
theory ImdbProm
  imports Imdb
begin

section \<open>The database as Prometheus text\<close>

text \<open>
  The second part of \<open>lib/imdb/imdb.c\<close>: what a scrape of the web server reads. A buffer that is
  being filled is the text before the cursor and the number of bytes left; what a failed
  \<open>__snprintf\<close> leaves behind the cursor is overwritten by the next output or never read.
  Lengths are below \<open>2^31\<close>, so the conversions between \<open>int\<close> and \<open>uint32_t\<close> change nothing.
\<close>

subsection \<open>Output into a buffer\<close>

definition MAX_LABELS_BUFFER_SIZE :: int where "MAX_LABELS_BUFFER_SIZE = 512"
definition THOUSAND :: int where "THOUSAND = 1000"
definition DEFAULT_PERIOD_RECORD_NUM :: nat where "DEFAULT_PERIOD_RECORD_NUM = 100"

type_synonym buf = "cstr \<times> int"

definition bprint :: "cstr \<Rightarrow> buf \<Rightarrow> buf \<times> int" where
  "bprint out b =
     (case b of (acc, bufLen) \<Rightarrow>
        if bufLen \<le> 0 then (b, - 1)
        else if int (length out) \<ge> bufLen then (b, - 1)
        else ((acc @ out, bufLen - int (length out)), 0))"

definition quoted :: "cstr \<Rightarrow> cstr" where
  "quoted s = CHR 0x22 # s @ [CHR 0x22]"

subsection \<open>Metrics and labels\<close>

definition MetricTypeSatisfyPrometheus :: "IMDB_Metric \<Rightarrow> int" where
  "MetricTypeSatisfyPrometheus metric =
     (if list_ex (\<lambda>p. m_type metric = p) [''counter'', ''gauge'', ''histogram'', ''summary''] then 0 else - 1)"

definition MetricTypeIsLabel :: "IMDB_Metric \<Rightarrow> int" where
  "MetricTypeIsLabel metric =
     (if list_ex (\<lambda>p. m_type metric = p) [METRIC_TYPE_LABEL, METRIC_TYPE_KEY] then 1 else 0)"

definition IMDB_BuildMetrics :: "cstr \<Rightarrow> cstr \<Rightarrow> buf \<Rightarrow> buf \<times> int" where
  "IMDB_BuildMetrics tblName metricsName b = bprint (''gala_gopher_'' @ tblName @ ''_'' @ metricsName) b"

text \<open>Returns the number of characters printed; the cursor of the caller moves only on success.\<close>

definition IMDB_BuildPrometheusMetrics ::
    "int \<Rightarrow> IMDB_Metric \<Rightarrow> buf \<Rightarrow> cstr \<Rightarrow> cstr \<Rightarrow> buf \<times> int" where
  "IMDB_BuildPrometheusMetrics now metric b tableName labels =
     (let (b1, ret) = IMDB_BuildMetrics tableName (m_name metric) b in
      if ret < 0 then (b, ret)
      else
        (let (b2, ret2) = bprint (labels @ '' '' @ m_val metric @ '' '' @ show_int (now * THOUSAND) @ newline) b1 in
         if ret2 < 0 then (b, ret2) else (b2, snd b - snd b2)))"

fun prom_labels :: "IMDB_Metric list \<Rightarrow> bool \<Rightarrow> buf \<Rightarrow> buf \<times> int" where
  "prom_labels [] first_flag b = (b, 0)"
| "prom_labels (m # ms) first_flag b =
     (if MetricTypeIsLabel m = 0 then prom_labels ms first_flag b
      else
        (let (b1, ret) = (if first_flag then bprint (m_name m @ ''='' @ quoted (m_val m)) b
                          else bprint ('','' @ m_name m @ ''='' @ quoted (m_val m)) b)
         in if ret < 0 then (b1, ret) else prom_labels ms False b1))"

definition IMDB_BuildPrometheusLabel :: "IMDB_NodeInfo \<Rightarrow> IMDB_Record \<Rightarrow> buf \<Rightarrow> buf \<times> int" where
  "IMDB_BuildPrometheusLabel node record b =
     (let (b1, ret) = bprint ''{'' b in
      if ret < 0 then (b1, ret)
      else
        (let (b2, ret2) = prom_labels (metrics record) True b1 in
         if ret2 < 0 then (b2, ret2)
         else
           (let (b3, ret3) = bprint ('',machine_id='' @ quoted (machineId node)
                               @ '',hostname='' @ quoted (hostName node)) b2 in
            if ret3 < 0 then (b3, ret3)
            else
              (let (b4, ret4) = bprint ''}'' b3 in
               if ret4 < 0 then (b4, ret4) else (b4, 0)))))"

subsection \<open>Records, tables and the database\<close>

fun prom_metrics :: "int \<Rightarrow> IMDB_Metric list \<Rightarrow> cstr \<Rightarrow> cstr \<Rightarrow> buf \<Rightarrow> int \<Rightarrow> buf \<times> int" where
  "prom_metrics now [] tableName labels b tot = (b, tot)"
| "prom_metrics now (m # ms) tableName labels b tot =
     (if MetricTypeSatisfyPrometheus m \<noteq> 0 then prom_metrics now ms tableName labels b tot
      else
        (let (b1, ret) = IMDB_BuildPrometheusMetrics now m b tableName labels in
         if ret < 0 then (b, tot)
         else prom_metrics now ms tableName labels b1 (tot + ret)))"

definition IMDB_Rec2Prometheus ::
    "int \<Rightarrow> IMDB_NodeInfo \<Rightarrow> IMDB_Record \<Rightarrow> buf \<Rightarrow> cstr \<Rightarrow> buf \<times> int" where
  "IMDB_Rec2Prometheus now node record b tableName =
     (let (lb, ret) = IMDB_BuildPrometheusLabel node record ([], MAX_LABELS_BUFFER_SIZE) in
      if ret < 0 then (b, 0)
      else prom_metrics now (metrics record) tableName (fst lb) b 0)"

text \<open>The loop over the records: the flag says that a record could not be printed.\<close>

definition timed_out :: "int \<Rightarrow> u32 \<Rightarrow> IMDB_Record \<Rightarrow> bool" where
  "timed_out now g_recordTimeout record \<longleftrightarrow> updateTime record + uint g_recordTimeout < now"

fun prom_records ::
    "'h uthash \<Rightarrow> int \<Rightarrow> u32 \<Rightarrow> IMDB_NodeInfo \<Rightarrow> cstr \<Rightarrow> IMDB_Record list \<Rightarrow> nat \<Rightarrow> 'h \<Rightarrow> heap \<Rightarrow> buf
     \<Rightarrow> int \<Rightarrow> 'h \<times> heap \<times> buf \<times> int \<times> bool" where
  "prom_records uh now to node tname [] index recs h b tot = (recs, h, b, tot, False)"
| "prom_records uh now to node tname (r # rs) index recs h b tot =
     (if index \<ge> DEFAULT_PERIOD_RECORD_NUM then (recs, h, b, tot, False)
      else if timed_out now to r then
        prom_records uh now to node tname rs index (HASH_deleteRecord uh recs r)
          (IMDB_RecordDestroy (Some r) h) b tot
      else
        (let (b1, ret) = IMDB_Rec2Prometheus now node r b tname in
         if ret \<le> 0 then (recs, h, b1, tot, True)
         else prom_records uh now to node tname rs (index + 1) (HASH_deleteRecord uh recs r)
                (IMDB_RecordDestroy (Some r) h) b1 (tot + ret)))"

definition IMDB_Tbl2Prometheus ::
    "'h uthash \<Rightarrow> int \<Rightarrow> u32 \<Rightarrow> IMDB_NodeInfo \<Rightarrow> 'h IMDB_Table \<Rightarrow> heap \<Rightarrow> buf
     \<Rightarrow> 'h IMDB_Table \<times> heap \<times> buf \<times> int" where
  "IMDB_Tbl2Prometheus uh now to node table h b =
     (if HASH_recordCount uh (records table) = 0 then (table, h, b, 0)
      else
        (let (recs, h1, b1, tot, failed) =
               prom_records uh now to node (t_name table) (uh_iter uh (records table)) 0
                 (records table) h b 0;
             table1 = table\<lparr>records := recs\<rparr>
         in if failed then (table1, h1, b1, - 1)
            else
              (let (acc, curMaxLen) = b1;
                   b2 = (if curMaxLen \<ge> 2 then acc @ newline else acc, curMaxLen - 1)
               in (table1, h1, b2, tot + 1))))"

fun prom_tables ::
    "'h uthash \<Rightarrow> int \<Rightarrow> u32 \<Rightarrow> IMDB_NodeInfo \<Rightarrow> 'h IMDB_Table list \<Rightarrow> heap \<Rightarrow> buf
     \<Rightarrow> 'h IMDB_Table list \<times> heap \<times> buf \<times> int" where
  "prom_tables uh now to node [] h b = ([], h, b, 0)"
| "prom_tables uh now to node (t # ts) h b =
     (let (t1, h1, b1, ret) = IMDB_Tbl2Prometheus uh now to node t h b in
      if ret < 0 \<or> ret \<ge> snd b then (t1 # ts, h1, b1, - 1)
      else
        (let (ts1, h2, b2, ret2) = prom_tables uh now to node ts h1 b1
         in (t1 # ts1, h2, b2, ret2)))"

text \<open>The result is the database, the text, \<open>buf_len\<close> where it is set, and the return value.\<close>

definition IMDB_DataBase2Prometheus ::
    "'h uthash \<Rightarrow> int \<Rightarrow> u32 \<Rightarrow> 'h IMDB_DataBaseMgr \<Rightarrow> int \<Rightarrow> heap
     \<Rightarrow> 'h IMDB_DataBaseMgr \<times> heap \<times> cstr \<times> int option \<times> int" where
  "IMDB_DataBase2Prometheus uh now to mgr0 maxLen h =
     (let mgr = rdlock mgr0;
          (ts, h1, b, ret) = prom_tables uh now to (nodeInfo mgr) (tables mgr) h ([], maxLen);
          mgr1 = mgr\<lparr>tables := ts\<rparr>
      in if ret < 0 then (unlock mgr1, h1, fst b, None, - 1)
         else (unlock mgr1, h1, fst b, Some (maxLen - snd b), 0))"

subsection \<open>The text a scrape should give\<close>

definition is_label :: "IMDB_Metric \<Rightarrow> bool" where
  "is_label m \<longleftrightarrow> m_type m \<in> {METRIC_TYPE_LABEL, METRIC_TYPE_KEY}"

definition is_prom :: "IMDB_Metric \<Rightarrow> bool" where
  "is_prom m \<longleftrightarrow> m_type m \<in> {''counter'', ''gauge'', ''histogram'', ''summary''}"

definition label_text :: "IMDB_NodeInfo \<Rightarrow> IMDB_Record \<Rightarrow> cstr" where
  "label_text node r =
     ''{'' @ join (CHR '','') (map (\<lambda>m. m_name m @ ''='' @ quoted (m_val m)) (filter is_label (metrics r)))
     @ '',machine_id='' @ quoted (machineId node) @ '',hostname='' @ quoted (hostName node) @ ''}''"

definition metric_line :: "int \<Rightarrow> cstr \<Rightarrow> cstr \<Rightarrow> IMDB_Metric \<Rightarrow> cstr" where
  "metric_line now tname labels m =
     ''gala_gopher_'' @ tname @ ''_'' @ m_name m @ labels @ '' '' @ m_val m @ '' '' @ show_int (now * 1000) @ newline"

definition record_text :: "int \<Rightarrow> IMDB_NodeInfo \<Rightarrow> cstr \<Rightarrow> IMDB_Record \<Rightarrow> cstr" where
  "record_text now node tname r =
     concat (map (metric_line now tname (label_text node r)) (filter is_prom (metrics r)))"

text \<open>The records a scrape sends, at most \<open>k\<close> that have not timed out, and those that stay.\<close>

fun scrape :: "(IMDB_Record \<Rightarrow> bool) \<Rightarrow> nat \<Rightarrow> IMDB_Record list \<Rightarrow> IMDB_Record list \<times> IMDB_Record list" where
  "scrape dead k [] = ([], [])"
| "scrape dead k (r # rs) =
     (if k = 0 then ([], r # rs)
      else if dead r then scrape dead k rs
      else (case scrape dead (k - 1) rs of (sent, left) \<Rightarrow> (r # sent, left)))"

definition table_text :: "int \<Rightarrow> u32 \<Rightarrow> IMDB_NodeInfo \<Rightarrow> cstr \<Rightarrow> IMDB_Record list \<Rightarrow> cstr" where
  "table_text now to node tname rs =
     (if rs = [] then []
      else concat (map (record_text now node tname) (fst (scrape (timed_out now to) 100 rs))) @ newline)"

text \<open>A record can be printed when its labels fit their buffer and it has a metric to print.\<close>

definition printable :: "IMDB_NodeInfo \<Rightarrow> IMDB_Record \<Rightarrow> bool" where
  "printable node r \<longleftrightarrow> length (label_text node r) < 512 \<and> list_ex is_prom (metrics r)"

subsection \<open>Printing into the buffer\<close>

definition prints :: "buf \<Rightarrow> buf \<Rightarrow> cstr \<Rightarrow> bool" where
  "prints b b' x \<longleftrightarrow> b' = (fst b @ x, snd b - int (length x)) \<and> int (length x) < snd b"

lemma prints_refl: "0 < snd b \<Longrightarrow> prints b b []"
  by (simp add: prints_def)

lemma prints_trans: "prints b b1 x \<Longrightarrow> prints b1 b2 y \<Longrightarrow> prints b b2 (x @ y)"
  by (auto simp: prints_def)

lemma prints_pos: "prints b b' x \<Longrightarrow> 0 < snd b'"
  by (auto simp: prints_def)

lemma prints_left: "prints b b' x \<Longrightarrow> snd b - snd b' = int (length x)"
  by (auto simp: prints_def)

lemma bprint_cases:
  assumes "0 < snd b"
  obtains (fits) b' where "bprint x b = (b', 0)" "prints b b' x" "int (length x) < snd b"
    | (full) "bprint x b = (b, - 1)" "int (length x) \<ge> snd b"
  using assms by (cases b) (force simp: bprint_def prints_def)

lemma BuildPrometheusMetrics_cases:
  assumes "0 < snd b"
  obtains (fits) b' where "IMDB_BuildPrometheusMetrics now m b tname labels
        = (b', int (length (metric_line now tname labels m)))" "prints b b' (metric_line now tname labels m)"
      "int (length (metric_line now tname labels m)) < snd b"
    | (full) "IMDB_BuildPrometheusMetrics now m b tname labels = (b, - 1)"
      "int (length (metric_line now tname labels m)) \<ge> snd b"
proof -
  let ?x = "''gala_gopher_'' @ tname @ ''_'' @ m_name m"
  let ?y = "labels @ '' '' @ m_val m @ '' '' @ show_int (now * THOUSAND) @ newline"
  have line: "metric_line now tname labels m = ?x @ ?y" by (simp add: metric_line_def THOUSAND_def)
  show ?thesis
  using assms proof (cases rule: bprint_cases [where x = "?x"])
    case (fits b1)
    show ?thesis
    using prints_pos [OF fits(2)] proof (cases rule: bprint_cases [where x = "?y"])
      case f2: (fits b2)
      have p: "prints b b2 (metric_line now tname labels m)"
        unfolding line by (rule prints_trans [OF fits(2) f2(2)])
      show ?thesis
        by (rule that(1) [OF _ p]) (use fits f2 prints_left [OF p] p in
            \<open>simp_all add: IMDB_BuildPrometheusMetrics_def IMDB_BuildMetrics_def prints_def\<close>)
    next
      case full
      with fits have "int (length (metric_line now tname labels m)) \<ge> snd b"
        unfolding line by (auto simp: prints_def)
      with fits full show ?thesis
        by (intro that(2)) (simp_all add: IMDB_BuildPrometheusMetrics_def IMDB_BuildMetrics_def)
    qed
  next
    case full
    then have "int (length (metric_line now tname labels m)) \<ge> snd b" unfolding line by simp
    with full show ?thesis
      by (intro that(2)) (simp_all add: IMDB_BuildPrometheusMetrics_def IMDB_BuildMetrics_def)
  qed
qed

subsection \<open>Labels\<close>

definition label_item :: "IMDB_Metric \<Rightarrow> cstr" where
  "label_item m = m_name m @ ''='' @ quoted (m_val m)"

fun labels_rest :: "bool \<Rightarrow> IMDB_Metric list \<Rightarrow> cstr" where
  "labels_rest first [] = []"
| "labels_rest first (m # ms) =
     (if is_label m then (if first then [] else '','') @ label_item m @ labels_rest False ms
      else labels_rest first ms)"

lemma labels_rest_join:
  "labels_rest True ms = join (CHR '','') (map label_item (filter is_label ms))"
  "labels_rest False ms = concat (map (\<lambda>m. CHR '','' # label_item m) (filter is_label ms))"
proof -
  have rest: "labels_rest False ms = concat (map (\<lambda>m. CHR '','' # label_item m) (filter is_label ms))" for ms
    by (induction ms) auto
  then show "labels_rest False ms = concat (map (\<lambda>m. CHR '','' # label_item m) (filter is_label ms))" .
  have jc: "join d (x # xs) = x @ concat (map (\<lambda>y. d # y) xs)" for d and x :: cstr and xs
    by (induction xs arbitrary: x) auto
  show "labels_rest True ms = join (CHR '','') (map label_item (filter is_label ms))"
    by (induction ms) (auto simp: rest jc comp_def)
qed

lemma is_label_iff: "MetricTypeIsLabel m = 0 \<longleftrightarrow> \<not> is_label m"
  by (simp add: MetricTypeIsLabel_def is_label_def)

lemma is_prom_iff: "MetricTypeSatisfyPrometheus m = 0 \<longleftrightarrow> is_prom m"
  by (simp add: MetricTypeSatisfyPrometheus_def is_prom_def)

lemma prom_labels_cases:
  assumes "0 < snd b"
  shows "int (length (labels_rest first ms)) < snd b \<and>
      (\<exists>b'. prom_labels ms first b = (b', 0) \<and> prints b b' (labels_rest first ms))
    \<or> int (length (labels_rest first ms)) \<ge> snd b \<and> snd (prom_labels ms first b) = - 1"
  using assms
proof (induction ms arbitrary: first b)
  case Nil
  then show ?case by (simp add: prints_refl)
next
  case (Cons m ms)
  show ?case
  proof (cases "is_label m")
    case False
    with Cons show ?thesis by (simp add: is_label_iff)
  next
    case True
    define x where "x = (if first then [] else '','') @ label_item m"
    have step: "prom_labels (m # ms) first b
        = (let (b1, ret) = bprint x b in if ret < 0 then (b1, ret) else prom_labels ms False b1)"
      using True by (simp add: is_label_iff x_def label_item_def)
    have tx: "labels_rest first (m # ms) = x @ labels_rest False ms" using True by (simp add: x_def)
    show ?thesis
    using Cons.prems proof (cases rule: bprint_cases [where x = "x"])
      case (fits b1)
      from Cons.IH [OF prints_pos [OF fits(2)], of False] show ?thesis
        unfolding step tx using fits
        by (auto simp: prints_def)
    next
      case full
      then show ?thesis unfolding step tx by simp
    qed
  qed
qed

lemma label_text_alt:
  "label_text node r = ''{'' @ labels_rest True (metrics r)
     @ ('',machine_id='' @ quoted (machineId node) @ '',hostname='' @ quoted (hostName node)) @ ''}''"
  by (simp add: label_text_def labels_rest_join label_item_def [abs_def])

lemma BuildLabel_cases:
  obtains (fits) b' where "IMDB_BuildPrometheusLabel node r ([], MAX_LABELS_BUFFER_SIZE) = (b', 0)"
      "fst b' = label_text node r" "length (label_text node r) < 512"
    | (full) b' where "IMDB_BuildPrometheusLabel node r ([], MAX_LABELS_BUFFER_SIZE) = (b', - 1)"
      "length (label_text node r) \<ge> 512"
proof -
  let ?b0 = "([], MAX_LABELS_BUFFER_SIZE) :: buf"
  let ?t = "'',machine_id='' @ quoted (machineId node) @ '',hostname='' @ quoted (hostName node)"
  have pos: "0 < snd ?b0" by (simp add: MAX_LABELS_BUFFER_SIZE_def)
  show ?thesis
  using pos proof (cases rule: bprint_cases [where x = "''{''"])
    case 1: (fits b1)
    note pos1 = prints_pos [OF 1(2)]
    from prom_labels_cases [OF pos1, of True "metrics r"] show ?thesis
    proof (elim disjE conjE exE)
      fix b2 assume 2: "prom_labels (metrics r) True b1 = (b2, 0)" "prints b1 b2 (labels_rest True (metrics r))"
      show ?thesis
      using prints_pos [OF 2(2)] proof (cases rule: bprint_cases [where x = "?t"])
        case 3: (fits b3)
        show ?thesis
        using prints_pos [OF 3(2)] proof (cases rule: bprint_cases [where x = "''}''"])
          case 4: (fits b4)
          have "prints ?b0 b4 (label_text node r)"
            unfolding label_text_alt
            using prints_trans [OF 1(2) prints_trans [OF 2(2) prints_trans [OF 3(2) 4(2)]]] by simp
          moreover have "IMDB_BuildPrometheusLabel node r ?b0 = (b4, 0)"
            using 1(1) 2(1) 3(1) 4(1) by (simp add: IMDB_BuildPrometheusLabel_def)
          ultimately show ?thesis
            by (intro that(1)) (auto simp: prints_def MAX_LABELS_BUFFER_SIZE_def)
        next
          case full
          with 1 2 3 show ?thesis
            by (intro that(2)) (auto simp: IMDB_BuildPrometheusLabel_def prints_def label_text_alt
                MAX_LABELS_BUFFER_SIZE_def)
        qed
      next
        case full
        with 1 2 show ?thesis
          by (intro that(2)) (auto simp: IMDB_BuildPrometheusLabel_def prints_def label_text_alt
              MAX_LABELS_BUFFER_SIZE_def)
      qed
    next
      assume "int (length (labels_rest True (metrics r))) \<ge> snd b1" "snd (prom_labels (metrics r) True b1) = - 1"
      with 1 show ?thesis
        by (cases "prom_labels (metrics r) True b1")
          (intro that(2), auto simp: IMDB_BuildPrometheusLabel_def prints_def label_text_alt
              MAX_LABELS_BUFFER_SIZE_def)
    qed
  next
    case full
    then show ?thesis by (simp add: MAX_LABELS_BUFFER_SIZE_def)
  qed
qed

subsection \<open>Records\<close>

lemma prom_metrics_prints:
  assumes "0 < snd b" "prom_metrics now ms tname labels b tot = (b', tot')"
  shows "\<exists>x. prints b b' x \<and> tot' = tot + int (length x)"
  using assms
proof (induction ms arbitrary: b tot)
  case Nil
  then show ?case using prints_refl by fastforce
next
  case (Cons m ms)
  show ?case
  proof (cases "is_prom m")
    case False
    with Cons show ?thesis by (simp add: is_prom_iff)
  next
    case True
    from Cons.prems(1) show ?thesis
    proof (cases rule: BuildPrometheusMetrics_cases [where m = m and now = now and tname = tname and labels = labels])
      case (fits b1)
      with Cons.prems(2) True have "prom_metrics now ms tname labels b1
          (tot + int (length (metric_line now tname labels m))) = (b', tot')"
        by (simp add: is_prom_iff)
      from Cons.IH [OF prints_pos [OF fits(2)] this] obtain x where
        "prints b1 b' x" "tot' = tot + int (length (metric_line now tname labels m)) + int (length x)" by blast
      with prints_trans [OF fits(2)] show ?thesis by (intro exI [of _ "metric_line now tname labels m @ x"]) auto
    next
      case full
      with Cons.prems True prints_refl show ?thesis by (fastforce simp: is_prom_iff)
    qed
  qed
qed

lemma prom_metrics_fits:
  assumes "int (length (concat (map (metric_line now tname labels) (filter is_prom ms)))) < snd b"
  shows "\<exists>b'. prom_metrics now ms tname labels b tot
        = (b', tot + int (length (concat (map (metric_line now tname labels) (filter is_prom ms)))))
      \<and> prints b b' (concat (map (metric_line now tname labels) (filter is_prom ms)))"
  using assms
proof (induction ms arbitrary: b tot)
  case Nil
  then show ?case by (simp add: prints_refl)
next
  case (Cons m ms)
  show ?case
  proof (cases "is_prom m")
    case False
    with Cons show ?thesis by (simp add: is_prom_iff)
  next
    case True
    let ?l = "metric_line now tname labels m"
    have pos: "0 < snd b" and lt: "int (length ?l) < snd b" using Cons.prems True by auto
    from pos show ?thesis
    proof (cases rule: BuildPrometheusMetrics_cases [where m = m and now = now and tname = tname and labels = labels])
      case (fits b1)
      have "int (length (concat (map (metric_line now tname labels) (filter is_prom ms)))) < snd b1"
        using fits(2) Cons.prems True by (simp add: prints_def)
      from Cons.IH [OF this, of "tot + int (length ?l)"] fits True prints_trans [OF fits(2)] show ?thesis
        by (auto simp: is_prom_iff add.assoc)
    next
      case full
      with lt show ?thesis by simp
    qed
  qed
qed

lemma Rec2Prometheus_prints:
  assumes "0 < snd b" "IMDB_Rec2Prometheus now node r b tname = (b', k)"
  shows "\<exists>x. prints b b' x \<and> k = int (length x)"
proof (cases rule: BuildLabel_cases [of node r])
  case (fits lb)
  with assms(2) have "prom_metrics now (metrics r) tname (fst lb) b 0 = (b', k)"
    by (simp add: IMDB_Rec2Prometheus_def)
  from prom_metrics_prints [OF assms(1) this] show ?thesis by simp
next
  case (full lb)
  with assms show ?thesis using prints_refl by (fastforce simp: IMDB_Rec2Prometheus_def)
qed

lemma record_text_nonempty: "printable node r \<Longrightarrow> record_text now node tname r \<noteq> []"
  by (auto simp: printable_def record_text_def list_ex_iff metric_line_def)

lemma Rec2Prometheus_fits:
  assumes "printable node r" "int (length (record_text now node tname r)) < snd b"
  shows "\<exists>b'. IMDB_Rec2Prometheus now node r b tname = (b', int (length (record_text now node tname r)))
      \<and> prints b b' (record_text now node tname r)"
proof (cases rule: BuildLabel_cases [of node r])
  case (fits lb)
  with prom_metrics_fits [OF assms(2) [unfolded record_text_def], of 0] show ?thesis
    by (simp add: IMDB_Rec2Prometheus_def record_text_def)
next
  case (full lb)
  with assms show ?thesis by (simp add: printable_def)
qed

subsection \<open>Tables\<close>

lemma delete_head:
  assumes "uthash_ok uh" "uh_iter uh recs = r # rs" "distinct (map key_bytes (r # rs))"
  shows "uh_iter uh (HASH_deleteRecord uh recs r) = rs"
    and "recs_blocks uh (HASH_deleteRecord uh recs r) = recs_blocks uh recs - rec_blocks r"
proof -
  have "filter (\<lambda>r'. key_bytes r' \<noteq> key_bytes r) rs = rs"
    using assms(3) by (auto simp: filter_id_conv image_iff)
  then show it: "uh_iter uh (HASH_deleteRecord uh recs r) = rs"
    using uthash_laws(4) [OF assms(1)] assms(2) by (simp add: HASH_deleteRecord_def)
  show "recs_blocks uh (HASH_deleteRecord uh recs r) = recs_blocks uh recs - rec_blocks r"
    using it assms(2) by (simp add: recs_blocks_def)
qed

lemma prom_records_prints:
  assumes uh: "uthash_ok uh"
  shows "uh_iter uh recs = rs \<Longrightarrow> distinct (map key_bytes rs) \<Longrightarrow> 0 < snd b \<Longrightarrow>
     prom_records uh now to node tname rs index recs h b tot = (recs', h', b', tot', failed) \<Longrightarrow>
     \<exists>k x. uh_iter uh recs' = drop k rs \<and> prints b b' x \<and> tot' = tot + int (length x)
        \<and> mlive h' - recs_blocks uh recs' = mlive h - recs_blocks uh recs \<and> mscript h' = mscript h"
proof (induction rs arbitrary: index recs h b tot)
  case Nil
  then show ?case using prints_refl by fastforce
next
  case (Cons r rs)
  note del = delete_head [OF uh Cons.prems(1,2)]
  have stay: "\<exists>k x. uh_iter uh recs = drop k (r # rs) \<and> prints b b x \<and> tot = tot + int (length x)
      \<and> mlive h - recs_blocks uh recs = mlive h - recs_blocks uh recs \<and> mscript h = mscript h"
    using Cons.prems(1) prints_refl [OF Cons.prems(3)] by (intro exI [of _ 0] exI [of _ "[]"]) simp
  have d: "distinct (map key_bytes rs)" using Cons.prems(2) by simp
  consider (stop) "index \<ge> DEFAULT_PERIOD_RECORD_NUM"
    | (dead) "\<not> index \<ge> DEFAULT_PERIOD_RECORD_NUM" "timed_out now to r"
    | (live) "\<not> index \<ge> DEFAULT_PERIOD_RECORD_NUM" "\<not> timed_out now to r" by blast
  then show ?case
  proof cases
    case stop
    with Cons.prems(4) stay show ?thesis by simp
  next
    case dead
    with Cons.prems(4) have "prom_records uh now to node tname rs index (HASH_deleteRecord uh recs r)
        (IMDB_RecordDestroy (Some r) h) b tot = (recs', h', b', tot', failed)" by simp
    from Cons.IH [OF del(1) d Cons.prems(3) this] obtain k x where
      "uh_iter uh recs' = drop k rs" "prints b b' x" "tot' = tot + int (length x)"
      "mlive h' - recs_blocks uh recs' = mlive h - recs_blocks uh recs" "mscript h' = mscript h"
      using del(2) by auto
    then show ?thesis by (intro exI [of _ "Suc k"] exI [of _ x]) simp
  next
    case live
    obtain b1 ret where r2p: "IMDB_Rec2Prometheus now node r b tname = (b1, ret)" by (metis surj_pair)
    from Rec2Prometheus_prints [OF Cons.prems(3) r2p] obtain y where y: "prints b b1 y" "ret = int (length y)"
      by blast
    show ?thesis
    proof (cases "ret \<le> 0")
      case True
      with y have "y = []" by simp
      with y(1) have "b1 = b" by (cases b) (simp add: prints_def)
      with Cons.prems(4) live True r2p stay show ?thesis by simp
    next
      case False
      with Cons.prems(4) live r2p have "prom_records uh now to node tname rs (index + 1)
          (HASH_deleteRecord uh recs r) (IMDB_RecordDestroy (Some r) h) b1 (tot + ret)
          = (recs', h', b', tot', failed)" by simp
      from Cons.IH [OF del(1) d prints_pos [OF y(1)] this] obtain k x where
        "uh_iter uh recs' = drop k rs" "prints b1 b' x" "tot' = tot + ret + int (length x)"
        "mlive h' - recs_blocks uh recs' = mlive h - recs_blocks uh recs" "mscript h' = mscript h"
        using del(2) by auto
      with prints_trans [OF y(1)] y(2) show ?thesis by (intro exI [of _ "Suc k"] exI [of _ "y @ x"]) auto
    qed
  qed
qed

lemma prom_records_fits:
  assumes uh: "uthash_ok uh"
  shows "uh_iter uh recs = rs \<Longrightarrow> distinct (map key_bytes rs) \<Longrightarrow> index + k = 100 \<Longrightarrow>
     scrape (timed_out now to) k rs = (sent, left) \<Longrightarrow> list_all (printable node) sent \<Longrightarrow>
     int (length (concat (map (record_text now node tname) sent))) < snd b \<Longrightarrow>
     \<exists>recs' h' b'. prom_records uh now to node tname rs index recs h b tot
        = (recs', h', b', tot + int (length (concat (map (record_text now node tname) sent))), False)
      \<and> uh_iter uh recs' = left \<and> prints b b' (concat (map (record_text now node tname) sent))"
proof (induction rs arbitrary: index k recs h b tot sent)
  case Nil
  then show ?case using prints_refl by auto
next
  case (Cons r rs)
  note del = delete_head [OF uh Cons.prems(1,2)]
  have d: "distinct (map key_bytes rs)" using Cons.prems(2) by simp
  consider (stop) "k = 0" | (dead) "k \<noteq> 0" "timed_out now to r" | (live) "k \<noteq> 0" "\<not> timed_out now to r" by blast
  then show ?case
  proof cases
    case stop
    have "prom_records uh now to node tname (r # rs) index recs h b tot = (recs, h, b, tot, False)"
      using stop Cons.prems(3) by (simp add: DEFAULT_PERIOD_RECORD_NUM_def)
    moreover have "sent = []" "left = r # rs" using stop Cons.prems(4) by simp_all
    moreover from this Cons.prems(6) have "prints b b []" by (intro prints_refl) simp
    ultimately show ?thesis using Cons.prems(1) by simp
  next
    case dead
    with Cons.prems(4) have "scrape (timed_out now to) k rs = (sent, left)" by simp
    from Cons.IH [OF del(1) d Cons.prems(3) this Cons.prems(5,6)] dead Cons.prems(3) show ?thesis
      by (simp add: DEFAULT_PERIOD_RECORD_NUM_def)
  next
    case live
    then obtain s2 where s2: "scrape (timed_out now to) (k - 1) rs = (s2, left)" "sent = r # s2"
      using Cons.prems(4) by (auto split: prod.splits)
    let ?x = "record_text now node tname r"
    have pr: "printable node r" "list_all (printable node) s2" using Cons.prems(5) s2(2) by auto
    have lt: "int (length ?x) < snd b" using Cons.prems(6) s2(2) by simp
    from Rec2Prometheus_fits [OF pr(1) lt] obtain b1 where
      b1: "IMDB_Rec2Prometheus now node r b tname = (b1, int (length ?x))" "prints b b1 ?x" by blast
    have ne: "\<not> int (length ?x) \<le> 0" using record_text_nonempty [OF pr(1)] by simp
    have ik: "index + 1 + (k - 1) = 100" using Cons.prems(3) live by simp
    have "int (length (concat (map (record_text now node tname) s2))) < snd b1"
      using b1(2) Cons.prems(6) s2(2) by (simp add: prints_def)
    from Cons.IH [OF del(1) d ik s2(1) pr(2) this, of "IMDB_RecordDestroy (Some r) h" "tot + int (length ?x)"]
    obtain recs' h' b' where rec: "prom_records uh now to node tname rs (index + 1) (HASH_deleteRecord uh recs r)
        (IMDB_RecordDestroy (Some r) h) b1 (tot + int (length ?x))
        = (recs', h', b', tot + int (length ?x) + int (length (concat (map (record_text now node tname) s2))), False)"
      "uh_iter uh recs' = left" "prints b1 b' (concat (map (record_text now node tname) s2))" by blast
    have "prints b b' (?x @ concat (map (record_text now node tname) s2))"
      by (rule prints_trans [OF b1(2) rec(3)])
    with rec live Cons.prems(3) b1(1) ne s2(2) show ?thesis
      by (simp add: DEFAULT_PERIOD_RECORD_NUM_def add.assoc)
  qed
qed

definition drained :: "'h uthash \<Rightarrow> 'h IMDB_Table \<Rightarrow> 'h IMDB_Table \<Rightarrow> bool" where
  "drained uh t t' \<longleftrightarrow> t'\<lparr>records := records t\<rparr> = t \<and> (\<exists>k. stored uh t' = drop k (stored uh t))"

lemma drained_refl: "drained uh t t"
  unfolding drained_def by (intro conjI exI [of _ 0]) simp_all

lemma drained_ok: "drained uh t t' \<Longrightarrow> table_ok uh t \<Longrightarrow> table_ok uh t'"
proof -
  assume d: "drained uh t t'" and t: "table_ok uh t"
  then obtain k where k: "stored uh t' = drop k (stored uh t)" by (auto simp: drained_def)
  note c = table_ok_cong [OF conjunct1 [OF d [unfolded drained_def]]]
  have sub: "set (stored uh t') \<subseteq> set (stored uh t)" unfolding k by (rule set_drop_subset)
  have "distinct (map key_bytes (stored uh t'))"
    unfolding k drop_map [symmetric] using t by (intro distinct_drop) (simp add: table_ok_def)
  with t c sub show ?thesis by (auto simp: table_ok_def k)
qed

lemma count_zero:
  assumes "uthash_ok uh" "table_ok uh t"
  shows "HASH_recordCount uh (records t) = 0 \<longleftrightarrow> stored uh t = []"
proof -
  have lt: "length (stored uh t) < 2 ^ 32"
    using assms(2) u32_bound [of "recordsCapability t"] by (simp add: table_ok_def)
  have "unat (HASH_recordCount uh (records t)) = length (stored uh t)"
    unfolding HASH_recordCount_def uthash_laws(5) [OF assms(1)] stored_def [symmetric] by (rule unat_u32 [OF lt])
  then show ?thesis by (metis length_0_conv unat_0 unat_eq_0)
qed

lemma Tbl_prints:
  assumes uh: "uthash_ok uh" and t: "table_ok uh t" and b: "0 < snd b"
    and run: "IMDB_Tbl2Prometheus uh now to node t h b = (t', h', b', ret)"
  shows "drained uh t t'" and "mlive h' - table_blocks uh t' = mlive h - table_blocks uh t"
    and "\<exists>x. fst b' = fst b @ x \<and> int (length x) < snd b
      \<and> (ret < 0 \<or> ret \<ge> snd b \<or> prints b b' x \<and> ret = int (length x))"
proof -
  have "drained uh t t' \<and> mlive h' - table_blocks uh t' = mlive h - table_blocks uh t
    \<and> (\<exists>x. fst b' = fst b @ x \<and> int (length x) < snd b
      \<and> (ret < 0 \<or> ret \<ge> snd b \<or> prints b b' x \<and> ret = int (length x)))"
  proof (cases "HASH_recordCount uh (records t) = 0")
    case True
    with run have "t' = t" "h' = h" "b' = b" "ret = 0" by (simp_all add: IMDB_Tbl2Prometheus_def)
    with b show ?thesis by (auto simp: drained_refl prints_refl intro!: exI [of _ "[]"])
  next
    case False
    obtain recs h1 b1 tot failed where pr: "prom_records uh now to node (t_name t) (uh_iter uh (records t)) 0
        (records t) h b 0 = (recs, h1, b1, tot, failed)" using prod_cases5 by blast
    have d: "distinct (map key_bytes (uh_iter uh (records t)))"
      using t by (simp add: table_ok_def stored_def)
    from prom_records_prints [OF uh refl d b pr] obtain k x where
      x: "uh_iter uh recs = drop k (uh_iter uh (records t))" "prints b b1 x" "tot = int (length x)"
      "mlive h1 - recs_blocks uh recs = mlive h - recs_blocks uh (records t)" by auto
    have dr: "drained uh t (t\<lparr>records := recs\<rparr>)" using x(1) by (auto simp: drained_def stored_def)
    have bl: "mlive h1 - table_blocks uh (t\<lparr>records := recs\<rparr>) = mlive h - table_blocks uh t"
      using x(4) by (simp add: table_blocks_def)
    show ?thesis
    proof (cases failed)
      case True
      with run pr False have "t' = t\<lparr>records := recs\<rparr>" "h' = h1" "b' = b1" "ret = - 1"
        by (simp_all add: IMDB_Tbl2Prometheus_def)
      with dr bl x(2) show ?thesis by (auto simp: prints_def)
    next
      case ok: False
      with run pr False have r: "t' = t\<lparr>records := recs\<rparr>" "h' = h1" "ret = tot + 1"
          "b' = (if snd b1 \<ge> 2 then fst b1 @ newline else fst b1, snd b1 - 1)"
        by (auto simp add: IMDB_Tbl2Prometheus_def split: prod.splits if_splits)
      show ?thesis
      proof (cases "snd b1 \<ge> 2")
        case True
        with r x(2,3) have "prints b b' (x @ newline)" "ret = int (length (x @ newline))"
          by (auto simp: prints_def newline_def)
        with dr bl r show ?thesis by (auto simp: prints_def)
      next
        case False
        with x(2) have "snd b1 = 1" by (auto simp: prints_def)
        with r x(2,3) dr bl show ?thesis by (auto simp: prints_def)
      qed
    qed
  qed
  then show "drained uh t t'" "mlive h' - table_blocks uh t' = mlive h - table_blocks uh t"
    "\<exists>x. fst b' = fst b @ x \<and> int (length x) < snd b
      \<and> (ret < 0 \<or> ret \<ge> snd b \<or> prints b b' x \<and> ret = int (length x))" by blast+
qed

lemma Tbl_fits:
  assumes uh: "uthash_ok uh" and t: "table_ok uh t"
    and pr: "list_all (printable node) (fst (scrape (timed_out now to) 100 (stored uh t)))"
    and fit: "int (length (table_text now to node (t_name t) (stored uh t))) < snd b"
  shows "\<exists>t' h' b'. IMDB_Tbl2Prometheus uh now to node t h b
      = (t', h', b', int (length (table_text now to node (t_name t) (stored uh t))))
    \<and> prints b b' (table_text now to node (t_name t) (stored uh t))
    \<and> stored uh t' = snd (scrape (timed_out now to) 100 (stored uh t))"
proof (cases "stored uh t = []")
  case True
  then have "HASH_recordCount uh (records t) = 0" using count_zero [OF uh t] by simp
  with True fit show ?thesis by (simp add: IMDB_Tbl2Prometheus_def table_text_def prints_refl)
next
  case False
  then have nz: "HASH_recordCount uh (records t) \<noteq> 0" using count_zero [OF uh t] by simp
  obtain sent left where sc: "scrape (timed_out now to) 100 (stored uh t) = (sent, left)" by force
  let ?x = "concat (map (record_text now node (t_name t)) sent)"
  have tx: "table_text now to node (t_name t) (stored uh t) = ?x @ newline"
    using False sc by (simp add: table_text_def)
  have "\<exists>recs' h' b'. prom_records uh now to node (t_name t) (stored uh t) 0 (records t) h b 0
        = (recs', h', b', 0 + int (length ?x), False) \<and> uh_iter uh recs' = left \<and> prints b b' ?x"
    using t pr fit sc tx
    by (intro prom_records_fits [OF uh]) (simp_all add: stored_def table_ok_def newline_def)
  then obtain recs' h' b' where "prom_records uh now to node (t_name t) (stored uh t) 0 (records t) h b 0
        = (recs', h', b', int (length ?x), False)" "uh_iter uh recs' = left" "prints b b' ?x" by auto
  moreover from this(3) fit tx have "snd b' \<ge> 2" by (auto simp: prints_def newline_def)
  ultimately show ?thesis
    using nz sc tx
    by (auto simp: IMDB_Tbl2Prometheus_def stored_def prints_def newline_def split: prod.splits)
qed

subsection \<open>The database\<close>

lemma prom_tables_prints:
  assumes uh: "uthash_ok uh"
  shows "(\<forall>t \<in> set ts. table_ok uh t) \<Longrightarrow> 0 < snd b \<Longrightarrow>
     prom_tables uh now to node ts h b = (ts', h', b', ret) \<Longrightarrow>
     list_all2 (drained uh) ts ts'
     \<and> mlive h' - sum_list (map (table_blocks uh) ts') = mlive h - sum_list (map (table_blocks uh) ts)
     \<and> (\<exists>x. fst b' = fst b @ x \<and> int (length x) < snd b \<and> (ret = 0 \<and> prints b b' x \<or> ret = - 1))"
proof (induction ts arbitrary: h b ts' h' b' ret)
  case Nil
  then show ?case by (auto intro!: exI [of _ "[]"] prints_refl)
next
  case (Cons t ts)
  obtain t1 h1 b1 r1 where run: "IMDB_Tbl2Prometheus uh now to node t h b = (t1, h1, b1, r1)"
    using prod_cases4 by blast
  from Cons.prems(1) have tok: "table_ok uh t" by simp
  note p = Tbl_prints [OF uh tok Cons.prems(2) run]
  have rest: "list_all2 (drained uh) ts ts" by (simp add: list_all2_refl drained_refl)
  from p(3) obtain x where x: "fst b1 = fst b @ x" "int (length x) < snd b"
    "r1 < 0 \<or> r1 \<ge> snd b \<or> prints b b1 x \<and> r1 = int (length x)" by blast
  show ?case
  proof (cases "r1 < 0 \<or> r1 \<ge> snd b")
    case True
    with Cons.prems(3) run have "ts' = t1 # ts" "h' = h1" "b' = b1" "ret = - 1" by simp_all
    with p(1,2) rest x show ?thesis by auto
  next
    case False
    obtain ts1 h2 b2 r2 where rec: "prom_tables uh now to node ts h1 b1 = (ts1, h2, b2, r2)"
      using prod_cases4 by blast
    from False Cons.prems(3) run rec have r: "ts' = t1 # ts1" "h' = h2" "b' = b2" "ret = r2" by simp_all
    from False x have px: "prints b b1 x" by simp
    from Cons.IH [OF _ prints_pos [OF px] rec] Cons.prems(1) obtain y where
      "list_all2 (drained uh) ts ts1"
      "mlive h2 - sum_list (map (table_blocks uh) ts1) = mlive h1 - sum_list (map (table_blocks uh) ts)"
      and y: "fst b2 = fst b1 @ y" "int (length y) < snd b1" "r2 = 0 \<and> prints b1 b2 y \<or> r2 = - 1" by auto
    moreover have "int (length (x @ y)) < snd b" using y(2) px by (simp add: prints_def)
    moreover have "prints b1 b2 y \<Longrightarrow> prints b b2 (x @ y)" by (rule prints_trans [OF px])
    ultimately show ?thesis using r p(1,2) x(1) by (auto intro!: exI [of _ "x @ y"])
  qed
qed

lemma prom_tables_fits:
  assumes uh: "uthash_ok uh"
  shows "(\<forall>t \<in> set ts. table_ok uh t
        \<and> list_all (printable node) (fst (scrape (timed_out now to) 100 (stored uh t)))) \<Longrightarrow>
     int (length (concat (map (\<lambda>t. table_text now to node (t_name t) (stored uh t)) ts))) < snd b \<Longrightarrow>
     \<exists>ts' h' b'. prom_tables uh now to node ts h b = (ts', h', b', 0)
       \<and> prints b b' (concat (map (\<lambda>t. table_text now to node (t_name t) (stored uh t)) ts))
       \<and> map (stored uh) ts' = map (\<lambda>t. snd (scrape (timed_out now to) 100 (stored uh t))) ts"
proof (induction ts arbitrary: h b)
  case Nil
  then show ?case by (simp add: prints_refl)
next
  case (Cons t ts)
  let ?x = "table_text now to node (t_name t) (stored uh t)"
  have lt: "int (length ?x) < snd b" using Cons.prems(2) by simp
  from Cons.prems(1) Tbl_fits [OF uh _ _ lt, of h] obtain t1 h1 b1 where
    1: "IMDB_Tbl2Prometheus uh now to node t h b = (t1, h1, b1, int (length ?x))" "prints b b1 ?x"
       "stored uh t1 = snd (scrape (timed_out now to) 100 (stored uh t))" by auto
  have "int (length (concat (map (\<lambda>t. table_text now to node (t_name t) (stored uh t)) ts))) < snd b1"
    using 1(2) Cons.prems(2) by (simp add: prints_def)
  from Cons.IH [OF _ this, of h1] Cons.prems(1) obtain ts' h' b' where
    2: "prom_tables uh now to node ts h1 b1 = (ts', h', b', 0)"
       "prints b1 b' (concat (map (\<lambda>t. table_text now to node (t_name t) (stored uh t)) ts))"
       "map (stored uh) ts' = map (\<lambda>t. snd (scrape (timed_out now to) 100 (stored uh t))) ts" by auto
  have "prints b b' (?x @ concat (map (\<lambda>t. table_text now to node (t_name t) (stored uh t)) ts))"
    by (rule prints_trans [OF 1(2) 2(2)])
  with 1 2 lt show ?case by simp
qed

text \<open>The example database with one record.\<close>

definition example_with :: "cstr list \<Rightarrow> IMDB_Record list IMDB_DataBaseMgr" where
  "example_with vals = example_db\<lparr>tables := [example_table\<lparr>records := [new_record 7 example_table vals]\<rparr>]\<rparr>"

lemma example_with_ok: "length vals \<le> length (metrics example_meta) \<Longrightarrow> mgr_ok list_uthash (example_with vals)"
proof -
  assume v: "length vals \<le> length (metrics example_meta)"
  have "rec_ok 512 example_meta (new_record 7 example_table vals)"
    using v by (auto simp: rec_ok_def new_record_def example_table_def)
  then show ?thesis using example_meta_ok
    by (simp add: mgr_ok_def example_with_def table_ok_def stored_def list_uthash_def example_table_def example_db_def)
qed

text \<open>C13: A scrape never writes past its buffer: whatever the database holds, the text is shorter
  than the buffer and the length it reports is that of the text. The database stays well-formed and
  unlocked; the only records that leave it are the oldest ones of each table, and each of those is
  freed exactly once.\<close>
theorem Prometheus_safe:
  assumes "uthash_ok uh" "mgr_ok uh mgr" "0 < maxLen"
    and "IMDB_DataBase2Prometheus uh now to mgr maxLen h = (mgr', h', s, blen, ret)"
  shows "int (length s) < maxLen \<and> (ret = 0 \<and> blen = Some (int (length s)) \<or> ret = - 1 \<and> blen = None)
    \<and> mgr_ok uh mgr' \<and> rwlock mgr' = Unlocked
    \<and> list_all2 (\<lambda>t t'. t_name t' = t_name t \<and> (\<exists>k. stored uh t' = drop k (stored uh t))) (tables mgr) (tables mgr')
    \<and> mlive h' - mgr_blocks uh mgr' = mlive h - mgr_blocks uh mgr"
proof -
  obtain ts h1 b r where run: "prom_tables uh now to (nodeInfo (rdlock mgr)) (tables mgr) h ([], maxLen) = (ts, h1, b, r)"
    using prod_cases4 by blast
  have tok: "\<forall>t \<in> set (tables mgr). table_ok uh t" using assms(2) by (simp add: mgr_ok_def)
  from prom_tables_prints [OF assms(1) tok _ run] assms(3) obtain x where
    p: "list_all2 (drained uh) (tables mgr) ts"
      "mlive h1 - sum_list (map (table_blocks uh) ts) = mlive h - sum_list (map (table_blocks uh) (tables mgr))"
    and x: "fst b = x" "int (length x) < maxLen" "r = 0 \<and> prints ([], maxLen) b x \<or> r = - 1" by auto
  define mgr1 where "mgr1 = unlock ((rdlock mgr)\<lparr>tables := ts\<rparr>)"
  have res: "mgr' = mgr1" "h' = h1" "s = x" "blen = (if r < 0 then None else Some (maxLen - snd b))"
      "ret = (if r < 0 then - 1 else 0)"
    using assms(4) run x(1) by (simp_all add: IMDB_DataBase2Prometheus_def mgr1_def Let_def split: if_splits)
  have tabs: "tables mgr' = ts" "rwlock mgr' = Unlocked" "tblsCapability mgr' = tblsCapability mgr"
    by (simp_all add: res(1) mgr1_def unlock_def rdlock_def)
  have names: "list_all2 (\<lambda>t t'. t_name t' = t_name t \<and> (\<exists>k. stored uh t' = drop k (stored uh t))) (tables mgr) ts"
    using p(1) by (rule list_all2_mono) (auto simp: drained_def dest: table_ok_cong)
  then have "map t_name ts = map t_name (tables mgr)"
    by (induction rule: list_all2_induct) auto
  moreover have "\<forall>t \<in> set ts. table_ok uh t"
    using p(1) tok by (induction rule: list_all2_induct) (auto intro: drained_ok)
  moreover have "length ts = length (tables mgr)" using p(1) by (simp add: list_all2_lengthD)
  ultimately have "mgr_ok uh mgr'" using assms(2) tabs by (simp add: mgr_ok_def)
  moreover have "r = 0 \<Longrightarrow> maxLen - snd b = int (length x)"
    using x(3) prints_left [of "([], maxLen)" b x] by auto
  ultimately show ?thesis using x res tabs names p(2) by (auto simp: mgr_blocks_def)
qed

theorem Prometheus_safe_witness:
  "case IMDB_DataBase2Prometheus list_uthash 10 60 (example_with [''a'', ''1'']) 20 heap0 of
     (mgr', h', s, blen, ret) \<Rightarrow> length s < 20 \<and> mgr_ok list_uthash mgr'"
proof -
  obtain mgr' h' s blen ret where run:
    "IMDB_DataBase2Prometheus list_uthash 10 60 (example_with [''a'', ''1'']) 20 heap0 = (mgr', h', s, blen, ret)"
    using prod_cases5 by blast
  from Prometheus_safe [OF list_uthash_ok example_with_ok _ run] run show ?thesis by (simp add: example_meta_def)
qed


lemma example_record:
  "metrics (new_record 7 example_table [''a'', ''1''])
     = [\<lparr>description = ''id'', m_type = ''key'', m_name = ''id'', m_val = ''a''\<rparr>,
        \<lparr>description = ''count'', m_type = ''gauge'', m_name = ''v'', m_val = ''1''\<rparr>]"
  "updateTime (new_record 7 example_table vals) = 7"
  by (simp_all add: new_record_def rec_of_def mk_metrics_def example_table_def example_meta_def)

lemma example_with_stored:
  "stored list_uthash (example_table\<lparr>records := [new_record 7 example_table vals]\<rparr>)
     = [new_record 7 example_table vals]"
  "tables (example_with vals) = [example_table\<lparr>records := [new_record 7 example_table vals]\<rparr>]"
  "nodeInfo (example_with vals) = \<lparr>machineId = ''m'', hostName = ''h''\<rparr>" "t_name example_table = ''task''"
  by (simp_all add: stored_def list_uthash_def example_with_def example_db_def example_table_def)

lemma show_10000: "show_int 10000 = ''10000''"
  by (simp add: show_int_def show_nat.simps digit_chars)

definition example_text :: cstr where
  "example_text = ''gala_gopher_task_v{id='' @ quoted ''a'' @ '',machine_id='' @ quoted ''m'' @ '',hostname=''
     @ quoted ''h'' @ ''} 1 10000'' @ newline @ newline"

lemma example_label_text:
  "label_text \<lparr>machineId = ''m'', hostName = ''h''\<rparr> (new_record 7 example_table [''a'', ''1''])
     = ''{id='' @ quoted ''a'' @ '',machine_id='' @ quoted ''m'' @ '',hostname='' @ quoted ''h'' @ ''}''"
  by (simp add: label_text_def example_record is_label_def METRIC_TYPE_KEY_def METRIC_TYPE_LABEL_def)

lemma example_record_text:
  "record_text 10 \<lparr>machineId = ''m'', hostName = ''h''\<rparr> ''task'' (new_record 7 example_table [''a'', ''1'']) @ newline
     = example_text"
  by (simp add: record_text_def example_record is_prom_def metric_line_def example_label_text show_10000 example_text_def)

lemma example_scrape:
  "scrape (timed_out 10 60) 100 [new_record 7 example_table vals] = ([new_record 7 example_table vals], [])"
  by (simp add: timed_out_def example_record(2))

lemma example_printable:
  "printable \<lparr>machineId = ''m'', hostName = ''h''\<rparr> (new_record 7 example_table [''a'', ''1''])"
  by (simp add: printable_def example_label_text quoted_def example_record is_prom_def)

lemma example_table_text:
  "concat (map (\<lambda>t. table_text 10 60 (nodeInfo (example_with [''a'', ''1''])) (t_name t) (stored list_uthash t))
      (tables (example_with [''a'', ''1'']))) = example_text"
  "map (\<lambda>t. snd (scrape (timed_out 10 60) 100 (stored list_uthash t))) (tables (example_with [''a'', ''1''])) = [[]]"
  "\<forall>t \<in> set (tables (example_with [''a'', ''1''])). list_all (printable (nodeInfo (example_with [''a'', ''1''])))
      (fst (scrape (timed_out 10 60) 100 (stored list_uthash t)))"
  using example_record_text example_printable
  by (simp_all add: example_with_stored table_text_def example_scrape del: scrape.simps)


text \<open>C14: A live record without a metric to print, at the head of the first table, blocks the
  scrape: it fails and leaves the database as it was, so that it fails again until the record
  times out.\<close>
theorem Prometheus_blocked:
  assumes "uthash_ok uh" "mgr_ok uh mgr" "tables mgr = t # ts" "stored uh t = r # rs"
    and "\<not> timed_out now to r" "\<not> list_ex is_prom (metrics r)" "rwlock mgr = Unlocked"
  shows "IMDB_DataBase2Prometheus uh now to mgr maxLen h = (mgr, h, [], None, - 1)"
proof -
  have np: "prom_metrics now ms tn lb b 0 = (b, 0)" if "\<not> list_ex is_prom ms" for ms tn lb b
    using that by (induction ms) (simp_all add: is_prom_iff)
  have r2p: "IMDB_Rec2Prometheus now (nodeInfo mgr) r ([], maxLen) (t_name t) = (([], maxLen), 0)"
    using np [OF assms(6)] by (auto simp: IMDB_Rec2Prometheus_def split: prod.splits)
  have "table_ok uh t" using assms(2,3) by (simp add: mgr_ok_def)
  then have "HASH_recordCount uh (records t) \<noteq> 0" using count_zero [OF assms(1)] assms(4) by simp
  with assms(3-5,7) r2p show ?thesis
    by (simp add: IMDB_DataBase2Prometheus_def IMDB_Tbl2Prometheus_def stored_def [symmetric]
        DEFAULT_PERIOD_RECORD_NUM_def rdlock_def unlock_def Let_def)
qed

theorem Prometheus_blocked_witness:
  "IMDB_DataBase2Prometheus list_uthash 10 60 (example_with [''a'']) 200 heap0
     = (example_with [''a''], heap0, [], None, - 1)"
proof -
  have tabs: "tables (example_with [''a'']) = [example_table\<lparr>records := [new_record 7 example_table [''a'']]\<rparr>]"
    by (simp add: example_with_def)
  have st: "stored list_uthash (example_table\<lparr>records := [new_record 7 example_table [''a'']]\<rparr>)
      = [new_record 7 example_table [''a'']]" by (simp add: stored_def list_uthash_def)
  have live: "\<not> timed_out 10 60 (new_record 7 example_table [''a''])"
    by (simp add: timed_out_def new_record_def)
  have np: "\<not> list_ex is_prom (metrics (new_record 7 example_table [''a'']))"
    by (simp add: new_record_def rec_of_def mk_metrics_def example_table_def example_meta_def is_prom_def)
  have "rwlock (example_with [''a'']) = Unlocked" by (simp add: example_with_def example_db_def)
  then show ?thesis
    by (intro Prometheus_blocked [OF list_uthash_ok example_with_ok tabs st live np]) (simp_all add: example_meta_def)
qed

end
