(* ===== verification/ImdbJson.thy ===== *)
theory ImdbJson
  imports ImdbProm
begin

section \<open>Records as JSON text\<close>

text \<open>
  The third part of \<open>lib/imdb/imdb.c\<close>: what goes to Kafka. \<open>IMDB_Record2Json\<close> prints with \<open>snprintf\<close>
  and lets the number of bytes left reach 0, \<open>IMDB_Evt2Json\<close> prints with \<open>__snprintf\<close>. The output
  pointer is NULL or a buffer of the given size; the result carries the string in the buffer.
\<close>

subsection \<open>The operations\<close>

text \<open>\<open>ret = snprintf(json_cursor, maxLen, ...); json_cursor += ret; maxLen -= ret;\<close> on the string
  in the buffer and the bytes left; -1 when they are below 0. The string is not changed any more
  once no bytes are left.\<close>

definition jprint :: "cstr \<Rightarrow> cstr \<times> int \<Rightarrow> (cstr \<times> int) \<times> int" where
  "jprint out st =
     (case st of (cur, maxLen) \<Rightarrow>
        (let (s, ret) = snprintf (nat maxLen) [] out;
             maxLen1 = maxLen - ret
         in ((cur @ s, maxLen1), if maxLen1 < 0 then - 1 else 0)))"

definition json_field :: "cstr \<Rightarrow> cstr \<Rightarrow> cstr" where
  "json_field k v = '', '' @ quoted k @ '': '' @ quoted v"

definition json_time :: "int \<Rightarrow> cstr" where
  "json_time now = ''{'' @ quoted ''timestamp'' @ '': '' @ show_int (now * THOUSAND)"

fun jprints :: "cstr list \<Rightarrow> cstr \<times> int \<Rightarrow> (cstr \<times> int) \<times> int" where
  "jprints [] st = (st, 0)"
| "jprints (out # outs) st =
     (let (st1, ret) = jprint out st in if ret < 0 then (st1, - 1) else jprints outs st1)"

definition IMDB_Record2Json ::
    "int \<Rightarrow> IMDB_NodeInfo \<Rightarrow> cstr \<Rightarrow> IMDB_Record \<Rightarrow> bool \<Rightarrow> int \<Rightarrow> (cstr \<times> int) c" where
  "IMDB_Record2Json now node tname record nonnull jsonStrLen =
     (if \<not> nonnull then Inl NullDeref
      else
        (let (st, ret) = jprints
               ([json_time now,
                 json_field ''machine_id'' (machineId node),
                 json_field ''hostname'' (hostName node),
                 json_field ''table_name'' tname]
                @ map (\<lambda>m. json_field (m_name m) (m_val m)) (metrics record)) ([], jsonStrLen)
         in if ret < 0 then Inr (fst st, - 1)
            else
              (let (st1, ret1) = jprint ''}'' st
               in Inr (fst st1, 0))))"

definition IMDB_GetEvtVal :: "IMDB_Record \<Rightarrow> cstr \<Rightarrow> cstr option" where
  "IMDB_GetEvtVal record metricsName = map_option m_val (List.find (\<lambda>m. m_name m = metricsName) (metrics record))"

definition IMDB_BuildEntiyID :: "IMDB_NodeInfo \<Rightarrow> cstr option \<Rightarrow> cstr option \<Rightarrow> buf \<Rightarrow> buf \<times> int" where
  "IMDB_BuildEntiyID node tblName entityId b =
     (case (tblName, entityId) of
        (Some t, Some e) \<Rightarrow> bprint (t @ ''_'' @ machineId node @ ''_'' @ e) b
      | _ \<Rightarrow> (b, - 1))"

definition IMDB_BuildTmStamp :: "int \<Rightarrow> buf \<Rightarrow> buf \<times> int" where
  "IMDB_BuildTmStamp now b = bprint (quoted ''Timestamp'' @ '': '' @ quoted (show_int (now * THOUSAND))) b"

definition BuildMetrics_opt :: "cstr option \<Rightarrow> cstr option \<Rightarrow> buf \<Rightarrow> buf \<times> int" where
  "BuildMetrics_opt tblName metricsName b =
     (case (tblName, metricsName) of
        (Some t, Some m) \<Rightarrow> IMDB_BuildMetrics t m b
      | _ \<Rightarrow> (b, - 1))"

text \<open>\<open>__snprintf\<close> with a string argument that may be NULL.\<close>

definition bprint_arg :: "cstr \<Rightarrow> cstr option \<Rightarrow> cstr \<Rightarrow> buf \<Rightarrow> (buf \<times> int) c" where
  "bprint_arg pre arg post b =
     (if snd b \<le> 0 then Inr (b, - 1)
      else (case arg of None \<Rightarrow> Inl NullDeref | Some a \<Rightarrow> Inr (bprint (pre @ a @ post) b)))"

definition thenp :: "(buf \<times> int) c \<Rightarrow> (buf \<Rightarrow> (buf \<times> int) c) \<Rightarrow> (buf \<times> int) c" where
  "thenp m f = bindc m (\<lambda>(b, ret). if ret < 0 then Inr (b, ret) else f b)"

definition evt_entity :: cstr where
  "evt_entity = '', '' @ quoted ''Attributes'' @ '': { '' @ quoted ''Entity ID'' @ '': '' @ [CHR 0x22]"

definition evt_resource :: cstr where
  "evt_resource = [CHR 0x22] @ '',}, '' @ quoted ''Resource'' @ '': { '' @ quoted ''metrics'' @ '': '' @ [CHR 0x22]"

definition evt_severity :: cstr where
  "evt_severity = [CHR 0x22] @ '',}, '' @ quoted ''SeverityText'' @ '': '' @ [CHR 0x22]"

definition IMDB_Evt2Json ::
    "int \<Rightarrow> IMDB_NodeInfo \<Rightarrow> IMDB_Record \<Rightarrow> bool \<Rightarrow> int \<Rightarrow> (cstr \<times> int) c" where
  "IMDB_Evt2Json now node record nonnull jsonStrLen =
     (let tblName = IMDB_GetEvtVal record ''tblName'';
          entityID = IMDB_GetEvtVal record ''EntityID'';
          metrics = IMDB_GetEvtVal record ''metrics'';
          secTxt = IMDB_GetEvtVal record ''SeverityText'';
          secNum = IMDB_GetEvtVal record ''SeverityNumber'';
          body = IMDB_GetEvtVal record ''Body''
      in if \<not> nonnull \<and> jsonStrLen > 0 then Inl NullDeref
         else
           bindc
             (thenp (Inr (bprint ''{'' ([], jsonStrLen))) (\<lambda>b.
              thenp (Inr (IMDB_BuildTmStamp now b)) (\<lambda>b.
              thenp (Inr (bprint evt_entity b)) (\<lambda>b.
              thenp (Inr (IMDB_BuildEntiyID node tblName entityID b)) (\<lambda>b.
              thenp (Inr (bprint evt_resource b)) (\<lambda>b.
              thenp (Inr (BuildMetrics_opt tblName metrics b)) (\<lambda>b.
              thenp (bprint_arg evt_severity secTxt ([CHR 0x22] @ '','') b) (\<lambda>b.
              thenp (bprint_arg (quoted ''SeverityNumber'' @ '': '') secNum '','' b) (\<lambda>b.
                bprint_arg (quoted ''Body'' @ '': '' @ [CHR 0x22]) body ([CHR 0x22] @ ''}'') b)))))))))
             (\<lambda>(b, ret). Inr (fst b, ret)))"

definition IMDB_Rec2Json ::
    "int \<Rightarrow> 'h IMDB_DataBaseMgr \<Rightarrow> 'h IMDB_Table \<Rightarrow> IMDB_Record option \<Rightarrow> cstr \<Rightarrow> bool \<Rightarrow> int \<Rightarrow> heap
     \<Rightarrow> (cstr \<times> heap \<times> int) c" where
  "IMDB_Rec2Json now mgr table rec dataStr nonnull jsonStrLen h =
     (let print = (\<lambda>record.
            if t_name table = ''event'' then IMDB_Evt2Json now (nodeInfo mgr) record nonnull jsonStrLen
            else IMDB_Record2Json now (nodeInfo mgr) (t_name table) record nonnull jsonStrLen)
      in case rec of
           Some record \<Rightarrow>
             bindc (print record) (\<lambda>(s, ret). Inr (s, h, if ret \<noteq> 0 then - 1 else 0))
         | None \<Rightarrow>
             (case t_meta table of
                None \<Rightarrow> Inl NullDeref
              | Some meta \<Rightarrow>
                  (let (record, h1) = IMDB_RecordCreate (metricsCapacity meta) h in
                   case record of
                     None \<Rightarrow> Inr ([], h1, - 1)
                   | Some r \<Rightarrow>
                       bindc (IMDB_DataBaseMgrParseContent table r dataStr False h1) (\<lambda>(r1, h2, ret).
                         if ret \<noteq> 0 then Inr ([], IMDB_RecordDestroy (Some r1) h2, - 1)
                         else
                           bindc (print r1) (\<lambda>(s, ret1).
                             Inr (s, IMDB_RecordDestroy (Some r1) h2, if ret1 \<noteq> 0 then - 1 else 0))))))"

subsection \<open>The texts\<close>

definition json_body :: "int \<Rightarrow> IMDB_NodeInfo \<Rightarrow> cstr \<Rightarrow> IMDB_Record \<Rightarrow> cstr" where
  "json_body now node tname r =
     json_time now @ json_field ''machine_id'' (machineId node) @ json_field ''hostname'' (hostName node)
     @ json_field ''table_name'' tname @ concat (map (\<lambda>m. json_field (m_name m) (m_val m)) (metrics r))"

lemma jprint_eq:
  "jprint out (cur, n) = ((cur @ (if n \<le> 0 then [] else take (nat n - 1) out), n - int (length out)),
     if n < int (length out) then - 1 else 0)"
  by (auto simp: jprint_def snprintf_def Let_def)

text \<open>Printing pieces: as long as they fit, the buffer holds them all, but for the last character
  when they fill it.\<close>

lemma jprints_eq:
  assumes "0 \<le> n"
  shows "int (length (concat outs)) \<le> n \<Longrightarrow> outs \<noteq> [] \<longrightarrow> [] \<notin> set outs \<Longrightarrow>
     jprints outs (cur, n) = ((cur @ take (nat n - 1) (concat outs), n - int (length (concat outs))), 0)"
    and "int (length (concat outs)) > n \<Longrightarrow> snd (jprints outs (cur, n)) = - 1"
  using assms
proof (induction outs arbitrary: cur n)
  case (Cons out outs)
  {
    case 1
    have le: "int (length out) \<le> n" using 1(1) by simp
    have ne: "out \<noteq> []" using 1(2) by auto
    let ?n = "n - int (length out)"
    have IH: "jprints outs (cur @ take (nat n - 1) out, ?n)
        = (((cur @ take (nat n - 1) out) @ take (nat ?n - 1) (concat outs), ?n - int (length (concat outs))), 0)"
      using 1 le by (intro Cons.IH(1)) auto
    have n: "0 < n" using le ne by (cases out) auto
    have "take (nat n - 1) out @ take (nat ?n - 1) (concat outs) = take (nat n - 1) (concat (out # outs))"
    proof (cases "?n = 0")
      case True
      with 1(1) have e: "concat outs = []" by simp
      show ?thesis unfolding concat.simps e by simp
    next
      case False
      with le have "length out \<le> nat n - 1" "nat ?n - 1 = nat n - 1 - length out" by auto
      then show ?thesis by simp
    qed
    with IH n le show ?case by (simp add: jprint_eq)
  next
    case 2
    show ?case
    proof (cases "n < int (length out)")
      case True
      then show ?thesis by (simp add: jprint_eq)
    next
      case False
      with 2 show ?thesis by (simp add: jprint_eq Cons.IH(2))
    qed
  }
qed simp_all

lemma take_tail:
  assumes "int (length b) \<le> n"
  shows "take (nat n - 1) b @ (if n - int (length b) \<le> 0 then [] else take (nat (n - int (length b)) - 1) c)
    = take (nat n - 1) (b @ c)"
proof (cases "n = int (length b)")
  case False
  with assms have "nat (n - int (length b)) - 1 = nat n - 1 - length b" "0 < n - int (length b)" by auto
  then show ?thesis by simp
qed simp

lemma Record2Json_eq:
  assumes "0 < n"
  shows "IMDB_Record2Json now node tname r True n =
    (if int (length (json_body now node tname r)) \<le> n
     then Inr (take (nat n - 1) (json_body now node tname r @ ''}''), 0)
     else Inr (fst (fst (jprints
       ([json_time now, json_field ''machine_id'' (machineId node), json_field ''hostname'' (hostName node),
         json_field ''table_name'' tname] @ map (\<lambda>m. json_field (m_name m) (m_val m)) (metrics r)) ([], n))), - 1))"
proof -
  let ?outs = "[json_time now, json_field ''machine_id'' (machineId node), json_field ''hostname'' (hostName node),
      json_field ''table_name'' tname] @ map (\<lambda>m. json_field (m_name m) (m_val m)) (metrics r)"
  have body: "concat ?outs = json_body now node tname r" by (simp add: json_body_def)
  have ne: "[] \<notin> set ?outs" by (auto simp: json_field_def json_time_def)
  show ?thesis
  proof (cases "int (length (concat ?outs)) \<le> n")
    case True
    have "jprints ?outs ([], n) = ((take (nat n - 1) (concat ?outs), n - int (length (concat ?outs))), 0)"
      using jprints_eq(1) [of n ?outs "[]"] assms True ne by simp
    moreover have "take (nat n - 1) (concat ?outs)
        @ (if n - int (length (concat ?outs)) \<le> 0 then [] else take (nat (n - int (length (concat ?outs))) - 1) ''}'')
        = take (nat n - 1) (concat ?outs @ ''}'')"
      by (rule take_tail [OF True])
    ultimately show ?thesis
      using True unfolding IMDB_Record2Json_def body by (simp add: jprint_eq del: length_append of_nat_add take_append)
  next
    case False
    then have "snd (jprints ?outs ([], n)) = - 1" using jprints_eq(2) [of n ?outs "[]"] assms by simp
    with False show ?thesis
      unfolding IMDB_Record2Json_def body by (simp add: split_def)
  qed
qed

subsection \<open>Events\<close>

definition evt_text :: "int \<Rightarrow> IMDB_NodeInfo \<Rightarrow> cstr \<Rightarrow> cstr \<Rightarrow> cstr \<Rightarrow> cstr \<Rightarrow> cstr \<Rightarrow> cstr \<Rightarrow> cstr" where
  "evt_text now node tbl ent met sect secn body =
     ''{'' @ (quoted ''Timestamp'' @ '': '' @ quoted (show_int (now * THOUSAND)))
     @ evt_entity @ (tbl @ ''_'' @ machineId node @ ''_'' @ ent)
     @ evt_resource @ (''gala_gopher_'' @ tbl @ ''_'' @ met)
     @ (evt_severity @ sect @ [CHR 0x22] @ '','')
     @ ((quoted ''SeverityNumber'' @ '': '') @ secn @ '','')
     @ ((quoted ''Body'' @ '': '' @ [CHR 0x22]) @ body @ [CHR 0x22] @ ''}'')"

text \<open>A chain of outputs succeeds exactly when the whole text fits.\<close>

fun chain :: "cstr list \<Rightarrow> buf \<Rightarrow> (buf \<times> int) c" where
  "chain [] b = Inr (b, 0)"
| "chain (x # xs) b = thenp (Inr (bprint x b)) (chain xs)"

lemma chain_eq:
  assumes "0 < snd b"
  shows "int (length (concat xs)) < snd b \<and> (\<exists>b'. chain xs b = Inr (b', 0) \<and> prints b b' (concat xs))
    \<or> int (length (concat xs)) \<ge> snd b \<and> (\<exists>b'. chain xs b = Inr (b', - 1))"
  using assms
proof (induction xs arbitrary: b)
  case Nil
  then show ?case by (simp add: prints_refl)
next
  case (Cons x xs)
  from Cons.prems show ?case
  proof (cases rule: bprint_cases [where x = x])
    case (fits b1)
    from Cons.IH [OF prints_pos [OF fits(2)]] show ?thesis
      using fits prints_trans [OF fits(2)] by (auto simp: thenp_def prints_def)
  next
    case full
    then show ?thesis by (simp add: thenp_def)
  qed
qed

lemma chain_step:
  "(\<And>b. 0 < snd b \<Longrightarrow> f b = chain xs b) \<Longrightarrow> 0 < snd b \<Longrightarrow>
     thenp (Inr (bprint x b)) f = chain (x # xs) b"
proof -
  assume f: "\<And>b. 0 < snd b \<Longrightarrow> f b = chain xs b" and "0 < snd b"
  from this(2) show ?thesis
  proof (cases rule: bprint_cases [where x = x])
    case (fits b')
    with f prints_pos [OF fits(2)] show ?thesis by (simp add: thenp_def)
  qed (simp add: thenp_def)
qed

lemma chain_arg_step:
  "(\<And>b. 0 < snd b \<Longrightarrow> f b = chain xs b) \<Longrightarrow> 0 < snd b \<Longrightarrow>
     thenp (bprint_arg pre (Some a) post b) f = chain ((pre @ a @ post) # xs) b"
  using chain_step [of f xs b "pre @ a @ post"] by (simp add: bprint_arg_def del: chain.simps)

lemma chain_arg_last:
  "0 < snd b \<Longrightarrow> bprint_arg pre (Some a) post b = chain [pre @ a @ post] b"
  by (simp add: bprint_arg_def thenp_def bprint_def split: prod.splits)

definition evt_pieces :: "int \<Rightarrow> IMDB_NodeInfo \<Rightarrow> cstr \<Rightarrow> cstr \<Rightarrow> cstr \<Rightarrow> cstr \<Rightarrow> cstr \<Rightarrow> cstr \<Rightarrow> cstr list" where
  "evt_pieces now node tbl ent met sect secn body =
     [''{'', quoted ''Timestamp'' @ '': '' @ quoted (show_int (now * THOUSAND)),
      evt_entity, tbl @ ''_'' @ machineId node @ ''_'' @ ent, evt_resource,
      ''gala_gopher_'' @ tbl @ ''_'' @ met, evt_severity @ sect @ [CHR 0x22] @ '','',
      (quoted ''SeverityNumber'' @ '': '') @ secn @ '','',
      (quoted ''Body'' @ '': '' @ [CHR 0x22]) @ body @ [CHR 0x22] @ ''}'']"

lemma evt_pieces_text: "concat (evt_pieces now node tbl ent met sect secn body) = evt_text now node tbl ent met sect secn body"
  by (simp add: evt_pieces_def evt_text_def)

lemma Evt2Json_chain:
  assumes "IMDB_GetEvtVal r ''tblName'' = Some tbl" "IMDB_GetEvtVal r ''EntityID'' = Some ent"
    "IMDB_GetEvtVal r ''metrics'' = Some met" "IMDB_GetEvtVal r ''SeverityText'' = Some sect"
    "IMDB_GetEvtVal r ''SeverityNumber'' = Some secn" "IMDB_GetEvtVal r ''Body'' = Some body"
    and "0 < n"
  shows "IMDB_Evt2Json now node r True n =
    bindc (chain (evt_pieces now node tbl ent met sect secn body) ([], n)) (\<lambda>(b, ret). Inr (fst b, ret))"
proof -
  have "thenp (Inr (bprint ''{'' ([], n))) (\<lambda>b.
      thenp (Inr (bprint (quoted ''Timestamp'' @ '': '' @ quoted (show_int (now * THOUSAND))) b)) (\<lambda>b.
      thenp (Inr (bprint evt_entity b)) (\<lambda>b.
      thenp (Inr (bprint (tbl @ ''_'' @ machineId node @ ''_'' @ ent) b)) (\<lambda>b.
      thenp (Inr (bprint evt_resource b)) (\<lambda>b.
      thenp (Inr (bprint (''gala_gopher_'' @ tbl @ ''_'' @ met) b)) (\<lambda>b.
      thenp (bprint_arg evt_severity (Some sect) ([CHR 0x22] @ '','') b) (\<lambda>b.
      thenp (bprint_arg (quoted ''SeverityNumber'' @ '': '') (Some secn) '','' b) (\<lambda>b.
        bprint_arg (quoted ''Body'' @ '': '' @ [CHR 0x22]) (Some body) ([CHR 0x22] @ ''}'') b))))))))
    = chain (evt_pieces now node tbl ent met sect secn body) ([], n)"
    unfolding evt_pieces_def using assms(7)
    by (intro chain_step chain_arg_step chain_arg_last) simp_all
  then show ?thesis
    unfolding IMDB_Evt2Json_def Let_def assms(1-6) IMDB_BuildTmStamp_def IMDB_BuildEntiyID_def
      BuildMetrics_opt_def IMDB_BuildMetrics_def by simp
qed

lemma Evt2Json_eq:
  assumes "IMDB_GetEvtVal r ''tblName'' = Some tbl" "IMDB_GetEvtVal r ''EntityID'' = Some ent"
    "IMDB_GetEvtVal r ''metrics'' = Some met" "IMDB_GetEvtVal r ''SeverityText'' = Some sect"
    "IMDB_GetEvtVal r ''SeverityNumber'' = Some secn" "IMDB_GetEvtVal r ''Body'' = Some body"
    and "0 < n"
  shows "if int (length (evt_text now node tbl ent met sect secn body)) < n
    then IMDB_Evt2Json now node r True n = Inr (evt_text now node tbl ent met sect secn body, 0)
    else \<exists>s. IMDB_Evt2Json now node r True n = Inr (s, - 1)"
  using chain_eq [of "([], n)" "evt_pieces now node tbl ent met sect secn body"] assms(7)
  unfolding Evt2Json_chain [OF assms] evt_pieces_text by (auto simp: prints_def)

lemma json_metrics_only:
  "metrics r = metrics r' \<Longrightarrow> IMDB_Record2Json now node tname r b n = IMDB_Record2Json now node tname r' b n"
  "metrics r = metrics r' \<Longrightarrow> IMDB_Evt2Json now node r b n = IMDB_Evt2Json now node r' b n"
  by (simp_all add: IMDB_Record2Json_def IMDB_Evt2Json_def IMDB_GetEvtVal_def)

subsection \<open>Properties\<close>

text \<open>C16: The JSON text of a record is produced exactly when everything before the closing brace is
  at most as long as the buffer, and then the buffer holds the whole text cut to what fits: when the
  text before the brace fills the buffer or all but one byte of it, the brace is lost although the
  result says success. Otherwise the result is -1.\<close>
theorem Record2Json_spec:
  assumes "0 < n"
  shows "\<exists>s ret. IMDB_Record2Json now node tname r True n = Inr (s, ret)
    \<and> (ret = 0 \<longleftrightarrow> int (length (json_body now node tname r)) \<le> n) \<and> (ret = 0 \<or> ret = - 1)
    \<and> (ret = 0 \<longrightarrow> s = take (nat n - 1) (json_body now node tname r @ ''}''))
    \<and> (ret = 0 \<longrightarrow> (s = json_body now node tname r @ ''}'' \<longleftrightarrow> int (length (json_body now node tname r)) + 1 < n))"
proof -
  have "take (nat n - 1) (json_body now node tname r @ ''}'') = json_body now node tname r @ ''}''
      \<longleftrightarrow> length (json_body now node tname r @ ''}'') \<le> nat n - 1"
    by (metis length_take min.absorb_iff2 min.cobounded1 take_all_iff)
  then show ?thesis unfolding Record2Json_eq [OF assms] by auto
qed

theorem Record2Json_spec_witness:
  "\<exists>s ret. IMDB_Record2Json 10 \<lparr>machineId = ''m'', hostName = ''h''\<rparr> ''task'' example_meta True 2048 = Inr (s, ret)
    \<and> (ret = 0 \<or> ret = - 1)"
  using Record2Json_spec [of 2048 10 "\<lparr>machineId = ''m'', hostName = ''h''\<rparr>" "''task''" example_meta] by auto

text \<open>The time in an event text, and the one that the comments and the readme show: nanoseconds.\<close>

definition stamped :: "int \<Rightarrow> cstr \<Rightarrow> cstr" where
  "stamped t rest = ''{'' @ quoted ''Timestamp'' @ '': '' @ quoted (show_int t) @ rest"

lemma show_int_inj: "show_int a = show_int b \<Longrightarrow> a = b"
proof -
  assume e: "show_int a = show_int b"
  have head: "CHR ''-'' # xs \<noteq> show_nat n" for xs n
  proof
    assume "CHR ''-'' # xs = show_nat n"
    then have "CHR ''-'' \<in> set (show_nat n)" by (metis list.set_intros(1))
    with show_nat_digits [of n] show False by (auto simp: is_digit_def)
  qed
  have inj: "show_nat m = show_nat n \<Longrightarrow> m = n" for m n by (metis read_show_nat)
  from e head head [symmetric] show ?thesis by (auto simp: show_int_def split: if_splits dest!: inj)
qed

lemma stamped_time: "stamped a x = stamped b y \<Longrightarrow> a = b"
proof -
  assume "stamped a x = stamped b y"
  then have e: "show_int a @ CHR 0x22 # x = show_int b @ CHR 0x22 # y" by (simp add: stamped_def quoted_def)
  have q: "CHR 0x22 \<notin> set (show_int t)" for t
    using show_nat_digits [of "nat t"] show_nat_digits [of "nat (- t)"] by (auto simp: show_int_def is_digit_def)
  have "takeWhile (\<lambda>c. c \<noteq> CHR 0x22) (show_int t @ CHR 0x22 # z) = show_int t" for t z
    using q [of t] by (subst takeWhile_append2) auto
  with e have "show_int a = show_int b" by metis
  then show ?thesis by (rule show_int_inj)
qed

text \<open>C17: An event record with all its values becomes the text that the code specifies for it when that fits
  the buffer, and is refused otherwise. Its timestamp is the time in milliseconds: except at time 0 it is never the
  time in nanoseconds, which the comments at \<open>imdb.c\<close> 703 and 1117 and the readme of the event probe show.\<close>
theorem Evt2Json_spec:
  assumes "IMDB_GetEvtVal r ''tblName'' = Some tbl" "IMDB_GetEvtVal r ''EntityID'' = Some ent"
    "IMDB_GetEvtVal r ''metrics'' = Some met" "IMDB_GetEvtVal r ''SeverityText'' = Some sect"
    "IMDB_GetEvtVal r ''SeverityNumber'' = Some secn" "IMDB_GetEvtVal r ''Body'' = Some body"
    and "0 < n"
  shows "\<exists>s ret. IMDB_Evt2Json now node r True n = Inr (s, ret)
    \<and> (ret = 0 \<longleftrightarrow> int (length (evt_text now node tbl ent met sect secn body)) < n)
    \<and> (ret = 0 \<longrightarrow> s = evt_text now node tbl ent met sect secn body
          \<and> (\<exists>rest. s = stamped (now * 1000) rest)
          \<and> (now \<noteq> 0 \<longrightarrow> (\<forall>rest. s \<noteq> stamped (now * 1000000000) rest)))"
proof -
  have t: "\<exists>rest. evt_text now node tbl ent met sect secn body = stamped (now * 1000) rest"
    by (simp add: evt_text_def stamped_def THOUSAND_def)
  have "now = 0" if "evt_text now node tbl ent met sect secn body = stamped (now * 1000000000) rest" for rest
    using t that stamped_time by fastforce
  with t show ?thesis
    using Evt2Json_eq [OF assms, of now node] by (auto split: if_splits)
qed

definition example_event :: IMDB_Record where
  "example_event = \<lparr>keySize = 0, key = None, updateTime = 0, metricsCapacity = 6, metrics =
     map (\<lambda>(k, v). \<lparr>description = [], m_type = ''label'', m_name = k, m_val = v\<rparr>)
       [(''tblName'', ''tcp''), (''EntityID'', ''1''), (''metrics'', ''rx''), (''SeverityText'', ''WARN''),
        (''SeverityNumber'', ''13''), (''Body'', ''slow'')]\<rparr>"

lemma example_event_text:
  "length (evt_text 10 \<lparr>machineId = ''m'', hostName = ''h''\<rparr> ''tcp'' ''1'' ''rx'' ''WARN'' ''13'' ''slow'') < 2048"
  by (simp add: evt_text_def evt_entity_def evt_resource_def evt_severity_def quoted_def THOUSAND_def show_10000)

theorem Evt2Json_spec_witness:
  "IMDB_Evt2Json 10 \<lparr>machineId = ''m'', hostName = ''h''\<rparr> example_event True 2048
    = Inr (evt_text 10 \<lparr>machineId = ''m'', hostName = ''h''\<rparr> ''tcp'' ''1'' ''rx'' ''WARN'' ''13'' ''slow'', 0)"
proof -
  note spec = Evt2Json_spec [of example_event "''tcp''" "''1''" "''rx''" "''WARN''" "''13''" "''slow''" 2048 10
      "\<lparr>machineId = ''m'', hostName = ''h''\<rparr>"]
  have "\<exists>s ret. IMDB_Evt2Json 10 \<lparr>machineId = ''m'', hostName = ''h''\<rparr> example_event True 2048 = Inr (s, ret)
    \<and> (ret = 0 \<longleftrightarrow> int (length (evt_text 10 \<lparr>machineId = ''m'', hostName = ''h''\<rparr> ''tcp'' ''1'' ''rx'' ''WARN'' ''13'' ''slow'')) < 2048)
    \<and> (ret = 0 \<longrightarrow> s = evt_text 10 \<lparr>machineId = ''m'', hostName = ''h''\<rparr> ''tcp'' ''1'' ''rx'' ''WARN'' ''13'' ''slow'')"
    using spec by (fastforce simp: IMDB_GetEvtVal_def example_event_def)
  then show ?thesis using example_event_text by auto
qed

text \<open>C15: Turning a content string into JSON gives the same text and result whether the record comes
  from the database or is built from the string for the purpose, and a record built for the purpose
  is freed on every path, whichever allocations fail.\<close>
theorem Rec2Json_agree:
  assumes "meta_ok (recordKeySize table) mt" "t_meta table = Some mt" "plain content" "metricsCapacity mt \<noteq> 0"
  shows "(mscript h = [] \<longrightarrow>
      (case IMDB_Rec2Json now mgr table (Some (new_record tmx table (content_values mt content))) content b n h of
         Inl e \<Rightarrow> IMDB_Rec2Json now mgr table None content b n h = Inl e
       | Inr (s, _, ret) \<Rightarrow> \<exists>h'. IMDB_Rec2Json now mgr table None content b n h = Inr (s, h', ret)))
    \<and> (\<forall>s h' ret. IMDB_Rec2Json now mgr table None content b n h = Inr (s, h', ret) \<longrightarrow> mlive h' = mlive h)"
proof -
  define print where "print = (\<lambda>record.
      if t_name table = ''event'' then IMDB_Evt2Json now (nodeInfo mgr) record b n
      else IMDB_Record2Json now (nodeInfo mgr) (t_name table) record b n)"
  obtain res h1 where c: "IMDB_RecordCreate (metricsCapacity mt) h = (res, h1)" by force
  note create = RecordCreate_cases [OF c]
  have some: "IMDB_Rec2Json now mgr table (Some r) content b n h
      = bindc (print r) (\<lambda>(s, ret). Inr (s, h, if ret \<noteq> 0 then - 1 else 0))" for r
    by (simp add: IMDB_Rec2Json_def print_def)
  show ?thesis
  proof (cases res)
    case None
    then have "IMDB_Rec2Json now mgr table None content b n h = Inr ([], h1, - 1)"
      using assms(2) c by (simp add: IMDB_Rec2Json_def)
    with None create assms(4) show ?thesis by auto
  next
    case (Some r)
    then have r: "r = rec_of False (recordKeySize table) mt []" using create(2) by (simp add: rec_of_start)
    have "if False then meta_ok (recordKeySize table) mt else meta_ok (recordKeySize table) mt" using assms(1) by simp
    from ParseContent_spec [OF this assms(2,3), of h1] obtain vals' h2 ret where
      pc: "IMDB_DataBaseMgrParseContent table (rec_of False (recordKeySize table) mt []) content False h1
             = Inr (rec_of False (recordKeySize table) mt vals', h2, ret)"
        "length vals' \<le> length (metrics mt)" "mlive h2 = mlive h1 + int (length vals')"
        "ret = 0 \<and> vals' = content_values mt content \<or> ret = - 1" "mscript h1 = [] \<longrightarrow> ret = 0"
      unfolding parsed_def by auto
    let ?r1 = "rec_of False (recordKeySize table) mt vals'"
    let ?h3 = "IMDB_RecordDestroy (Some ?r1) h2"
    have live: "mlive ?h3 = mlive h" using create(1) Some r pc(2,3) by simp
    have none: "IMDB_Rec2Json now mgr table None content b n h =
        (if ret \<noteq> 0 then Inr ([], ?h3, - 1)
         else bindc (print ?r1) (\<lambda>(s, ret1). Inr (s, ?h3, if ret1 \<noteq> 0 then - 1 else 0)))"
      using assms(2) c Some r pc(1) by (simp add: IMDB_Rec2Json_def print_def)
    have same: "print (new_record tmx table (content_values mt content)) = print ?r1"
      if "vals' = content_values mt content"
    proof -
      have "metrics (new_record tmx table (content_values mt content)) = metrics ?r1"
        using assms(2) that by (simp add: new_record_def rec_of_def)
      then show ?thesis unfolding print_def using json_metrics_only by (metis (no_types))
    qed
    have part1: "case IMDB_Rec2Json now mgr table (Some (new_record tmx table (content_values mt content))) content b n h of
         Inl e \<Rightarrow> IMDB_Rec2Json now mgr table None content b n h = Inl e
       | Inr (s, _, ret) \<Rightarrow> \<exists>h'. IMDB_Rec2Json now mgr table None content b n h = Inr (s, h', ret)"
      if "mscript h = []"
    proof -
      have "ret = 0" "vals' = content_values mt content" using that create(3) pc(4,5) by auto
      then show ?thesis unfolding some none using same by (cases "print ?r1") auto
    qed
    have part2: "mlive h' = mlive h" if "IMDB_Rec2Json now mgr table None content b n h = Inr (s, h', ret')" for s h' ret'
      using that live unfolding none by (cases "print ?r1") (auto split: if_splits)
    show ?thesis using part1 part2 by blast
  qed
qed

theorem Rec2Json_agree_witness:
  "case IMDB_Rec2Json 10 example_db example_table None ''|a|1|'' True 2048 heap0 of
     Inl e \<Rightarrow> False | Inr (s, h', ret) \<Rightarrow> mlive h' = 0"
proof -
  note agree = Rec2Json_agree [where table = example_table and mt = example_meta and content = "''|a|1|''" and h = heap0
      and now = 10 and mgr = example_db and b = True and n = 2048 and tmx = 5]
  have "\<exists>s ret. IMDB_Rec2Json 10 example_db example_table (Some r) ''|a|1|'' True 2048 heap0 = Inr (s, heap0, ret)" for r
    by (simp add: IMDB_Rec2Json_def Record2Json_eq example_table_def)
  then obtain s ret where "IMDB_Rec2Json 10 example_db example_table
      (Some (new_record 5 example_table (content_values example_meta ''|a|1|''))) ''|a|1|'' True 2048 heap0 = Inr (s, heap0, ret)"
    by blast
  with agree example_meta_ok example_fields show ?thesis by (auto simp: plain_def example_meta_def)
qed

end
