(* ===== verification/Kafka.thy ===== *)
theory Kafka
  imports Config
begin

section \<open>The Kafka producer\<close>

text \<open>
  \<open>lib/kafka/kafka.c\<close> and \<open>kafka.h\<close>. librdkafka is not part of the repository; what the code takes
  from it is a parameter: which settings, producers and topics it accepts, and whether
  \<open>rd_kafka_new\<close> takes the configuration object over, as its documentation says. The objects of the
  library that exist are counted.
\<close>

subsection \<open>The manager\<close>

record kafka_lib =
  conf_set_ok :: "cstr \<Rightarrow> cstr \<Rightarrow> bool"
  new_ok :: "(cstr \<times> cstr) list \<Rightarrow> bool"
  topic_new_ok :: "cstr \<Rightarrow> bool"
  new_takes_conf :: bool

record kafka_objs =
  confs :: int
  rks :: int
  rkts :: int

text \<open>\<open>conf\<close> holds the settings made; \<open>conf_owned\<close> says whether the object is still the manager's.\<close>

record KafkaMgr =
  kafkaBroker :: cstr
  kafkaTopic :: cstr
  km_batchNumMessages :: u32
  km_compressionCodec :: cstr
  km_queueBufferingMaxMessages :: u32
  km_queueBufferingMaxKbytes :: u32
  km_queueBufferingMaxMs :: u32
  rk :: bool
  rkt :: bool
  conf :: "(cstr \<times> cstr) list"
  conf_owned :: bool

text \<open>\<open>char buf[10] = {0}; snprintf(buf, sizeof(buf), "%u", n)\<close>\<close>

definition u32_str :: "u32 \<Rightarrow> cstr" where
  "u32_str n = fst (snprintf 10 [] (show_nat (unat n)))"

text \<open>The settings in the order in which they are made.\<close>

definition kafka_settings :: "KafkaMgr \<Rightarrow> (cstr \<times> cstr) list" where
  "kafka_settings mgr =
     [(''bootstrap.servers'', kafkaBroker mgr),
      (''batch.num.messages'', u32_str (km_batchNumMessages mgr)),
      (''compression.codec'', km_compressionCodec mgr),
      (''queue.buffering.max.messages'', u32_str (km_queueBufferingMaxMessages mgr)),
      (''queue.buffering.max.kbytes'', u32_str (km_queueBufferingMaxKbytes mgr)),
      (''queue.buffering.max.ms'', u32_str (km_queueBufferingMaxMs mgr))]"

fun conf_sets :: "kafka_lib \<Rightarrow> (cstr \<times> cstr) list \<Rightarrow> KafkaMgr \<Rightarrow> KafkaMgr option" where
  "conf_sets lib [] mgr = Some mgr"
| "conf_sets lib ((k, v) # kvs) mgr =
     (if conf_set_ok lib k v then conf_sets lib kvs (mgr\<lparr>conf := conf mgr @ [(k, v)]\<rparr>) else None)"

definition rd_kafka_conf_destroy :: "KafkaMgr \<Rightarrow> kafka_objs \<Rightarrow> kafka_objs c" where
  "rd_kafka_conf_destroy mgr objs =
     (if conf_owned mgr then Inr (objs\<lparr>confs := confs objs - 1\<rparr>) else Inl DoubleFree)"

definition kafka_start :: "KafkaConfig \<Rightarrow> KafkaMgr" where
  "kafka_start cfg =
     \<lparr>kafkaBroker = strncpy (MAX_KAFKA_BROKER_LEN - 1) (broker cfg),
      kafkaTopic = strncpy (MAX_KAFKA_TOPIC_LEN - 1) (topic cfg),
      km_batchNumMessages = batchNumMessages cfg,
      km_compressionCodec = strncpy (KAFKA_COMPRESSION_CODEC_LEN - 1) (compressionCodec cfg),
      km_queueBufferingMaxMessages = queueBufferingMaxMessages cfg,
      km_queueBufferingMaxKbytes = queueBufferingMaxKbytes cfg,
      km_queueBufferingMaxMs = queueBufferingMaxMs cfg,
      rk = False, rkt = False, conf = [], conf_owned = True\<rparr>"

definition KafkaMgrCreate ::
    "kafka_lib \<Rightarrow> KafkaConfig \<Rightarrow> heap \<Rightarrow> kafka_objs \<Rightarrow> (KafkaMgr option \<times> heap \<times> kafka_objs) c" where
  "KafkaMgrCreate lib cfg h objs =
     (let (ok, h1) = malloc h in
      if \<not> ok then Inr (None, h1, objs)
      else
        (let mgr = kafka_start cfg;
             objs1 = objs\<lparr>confs := confs objs + 1\<rparr>
         in case conf_sets lib (kafka_settings mgr) mgr of
              None \<Rightarrow> Inr (None, free h1, objs1)
            | Some mgr1 \<Rightarrow>
                if \<not> new_ok lib (conf mgr1) then
                  bindc (rd_kafka_conf_destroy mgr1 objs1) (\<lambda>objs2. Inr (None, free h1, objs2))
                else
                  (let mgr2 = mgr1\<lparr>rk := True, conf_owned := \<not> new_takes_conf lib\<rparr>;
                       objs2 = objs1\<lparr>rks := rks objs1 + 1,
                         confs := (if new_takes_conf lib then confs objs1 - 1 else confs objs1)\<rparr>
                   in if \<not> topic_new_ok lib (kafkaTopic mgr2) then
                        bindc (rd_kafka_conf_destroy mgr2 (objs2\<lparr>rks := rks objs2 - 1\<rparr>))
                          (\<lambda>objs3. Inr (None, free h1, objs3))
                      else Inr (Some (mgr2\<lparr>rkt := True\<rparr>), h1, objs2\<lparr>rkts := rkts objs2 + 1\<rparr>))))"

definition KafkaMgrDestroy :: "KafkaMgr option \<Rightarrow> heap \<Rightarrow> kafka_objs \<Rightarrow> (heap \<times> kafka_objs) c" where
  "KafkaMgrDestroy m h objs =
     (case m of
        None \<Rightarrow> Inr (h, objs)
      | Some mgr \<Rightarrow>
          (let objs1 = (if rkt mgr then objs\<lparr>rkts := rkts objs - 1\<rparr> else objs);
               objs2 = (if rk mgr then objs1\<lparr>rks := rks objs1 - 1\<rparr> else objs1)
           in bindc (rd_kafka_conf_destroy mgr objs2) (\<lambda>objs3. Inr (free h, objs3))))"

subsection \<open>Sending a message\<close>

text \<open>What \<open>rd_kafka_produce\<close> did: it took the message, or refused it because its queue is full or
  for another reason. The answers of the library to the coming calls are a function of the number of
  the attempt.\<close>

datatype produce_res = Sent | QueueFull | Failed

definition RETRY_MAX :: nat where "RETRY_MAX = 3"

record produced =
  attempts :: nat
  polls :: nat
  freed_by_caller :: bool
  p_ret :: int

function produce_retry :: "(nat \<Rightarrow> produce_res) \<Rightarrow> nat \<Rightarrow> produced" where
  "produce_retry res retry_index =
     (case res retry_index of
        Sent \<Rightarrow> \<lparr>attempts = retry_index + 1, polls = retry_index + 1, freed_by_caller = False, p_ret = 0\<rparr>
      | r \<Rightarrow>
          if retry_index + 1 < RETRY_MAX \<and> r = QueueFull then produce_retry res (retry_index + 1)
          else \<lparr>attempts = retry_index + 1, polls = retry_index, freed_by_caller = True, p_ret = - 1\<rparr>)"
  by pat_completeness auto
termination by (relation "measure (\<lambda>(_, i). RETRY_MAX - i)") (auto simp: RETRY_MAX_def)

declare produce_retry.simps [simp del]

definition KafkaMsgProduce :: "(nat \<Rightarrow> produce_res) \<Rightarrow> heap \<Rightarrow> produced \<times> heap" where
  "KafkaMsgProduce res h =
     (let p = produce_retry res 0 in (p, if freed_by_caller p then free h else h))"

subsection \<open>Decimal digits cut to nine\<close>

lemma show_nat_long: "10 ^ k \<le> n \<Longrightarrow> k < length (show_nat n)"
proof (induction k arbitrary: n)
  case 0
  then show ?case by simp
next
  case (Suc k)
  then have ge: "10 \<le> n" using self_le_power [of "10 :: nat" "Suc k"] by linarith
  have "10 ^ k \<le> n div 10" using Suc.prems by (simp add: less_eq_div_iff_mult_less_eq)
  with Suc.IH have "k < length (show_nat (n div 10))" by blast
  with ge show ?case by (subst show_nat.simps) simp
qed

lemma u32_str_value: "read_nat (u32_str n) = (if unat n < 10 ^ 9 then unat n else unat n div 10)"
proof (cases "unat n < 10 ^ 9")
  case True
  then have "length (show_nat (unat n)) \<le> 9" by (intro show_nat_length) simp_all
  then show ?thesis using True by (simp add: u32_str_def snprintf_def)
next
  case False
  have "unat n div 10 < 10 ^ 9" using u32_bound [of n] by (simp add: div_less_iff_less_mult)
  then have le: "length (show_nat (unat n div 10)) \<le> 9" by (intro show_nat_length) simp_all
  have "10 ^ 8 \<le> unat n div 10" using False by (simp add: less_eq_div_iff_mult_less_eq)
  then have "8 < length (show_nat (unat n div 10))" by (rule show_nat_long)
  with le have len: "length (show_nat (unat n div 10)) = 9" by simp
  have "show_nat (unat n) = show_nat (unat n div 10) @ [digit_char (unat n mod 10)]"
    using False by (subst show_nat.simps) simp
  then have "take 9 (show_nat (unat n)) = show_nat (unat n div 10)" using len by simp
  then show ?thesis using False by (simp add: u32_str_def snprintf_def)
qed

lemma conf_sets_Some: "conf_sets lib kvs mgr = Some mgr' \<Longrightarrow>
    mgr' = mgr\<lparr>conf := conf mgr @ kvs\<rparr> \<and> list_all (\<lambda>(k, v). conf_set_ok lib k v) kvs"
proof (induction kvs arbitrary: mgr)
  case (Cons kv kvs)
  obtain k v where kv: "kv = (k, v)" by force
  with Cons.prems have "conf_set_ok lib k v" "conf_sets lib kvs (mgr\<lparr>conf := conf mgr @ [(k, v)]\<rparr>) = Some mgr'"
    by (simp_all split: if_splits)
  with Cons.IH [OF this(2)] kv show ?case by simp
qed simp

text \<open>How a creation can end.\<close>

lemma KafkaMgrCreate_cases:
  assumes "KafkaMgrCreate lib cfg h objs = Inr (res, h', objs')"
  obtains (none) "res = None" "mlive h' = mlive h"
    | (created) "res = Some ((kafka_start cfg)\<lparr>conf := kafka_settings (kafka_start cfg), rk := True,
          rkt := True, conf_owned := \<not> new_takes_conf lib\<rparr>)" "mlive h' = mlive h + 1"
        "list_all (\<lambda>(k, v). conf_set_ok lib k v) (kafka_settings (kafka_start cfg))"
        "rks objs' = rks objs + 1" "rkts objs' = rkts objs + 1"
        "confs objs' = confs objs + (if new_takes_conf lib then 0 else 1)"
proof -
  obtain ok h1 where m: "malloc h = (ok, h1)" by force
  show ?thesis
  proof (cases "ok")
    case False
    with assms m malloc_live(2) [of h h1] show ?thesis by (intro none) (auto simp: KafkaMgrCreate_def)
  next
    case True
    then have live: "mlive h1 = mlive h + 1" using m malloc_live(1) [of h h1] by simp
    show ?thesis
    proof (cases "conf_sets lib (kafka_settings (kafka_start cfg)) (kafka_start cfg)")
      case None
      with assms m True live show ?thesis by (intro none) (auto simp: KafkaMgrCreate_def Let_def)
    next
      case (Some mgr1)
      note mgr1 = conf_sets_Some [OF Some]
      have start: "conf (kafka_start cfg) = []" "conf_owned (kafka_start cfg)" by (simp_all add: kafka_start_def)
      consider "\<not> new_ok lib (conf mgr1)" | "new_ok lib (conf mgr1)" "\<not> topic_new_ok lib (kafkaTopic mgr1)"
        | "new_ok lib (conf mgr1)" "topic_new_ok lib (kafkaTopic mgr1)" by blast
      then show ?thesis
      proof cases
        case 3
        with assms m True Some live mgr1 start show ?thesis
          by (intro created) (auto simp: KafkaMgrCreate_def Let_def)
      next
        case 1
        with assms m True Some have "res = None" "h' = free h1"
          by (auto simp: KafkaMgrCreate_def Let_def)
        with live show ?thesis by (intro none) simp_all
      next
        case 2
        with assms m True Some have "res = None" "h' = free h1"
          by (auto simp: KafkaMgrCreate_def Let_def)
        with live show ?thesis by (intro none) simp_all
      qed
    qed
  qed
qed

definition example_lib :: "bool \<Rightarrow> kafka_lib" where
  "example_lib takes = \<lparr>conf_set_ok = \<lambda>_ _. True, new_ok = \<lambda>_. True, topic_new_ok = \<lambda>_. True, new_takes_conf = takes\<rparr>"

definition example_kafka :: KafkaConfig where
  "example_kafka = \<lparr>broker = ''localhost:9092'', topic = ''gala'', batchNumMessages = 100, compressionCodec = ''none'',
     queueBufferingMaxMessages = 10, queueBufferingMaxKbytes = 10, queueBufferingMaxMs = 10, kafkaSwitch = KAFKA_SWITCH_ON\<rparr>"

lemma example_kafka_create:
  "\<exists>mgr h' objs'. KafkaMgrCreate (example_lib b) example_kafka \<lparr>mscript = [], mlive = 0\<rparr> \<lparr>confs = 0, rks = 0, rkts = 0\<rparr>
     = Inr (Some mgr, h', objs')"
  by (simp add: KafkaMgrCreate_def Let_def example_lib_def kafka_settings_def)

subsection \<open>Properties\<close>

text \<open>The settings of the configuration as the library gets them.\<close>

definition wanted_settings :: "KafkaConfig \<Rightarrow> (cstr \<times> cstr) list" where
  "wanted_settings cfg =
     [(''bootstrap.servers'', take 31 (broker cfg)),
      (''batch.num.messages'', u32_str (batchNumMessages cfg)),
      (''compression.codec'', take 31 (compressionCodec cfg)),
      (''queue.buffering.max.messages'', u32_str (queueBufferingMaxMessages cfg)),
      (''queue.buffering.max.kbytes'', u32_str (queueBufferingMaxKbytes cfg)),
      (''queue.buffering.max.ms'', u32_str (queueBufferingMaxMs cfg))]"

lemma kafka_settings_wanted: "kafka_settings (kafka_start cfg) = wanted_settings cfg"
  "kafkaTopic (kafka_start cfg) = take 31 (topic cfg)" "conf (kafka_start cfg) = []"
  by (simp_all add: wanted_settings_def kafka_settings_def kafka_start_def config_lens strncpy_def)

lemma conf_sets_all: "list_all (\<lambda>(k, v). conf_set_ok lib k v) kvs \<Longrightarrow>
    conf_sets lib kvs mgr = Some (mgr\<lparr>conf := conf mgr @ kvs\<rparr>)"
  by (induction kvs arbitrary: mgr) auto

text \<open>What is given back.\<close>

lemma KafkaMgrDestroy_created:
  assumes "KafkaMgrCreate lib cfg h objs = Inr (res, h', objs')"
  shows "case res of
      None \<Rightarrow> mlive h' = mlive h
    | Some mgr \<Rightarrow>
        (case KafkaMgrDestroy (Some mgr) h' objs' of
           Inl e \<Rightarrow> e = DoubleFree \<and> new_takes_conf lib
         | Inr (h2, objs2) \<Rightarrow> \<not> new_takes_conf lib \<and> mlive h2 = mlive h \<and> confs objs2 = confs objs
             \<and> rks objs2 = rks objs \<and> rkts objs2 = rkts objs)"
  using assms
proof (cases rule: KafkaMgrCreate_cases)
  case created
  then show ?thesis by (simp add: KafkaMgrDestroy_def rd_kafka_conf_destroy_def Let_def)
qed simp

text \<open>C18: A producer is created exactly when its block can be allocated, the library accepts each of the six
  settings, makes a producer of them and makes the topic. It then has exactly the settings of the
  configuration, the strings cut to 31 characters. Each number is written in decimal into a buffer of ten bytes:
  below \<open>10^9\<close> the setting has the value of the configuration, from there on it has lost its last digit.
  Creating a producer gives its block back when it fails. Destroying a producer that was created gives back its
  block and its objects if the library left the configuration to the caller; when the library takes it over, as
  it is documented to do, the code frees it a second time, also when only the topic cannot be made.\<close>
theorem KafkaMgrCreate_settings:
  "((\<exists>mgr h' objs'. KafkaMgrCreate lib cfg h objs = Inr (Some mgr, h', objs')) \<longleftrightarrow>
      fst (malloc h) \<and> list_all (\<lambda>(k, v). conf_set_ok lib k v) (wanted_settings cfg)
      \<and> new_ok lib (wanted_settings cfg) \<and> topic_new_ok lib (take 31 (topic cfg)))
   \<and> (case KafkaMgrCreate lib cfg h objs of
        Inr (Some mgr, h', objs') \<Rightarrow>
          conf mgr = wanted_settings cfg \<and> kafkaTopic mgr = take 31 (topic cfg) \<and> rk mgr \<and> rkt mgr
          \<and> (case KafkaMgrDestroy (Some mgr) h' objs' of
               Inl e \<Rightarrow> e = DoubleFree \<and> new_takes_conf lib
             | Inr (h2, objs2) \<Rightarrow> \<not> new_takes_conf lib \<and> mlive h2 = mlive h \<and> confs objs2 = confs objs
                 \<and> rks objs2 = rks objs \<and> rkts objs2 = rkts objs)
      | Inr (None, h', _) \<Rightarrow> mlive h' = mlive h
      | Inl e \<Rightarrow> e = DoubleFree \<and> new_takes_conf lib \<and> \<not> topic_new_ok lib (take 31 (topic cfg)))
   \<and> read_nat (u32_str n) = (if unat n < 10 ^ 9 then unat n else unat n div 10)"
proof -
  obtain ok h1 where m: "malloc h = (ok, h1)" by force
  have six: "conf_sets lib (wanted_settings cfg) (kafka_start cfg) =
      (if list_all (\<lambda>(k, v). conf_set_ok lib k v) (wanted_settings cfg)
       then Some ((kafka_start cfg)\<lparr>conf := wanted_settings cfg\<rparr>) else None)"
    using conf_sets_all [of lib "wanted_settings cfg" "kafka_start cfg"]
      conf_sets_Some [of lib "wanted_settings cfg" "kafka_start cfg"] kafka_settings_wanted(3) [of cfg]
    by (cases "conf_sets lib (wanted_settings cfg) (kafka_start cfg)") auto
  have iff: "(\<exists>mgr h' objs'. KafkaMgrCreate lib cfg h objs = Inr (Some mgr, h', objs')) \<longleftrightarrow>
      fst (malloc h) \<and> list_all (\<lambda>(k, v). conf_set_ok lib k v) (wanted_settings cfg)
      \<and> new_ok lib (wanted_settings cfg) \<and> topic_new_ok lib (take 31 (topic cfg))"
    unfolding KafkaMgrCreate_def m Let_def prod.case kafka_settings_wanted(1) six
    by (auto simp: kafka_settings_wanted rd_kafka_conf_destroy_def split: if_splits)
  have owned: "conf_owned (kafka_start cfg)" by (simp add: kafka_start_def)
  have err: "e = DoubleFree \<and> new_takes_conf lib \<and> \<not> topic_new_ok lib (take 31 (topic cfg))"
    if "KafkaMgrCreate lib cfg h objs = Inl e" for e
    using that unfolding KafkaMgrCreate_def m Let_def prod.case kafka_settings_wanted(1) six
    by (auto simp: kafka_settings_wanted rd_kafka_conf_destroy_def owned split: if_splits)
  have made: "conf mgr = wanted_settings cfg \<and> kafkaTopic mgr = take 31 (topic cfg) \<and> rk mgr \<and> rkt mgr"
    if "KafkaMgrCreate lib cfg h objs = Inr (Some mgr, h', objs')" for mgr h' objs'
    using that unfolding KafkaMgrCreate_def m Let_def prod.case kafka_settings_wanted(1) six
    by (auto simp: kafka_settings_wanted rd_kafka_conf_destroy_def split: if_splits)
  show ?thesis
  proof (cases "KafkaMgrCreate lib cfg h objs")
    case (Inl e)
    with iff err u32_str_value [of n] show ?thesis by simp
  next
    case (Inr r)
    obtain res h' objs' where r: "r = (res, h', objs')" by (cases r)
    with Inr KafkaMgrDestroy_created [of lib cfg h objs res h' objs'] made iff u32_str_value [of n] show ?thesis
      by (cases res) simp_all
  qed
qed

text \<open>C19: A message is offered at most three times, again only after the queue was full. It is sent
  exactly when one of these offers is taken; the caller's block is freed here exactly when it was not
  sent, and belongs to the library otherwise.\<close>
theorem KafkaMsgProduce_once:
  "case KafkaMsgProduce res h of (p, h') \<Rightarrow>
     1 \<le> attempts p \<and> attempts p \<le> 3
     \<and> (p_ret p = 0 \<or> p_ret p = - 1)
     \<and> (p_ret p = 0 \<longleftrightarrow> (\<exists>k < 3. res k = Sent \<and> (\<forall>j < k. res j = QueueFull)))
     \<and> (p_ret p = 0 \<longleftrightarrow> res (attempts p - 1) = Sent)
     \<and> (\<forall>j < attempts p - 1. res j = QueueFull)
     \<and> mlive h' = mlive h - (if p_ret p = 0 then 0 else 1)"
proof -
  have u: "produce_retry res 0 =
      (case res 0 of Sent \<Rightarrow> \<lparr>attempts = 1, polls = 1, freed_by_caller = False, p_ret = 0\<rparr>
       | Failed \<Rightarrow> \<lparr>attempts = 1, polls = 0, freed_by_caller = True, p_ret = - 1\<rparr>
       | QueueFull \<Rightarrow>
          (case res 1 of Sent \<Rightarrow> \<lparr>attempts = 2, polls = 2, freed_by_caller = False, p_ret = 0\<rparr>
           | Failed \<Rightarrow> \<lparr>attempts = 2, polls = 1, freed_by_caller = True, p_ret = - 1\<rparr>
           | QueueFull \<Rightarrow>
              (case res 2 of Sent \<Rightarrow> \<lparr>attempts = 3, polls = 3, freed_by_caller = False, p_ret = 0\<rparr>
               | _ \<Rightarrow> \<lparr>attempts = 3, polls = 2, freed_by_caller = True, p_ret = - 1\<rparr>)))"
    by (subst produce_retry.simps, subst produce_retry.simps, subst produce_retry.simps)
      (simp add: RETRY_MAX_def numeral_2_eq_2 split: produce_res.split)
  have ex3: "(\<exists>k < 3. P k) \<longleftrightarrow> P 0 \<or> P 1 \<or> P (2 :: nat)" for P
    by (auto simp: numeral_3_eq_3 numeral_2_eq_2 less_Suc_eq)
  have all1: "(\<forall>j < (1 :: nat). P j) \<longleftrightarrow> P 0" for P by auto
  have all2: "(\<forall>j < (2 :: nat). P j) \<longleftrightarrow> P 0 \<and> P 1" for P
    by (auto simp: numeral_2_eq_2 less_Suc_eq)
  show ?thesis
    unfolding KafkaMsgProduce_def u ex3
    by (cases "res 0"; cases "res (Suc 0)"; cases "res 2") (simp_all add: all2 all1)
qed

theorem KafkaMsgProduce_once_witness:
  "attempts (fst (KafkaMsgProduce (\<lambda>k. if k = 2 then Sent else QueueFull) \<lparr>mscript = [], mlive = 1\<rparr>)) \<le> 3
   \<and> p_ret (fst (KafkaMsgProduce (\<lambda>k. if k = 2 then Sent else QueueFull) \<lparr>mscript = [], mlive = 1\<rparr>)) = 0"
proof -
  let ?res = "\<lambda>k :: nat. if k = 2 then Sent else QueueFull" and ?h = "\<lparr>mscript = [], mlive = 1\<rparr>"
  obtain p h' where e: "KafkaMsgProduce ?res ?h = (p, h')" by (rule prod.exhaust)
  note once = KafkaMsgProduce_once [of ?res ?h, unfolded e prod.case]
  have "\<exists>k < 3. ?res k = Sent \<and> (\<forall>j < k. ?res j = QueueFull)" by (intro exI [of _ 2]) simp
  with once have "p_ret p = 0" by blast
  moreover from once have "attempts p \<le> 3" by blast
  ultimately show ?thesis unfolding e by simp
qed

end
