(* ===== verification/Probe.thy ===== *)
theory Probe
  imports Fifo Config Args
begin

section \<open>Probes compiled into the daemon\<close>

text \<open>
  \<open>lib/probe/probe.c\<close> and \<open>probe.h\<close>: the probes and their manager, and \<open>__wrap_fprintf\<close>, which the
  probes are linked to instead of \<open>fprintf\<close>: it formats a line by itself and puts it into the fifo
  of the probe. The list of probes is fixed by the build and the symbols come from \<open>dlsym\<close>; both are
  parameters, and so is the output of the C library for a \<open>double\<close>. An element of a fifo is the string
  in the block a pointer leads to.
\<close>

subsection \<open>Probes and their manager\<close>

definition MAX_FIFO_SIZE :: u32 where "MAX_FIFO_SIZE = 1024"
definition MAX_DATA_STR_LEN :: nat where "MAX_DATA_STR_LEN = 2048"

record Probe =
  pr_name :: cstr
  metaPath :: cstr
  pr_switch :: ProbeSwitch
  pr_fifo :: "cstr Fifo"
  pr_func :: "cstr option"
  pr_params :: probe_params

record 'p ProbeMgr =
  pm_size :: u32
  probes :: "'p list"

definition zero_params :: probe_params where
  "zero_params = set_default_params\<lparr>period := 0\<rparr>"

definition ProbeCreate :: "int \<Rightarrow> heap \<Rightarrow> Probe option \<times> heap" where
  "ProbeCreate efd h =
     (let (ok, h1) = malloc h in
      if \<not> ok then (None, h1)
      else
        (let (f, h2) = FifoCreate efd MAX_FIFO_SIZE h1 in
         case f of
           None \<Rightarrow> (None, free h2)
         | Some fifo \<Rightarrow> (Some \<lparr>pr_name = [], metaPath = [], pr_switch = PROBE_SWITCH_AUTO, pr_fifo = fifo,
                               pr_func = None, pr_params = zero_params\<rparr>, h2)))"

definition ProbeDestroy :: "Probe option \<Rightarrow> heap \<Rightarrow> heap" where
  "ProbeDestroy probe h =
     (case probe of None \<Rightarrow> h | Some p \<Rightarrow> free (fst (FifoDestroy (Some (pr_fifo p)) h)))"

definition ProbeMgrCreate :: "u32 \<Rightarrow> heap \<Rightarrow> 'p ProbeMgr option \<times> heap" where
  "ProbeMgrCreate sz h =
     (let (ok, h1) = malloc h in
      if \<not> ok then (None, h1)
      else
        (let (ok2, h2) = malloc h1 in
         if \<not> ok2 then (None, free h2) else (Some \<lparr>pm_size = sz, probes = []\<rparr>, h2)))"

definition ProbeMgrDestroy :: "Probe ProbeMgr option \<Rightarrow> heap \<Rightarrow> heap" where
  "ProbeMgrDestroy m h =
     (case m of
        None \<Rightarrow> h
      | Some mgr \<Rightarrow> free (free (foldl (\<lambda>h p. ProbeDestroy (Some p) h) h (probes mgr))))"

definition ProbeMgrPut :: "'p ProbeMgr \<Rightarrow> 'p \<Rightarrow> 'p ProbeMgr \<times> int" where
  "ProbeMgrPut mgr probe =
     (if length (probes mgr) = unat (pm_size mgr) then (mgr, - 1)
      else (mgr\<lparr>probes := probes mgr @ [probe]\<rparr>, 0))"

definition ProbeMgrGet :: "Probe ProbeMgr \<Rightarrow> cstr \<Rightarrow> Probe option" where
  "ProbeMgrGet mgr probeName = List.find (\<lambda>p. pr_name p = probeName) (probes mgr)"

interpretation prb: keyed_registry probes "\<lambda>m. unat (pm_size m)" "\<lambda>_ _. True" ProbeMgrPut pr_name ProbeMgrGet
  by unfold_locales (auto simp: ProbeMgrPut_def ProbeMgrGet_def)

subsection \<open>Loading the probes\<close>

text \<open>\<open>memcpy(probe->name, p, strlen(p))\<close>: a name of 32 characters or more leaves no terminating NUL
  or runs over the array.\<close>

definition copy_str :: "nat \<Rightarrow> cstr \<Rightarrow> cstr c" where
  "copy_str n s = (if length s < n then Inr s else Inl OutOfBounds)"

fun load_names :: "int \<Rightarrow> cstr list \<Rightarrow> Probe ProbeMgr \<Rightarrow> heap \<Rightarrow> (Probe ProbeMgr \<times> heap \<times> int option) c" where
  "load_names efd [] mgr h = Inr (mgr, h, None)"
| "load_names efd (p # ps) mgr h =
     (let (probe, h1) = ProbeCreate efd h in
      case probe of
        None \<Rightarrow> Inr (mgr, h1, Some (- 1))
      | Some pr \<Rightarrow>
          bindc (copy_str MAX_PROBE_NAME_LEN p) (\<lambda>name.
            let (mgr1, ret) = ProbeMgrPut mgr (pr\<lparr>pr_name := name\<rparr>)
            in if ret \<noteq> 0 then Inr (mgr1, h1, Some 0) else load_names efd ps mgr1 h1))"

text \<open>\<open>mgr->probes[count]->metaPath\<close> for more paths than probes goes through a NULL entry, or behind
  the array.\<close>

definition MAX_META_PATH :: nat where "MAX_META_PATH = 2048"

fun load_meta_paths :: "cstr list \<Rightarrow> nat \<Rightarrow> Probe ProbeMgr \<Rightarrow> Probe ProbeMgr c" where
  "load_meta_paths [] count mgr = Inr mgr"
| "load_meta_paths (p # ps) count mgr =
     (if count \<ge> unat (pm_size mgr) then Inl OutOfBounds
      else if count \<ge> length (probes mgr) then Inl NullDeref
      else
        bindc (copy_str MAX_META_PATH p) (\<lambda>path.
          load_meta_paths ps (count + 1)
            (mgr\<lparr>probes := (probes mgr)[count := (probes mgr ! count)\<lparr>metaPath := path\<rparr>]\<rparr>)))"

text \<open>The probes before the first one without a main function get theirs.\<close>

definition probe_main_str :: "Probe \<Rightarrow> cstr" where
  "probe_main_str p = fst (snprintf (MAX_PROBE_NAME_LEN - 1) [] (''probe_main_'' @ pr_name p))"

fun load_funcs :: "(cstr \<Rightarrow> bool) \<Rightarrow> Probe list \<Rightarrow> Probe list \<times> int" where
  "load_funcs dlsym [] = ([], 0)"
| "load_funcs dlsym (p # ps) =
     (if \<not> dlsym (probe_main_str p) then (p # ps, - 1)
      else (let (ps', ret) = load_funcs dlsym ps
            in (p\<lparr>pr_func := Some (probe_main_str p)\<rparr> # ps', ret)))"

definition ProbeMgrLoadProbes ::
    "int \<Rightarrow> cstr \<Rightarrow> cstr \<Rightarrow> bool \<Rightarrow> (cstr \<Rightarrow> bool) \<Rightarrow> Probe ProbeMgr \<Rightarrow> heap \<Rightarrow> (Probe ProbeMgr \<times> heap \<times> int) c" where
  "ProbeMgrLoadProbes efd probesList probesMetaList dlopen_ok dlsym mgr h =
     bindc (load_names efd (strtok_all (CHR '' '') probesList) mgr h) (\<lambda>(mgr1, h1, stop).
       case stop of
         Some ret \<Rightarrow> Inr (mgr1, h1, ret)
       | None \<Rightarrow>
           bindc (load_meta_paths (strtok_all (CHR '' '') probesMetaList) 0 mgr1) (\<lambda>mgr2.
             if \<not> dlopen_ok then Inr (mgr2, h1, - 1)
             else (let (ps, ret) = load_funcs dlsym (probes mgr2)
                   in Inr (mgr2\<lparr>probes := ps\<rparr>, h1, ret))))"

subsection \<open>Numbers\<close>

text \<open>The bits of the flags word.\<close>

record nflags =
  f_ZEROPAD :: bool
  f_SIGN :: bool
  f_PLUS :: bool
  f_SPACE :: bool
  f_LEFT :: bool
  f_SMALL :: bool
  f_SPECIAL :: bool

definition no_flags :: nflags where
  "no_flags = \<lparr>f_ZEROPAD = False, f_SIGN = False, f_PLUS = False, f_SPACE = False, f_LEFT = False,
     f_SMALL = False, f_SPECIAL = False\<rparr>"

definition digit_of :: "bool \<Rightarrow> nat \<Rightarrow> char" where
  "digit_of locase n =
     (if n < 10 then digit_char n else char_of (n - 10 + (if locase then 97 else 65)))"

text \<open>The digits in the order in which they are found, the lowest first.\<close>

fun num_digits :: "bool \<Rightarrow> nat \<Rightarrow> nat \<Rightarrow> cstr" where
  "num_digits locase base num =
     (if num = 0 \<or> base < 2 then []
      else digit_of locase (num mod base) # num_digits locase base (num div base))"

declare num_digits.simps [simp del]

definition number :: "u64 \<Rightarrow> nat \<Rightarrow> int \<Rightarrow> int \<Rightarrow> nflags \<Rightarrow> cstr" where
  "number num base width prec type =
     (let locase = f_SMALL type;
          zeropad = (f_ZEROPAD type \<and> \<not> f_LEFT type);
          c = (if zeropad then CHR ''0'' else CHR '' '');
          (sign, num1, size1) =
            (if f_SIGN type then
               (if sint num < 0 then (''-'', - num, width - 1)
                else if f_PLUS type then (''+'', num, width - 1)
                else if f_SPACE type then ('' '', num, width - 1)
                else ([], num, width))
             else ([], num, width));
          size2 = (if f_SPECIAL type then
                     (if base = 16 then size1 - 2 else if base = 8 then size1 - 1 else size1)
                   else size1);
          tmp = (if num1 = 0 then ''0'' else num_digits locase base (unat num1));
          i = int (length tmp);
          precision = (if i > prec then i else prec);
          size3 = size2 - precision;
          blanks = \<not> zeropad \<and> \<not> f_LEFT type;
          pad1 = (if blanks then replicate (nat size3) (CHR '' '') else []);
          size4 = (if blanks then - 1 else size3);
          special = (if f_SPECIAL type then
                       (if base = 8 then ''0''
                        else if base = 16 then [CHR ''0'', if locase then CHR ''x'' else CHR ''X''] else [])
                     else []);
          pad2 = (if \<not> f_LEFT type then replicate (nat size4) c else []);
          size5 = (if \<not> f_LEFT type then - 1 else size4)
      in pad1 @ sign @ special @ pad2 @ replicate (nat (precision - i)) (CHR ''0'') @ rev tmp
         @ replicate (nat size5) (CHR '' ''))"

lemma num_digits_show: "0 < n \<Longrightarrow> num_digits b 10 n = rev (show_nat n)"
proof (induction n rule: less_induct)
  case (less n)
  show ?case
  proof (cases "n < 10")
    case True
    with less.prems show ?thesis
      by (subst num_digits.simps, subst show_nat.simps) (simp add: digit_of_def num_digits.simps)
  next
    case False
    then have "num_digits b 10 (n div 10) = rev (show_nat (n div 10))" by (intro less.IH) auto
    with False show ?thesis
      by (subst num_digits.simps, subst show_nat.simps) (simp add: digit_of_def)
  qed
qed

lemma number_unsigned: "number num 10 (- 1) (- 1) no_flags = show_nat (unat num)"
proof (cases "num = 0")
  case True
  then show ?thesis by (simp add: number_def no_flags_def show_nat.simps digit_chars)
next
  case False
  then have "0 < unat num" by (simp add: unat_gt_0)
  with False show ?thesis by (simp add: number_def no_flags_def num_digits_show)
qed

lemma uint_nonneg_sint: "0 \<le> sint (w :: u64) \<Longrightarrow> uint w = sint w"
proof -
  assume "0 \<le> sint w"
  moreover have "sint w < 2 ^ 63" using sint_lt [of w] by simp
  moreover have "uint (word_of_int (sint w) :: u64) = sint w mod 2 ^ 64" by (simp only: uint_word_of_int) simp
  ultimately show ?thesis by simp
qed

lemma uint_neg_sint: "sint (w :: u64) < 0 \<Longrightarrow> uint (- w) = - sint w"
proof -
  assume n: "sint w < 0"
  have "- (2 ^ 63) \<le> sint w" using sint_ge [of w] by simp
  moreover have "- w = word_of_int (- sint w)" by (simp add: wi_hom_neg [symmetric])
  moreover have "uint (word_of_int (- sint w) :: u64) = - sint w mod 2 ^ 64" by (simp only: uint_word_of_int) simp
  ultimately show ?thesis using n by simp
qed

lemma number_signed: "number num 10 (- 1) (- 1) (no_flags\<lparr>f_SIGN := True\<rparr>) = show_int (sint num)"
proof (cases "sint num < 0")
  case True
  then have u: "unat (- num) = nat (- sint num)" by (simp add: unat_eq_nat_uint uint_neg_sint)
  then have "0 < unat (- num)" using True by simp
  moreover have "num \<noteq> 0" using True by auto
  ultimately show ?thesis using True u
    by (simp add: number_def no_flags_def num_digits_show show_int_def unat_gt_0)
next
  case False
  then have u: "unat num = nat (sint num)" by (simp add: unat_eq_nat_uint uint_nonneg_sint)
  show ?thesis
  proof (cases "num = 0")
    case True
    then show ?thesis by (simp add: number_def no_flags_def show_int_def show_nat.simps digit_chars)
  next
    case False
    then have "0 < unat num" by (simp add: unat_gt_0)
    with False \<open>\<not> sint num < 0\<close> u show ?thesis
      by (simp add: number_def no_flags_def num_digits_show show_int_def)
  qed
qed

subsection \<open>Formats\<close>

datatype 'f arg = AInt u32 | ALong u64 | AStr "cstr option" | ADouble 'f | APtr u64 | AOut

datatype qualifier = QNone | Qq | Qh | Ql | QL

record 'f pst =
  p_args :: "'f arg list"
  p_out :: cstr
  p_outs :: "int list"

text \<open>Writing at the cursor, inside the block of \<open>MAX_DATA_STR_LEN\<close> bytes.\<close>

definition emit :: "cstr \<Rightarrow> 'f pst \<Rightarrow> 'f pst c" where
  "emit s st =
     (if length (p_out st) + length s > MAX_DATA_STR_LEN then Inl OutOfBounds
      else Inr (st\<lparr>p_out := p_out st @ s\<rparr>))"

fun parse_flags :: "cstr \<Rightarrow> nflags \<Rightarrow> cstr \<times> nflags" where
  "parse_flags [] fl = ([], fl)"
| "parse_flags (ch # cs) fl =
     (if ch = CHR ''-'' then parse_flags cs (fl\<lparr>f_LEFT := True\<rparr>)
      else if ch = CHR ''+'' then parse_flags cs (fl\<lparr>f_PLUS := True\<rparr>)
      else if ch = CHR '' '' then parse_flags cs (fl\<lparr>f_SPACE := True\<rparr>)
      else if ch = CHR ''#'' then parse_flags cs (fl\<lparr>f_SPECIAL := True\<rparr>)
      else if ch = CHR ''0'' then parse_flags cs (fl\<lparr>f_ZEROPAD := True\<rparr>)
      else (ch # cs, fl))"

definition skip_atoi :: "cstr \<Rightarrow> int \<times> cstr" where
  "skip_atoi cs = (int (read_nat (takeWhile is_digit cs)), dropWhile is_digit cs)"

definition starts :: "(char \<Rightarrow> bool) \<Rightarrow> cstr \<Rightarrow> bool" where
  "starts P cs \<longleftrightarrow> cs \<noteq> [] \<and> P (hd cs)"

text \<open>\<open>va_arg(args, int)\<close>\<close>

definition take_int :: "'f arg list \<Rightarrow> (int \<times> 'f arg list) c" where
  "take_int args = (case args of AInt w # as \<Rightarrow> Inr (sint w, as) | _ \<Rightarrow> Inl BadFormat)"

definition parse_width :: "cstr \<Rightarrow> nflags \<Rightarrow> 'f arg list \<Rightarrow> (int \<times> cstr \<times> nflags \<times> 'f arg list) c" where
  "parse_width cs fl args =
     (if starts is_digit cs then (let (w, cs1) = skip_atoi cs in Inr (w, cs1, fl, args))
      else if starts (\<lambda>ch. ch = CHR ''*'') cs then
        bindc (take_int args) (\<lambda>(w, as).
          if w < 0 then Inr (- w, tl cs, fl\<lparr>f_LEFT := True\<rparr>, as) else Inr (w, tl cs, fl, as))
      else Inr (- 1, cs, fl, args))"

definition parse_prec :: "cstr \<Rightarrow> 'f arg list \<Rightarrow> (int \<times> cstr \<times> 'f arg list) c" where
  "parse_prec cs args =
     (if starts (\<lambda>ch. ch = CHR ''.'') cs then
        (let cs1 = tl cs in
         if starts is_digit cs1 then (let (p, cs2) = skip_atoi cs1 in Inr (max p 0, cs2, args))
         else if starts (\<lambda>ch. ch = CHR ''*'') cs1 then
           bindc (take_int args) (\<lambda>(p, as). Inr (max p 0, tl cs1, as))
         else Inr (0, cs1, args))
      else Inr (- 1, cs, args))"

definition parse_qualifier :: "cstr \<Rightarrow> qualifier \<times> cstr" where
  "parse_qualifier cs =
     (if starts (\<lambda>ch. ch = CHR ''l'') cs \<and> starts (\<lambda>ch. ch = CHR ''l'') (tl cs) then (Qq, tl (tl cs))
      else if starts (\<lambda>ch. ch = CHR ''h'') cs then (Qh, tl cs)
      else if starts (\<lambda>ch. ch = CHR ''l'') cs then (Ql, tl cs)
      else if starts (\<lambda>ch. ch = CHR ''L'') cs then (QL, tl cs)
      else (QNone, cs))"

text \<open>Everything between the percent sign and the conversion character.\<close>

record fspec =
  s_flags :: nflags
  s_width :: int
  s_prec :: int
  s_qual :: qualifier

definition parse_spec :: "cstr \<Rightarrow> 'f arg list \<Rightarrow> (fspec \<times> cstr \<times> 'f arg list) c" where
  "parse_spec cs args =
     (let (cs1, fl) = parse_flags cs no_flags in
      bindc (parse_width cs1 fl args) (\<lambda>(w, cs2, fl1, as1).
      bindc (parse_prec cs2 as1) (\<lambda>(p, cs3, as2).
        let (q, cs4) = parse_qualifier cs3
        in Inr (\<lparr>s_flags = fl1, s_width = w, s_prec = p, s_qual = q\<rparr>, cs4, as2))))"

definition blanks :: "int \<Rightarrow> cstr" where
  "blanks n = replicate (nat n) (CHR '' '')"

definition take_num :: "qualifier \<Rightarrow> bool \<Rightarrow> 'f arg list \<Rightarrow> (u64 \<times> 'f arg list) c" where
  "take_num q sg args =
     (if q = Ql \<or> q = Qq then
        (case args of ALong w # as \<Rightarrow> Inr (w, as) | _ \<Rightarrow> Inl BadFormat)
      else
        (case args of
           AInt w # as \<Rightarrow>
             Inr (if q = Qh then (if sg then scast (ucast w :: u16) else ucast (ucast w :: u16))
                  else if sg then scast w else ucast w, as)
         | _ \<Rightarrow> Inl BadFormat))"

definition convert_num :: "fspec \<Rightarrow> nat \<Rightarrow> nflags \<Rightarrow> 'f pst \<Rightarrow> 'f pst c" where
  "convert_num sp base fl st =
     bindc (take_num (s_qual sp) (f_SIGN fl) (p_args st)) (\<lambda>(n, as).
       emit (number n base (s_width sp) (s_prec sp) fl) (st\<lparr>p_args := as\<rparr>))"

definition convert_char :: "fspec \<Rightarrow> 'f pst \<Rightarrow> 'f pst c" where
  "convert_char sp st =
     (case p_args st of
        AInt w # as \<Rightarrow>
          (let pad = blanks (s_width sp - 1); ch = [char_of (unat w mod 256)]
           in emit (if f_LEFT (s_flags sp) then ch @ pad else pad @ ch) (st\<lparr>p_args := as\<rparr>))
      | _ \<Rightarrow> Inl BadFormat)"

definition convert_str :: "fspec \<Rightarrow> 'f pst \<Rightarrow> 'f pst c" where
  "convert_str sp st =
     (case p_args st of
        AStr None # as \<Rightarrow> Inl NullDeref
      | AStr (Some s) # as \<Rightarrow>
          (let t = (if s_prec sp < 0 then s else take (nat (s_prec sp)) s);
               pad = blanks (s_width sp - int (length t))
           in emit (if f_LEFT (s_flags sp) then t @ pad else pad @ t) (st\<lparr>p_args := as\<rparr>))
      | _ \<Rightarrow> Inl BadFormat)"

definition convert_double :: "(cstr \<Rightarrow> 'f \<Rightarrow> cstr) \<Rightarrow> fspec \<Rightarrow> 'f pst \<Rightarrow> 'f pst c" where
  "convert_double ffmt sp st =
     (case p_args st of
        ADouble d # as \<Rightarrow>
          (let buf_format = fst (snprintf 16 []
                 (if s_prec sp > 0 then
                    (if s_width sp > 0 then ''%'' @ show_int (s_width sp) @ ''.'' @ show_int (s_prec sp) @ ''f''
                     else ''%.'' @ show_int (s_prec sp) @ ''f'')
                  else ''%f''))
           in emit (fst (snprintf 64 [] (ffmt buf_format d))) (st\<lparr>p_args := as\<rparr>))
      | _ \<Rightarrow> Inl BadFormat)"

definition convert_ptr :: "fspec \<Rightarrow> 'f pst \<Rightarrow> 'f pst c" where
  "convert_ptr sp st =
     (case p_args st of
        APtr w # as \<Rightarrow>
          (let (width, fl) = (if s_width sp = - 1 then (16, (s_flags sp)\<lparr>f_ZEROPAD := True\<rparr>)
                              else (s_width sp, s_flags sp))
           in emit (number w 16 width (s_prec sp) fl) (st\<lparr>p_args := as\<rparr>))
      | _ \<Rightarrow> Inl BadFormat)"

definition convert_out :: "'f pst \<Rightarrow> 'f pst c" where
  "convert_out st =
     (case p_args st of
        AOut # as \<Rightarrow> Inr (st\<lparr>p_args := as, p_outs := p_outs st @ [int (length (p_out st))]\<rparr>)
      | _ \<Rightarrow> Inl BadFormat)"

definition convert :: "(cstr \<Rightarrow> 'f \<Rightarrow> cstr) \<Rightarrow> fspec \<Rightarrow> char \<Rightarrow> 'f pst \<Rightarrow> 'f pst c" where
  "convert ffmt sp ch st =
     (let fl = s_flags sp in
      if ch = CHR ''c'' then convert_char sp st
      else if ch = CHR ''s'' then convert_str sp st
      else if ch = CHR ''f'' then convert_double ffmt sp st
      else if ch = CHR ''p'' then convert_ptr sp st
      else if ch = CHR ''n'' then convert_out st
      else if ch = CHR ''%'' then emit ''%'' st
      else if ch = CHR ''o'' then convert_num sp 8 fl st
      else if ch = CHR ''x'' then convert_num sp 16 (fl\<lparr>f_SMALL := True\<rparr>) st
      else if ch = CHR ''X'' then convert_num sp 16 fl st
      else if ch = CHR ''d'' \<or> ch = CHR ''i'' then convert_num sp 10 (fl\<lparr>f_SIGN := True\<rparr>) st
      else if ch = CHR ''u'' then convert_num sp 10 fl st
      else emit [CHR ''%'', ch] st)"

lemma parse_flags_length: "parse_flags cs fl = (cs', fl') \<Longrightarrow> length cs' \<le> length cs"
proof (induction cs fl rule: parse_flags.induct)
  case (2 ch cs fl)
  then show ?case by (auto split: if_splits)
qed simp

lemma parse_width_length: "parse_width cs fl args = Inr (w, cs', fl', as) \<Longrightarrow> length cs' \<le> length cs"
  by (auto simp: parse_width_def skip_atoi_def length_dropWhile_le split: if_splits)

lemma parse_prec_length: "parse_prec cs args = Inr (p, cs', as) \<Longrightarrow> length cs' \<le> length cs"
  by (auto simp: parse_prec_def skip_atoi_def Let_def split: if_splits
      intro: le_trans [OF length_dropWhile_le])

lemma parse_qualifier_length: "parse_qualifier cs = (q, cs') \<Longrightarrow> length cs' \<le> length cs"
  by (auto simp: parse_qualifier_def split: if_splits)

lemma parse_spec_length: "parse_spec cs args = Inr (sp, cs', as) \<Longrightarrow> length cs' \<le> length cs"
proof -
  assume run: "parse_spec cs args = Inr (sp, cs', as)"
  obtain cs1 fl where 1: "parse_flags cs no_flags = (cs1, fl)" by force
  from run 1 obtain w cs2 fl1 as1 where 2: "parse_width cs1 fl args = Inr (w, cs2, fl1, as1)"
    by (auto simp: parse_spec_def)
  from run 1 2 obtain p cs3 as2 where 3: "parse_prec cs2 as1 = Inr (p, cs3, as2)"
    by (auto simp: parse_spec_def)
  obtain q cs4 where 4: "parse_qualifier cs3 = (q, cs4)" by force
  from run 1 2 3 4 have "cs' = cs4" by (auto simp: parse_spec_def)
  with parse_flags_length [OF 1] parse_width_length [OF 2] parse_prec_length [OF 3] parse_qualifier_length [OF 4]
  show ?thesis by simp
qed

text \<open>The loop over the format. At the end of the format after a percent sign the sign is printed.\<close>

function fmt_loop :: "(cstr \<Rightarrow> 'f \<Rightarrow> cstr) \<Rightarrow> cstr \<Rightarrow> 'f pst \<Rightarrow> 'f pst c" where
  "fmt_loop ffmt [] st = Inr st"
| "fmt_loop ffmt (ch # cs) st =
     (if ch \<noteq> CHR ''%'' then
        (case emit [ch] st of Inl e \<Rightarrow> Inl e | Inr st1 \<Rightarrow> fmt_loop ffmt cs st1)
      else
        (case parse_spec cs (p_args st) of
           Inl e \<Rightarrow> Inl e
         | Inr (sp, cs1, as) \<Rightarrow>
             (case cs1 of
                [] \<Rightarrow> emit ''%'' (st\<lparr>p_args := as\<rparr>)
              | x # cs2 \<Rightarrow>
                  (case convert ffmt sp x (st\<lparr>p_args := as\<rparr>) of
                     Inl e \<Rightarrow> Inl e
                   | Inr st1 \<Rightarrow> fmt_loop ffmt cs2 st1))))"
  by pat_completeness auto
termination
  by (relation "measure (\<lambda>(_, cs, _). length cs)") (auto dest: parse_spec_length)

declare fmt_loop.simps(2) [simp del]

text \<open>The string in a block is what stands before the first NUL.\<close>

definition c_string :: "cstr \<Rightarrow> cstr" where
  "c_string s = takeWhile (\<lambda>ch. ch \<noteq> CHR 0x00) s"

definition wrap_fprintf ::
    "(cstr \<Rightarrow> 'f \<Rightarrow> cstr) \<Rightarrow> bool \<Rightarrow> cstr \<Rightarrow> 'f arg list \<Rightarrow> cstr Fifo \<Rightarrow> heap \<Rightarrow> (cstr Fifo \<times> heap \<times> int) c" where
  "wrap_fprintf ffmt write_ok format args fifo h =
     (let (ok, h1) = malloc h in
      if \<not> ok then Inr (fifo, h1, - 1)
      else
        bindc (fmt_loop ffmt format \<lparr>p_args = args, p_out = [], p_outs = []\<rparr>) (\<lambda>st.
          if length (p_out st) \<ge> MAX_DATA_STR_LEN then Inl OutOfBounds
          else
            bindc (FifoPut fifo (Some (c_string (p_out st)))) (\<lambda>(fifo1, ret).
              if ret \<noteq> 0 then Inr (fifo1, free h1, - 1)
              else Inr (fifo1, h1, if write_ok then 0 else - 1))))"

subsection \<open>The formats the probes use\<close>

text \<open>Probes print literal text, strings and numbers without flags, width or precision.\<close>

datatype seg = SLit cstr | SStr cstr | SU32 u32 | SD32 u32 | SU64 u64

fun seg_fmt :: "seg \<Rightarrow> cstr" where
  "seg_fmt (SLit s) = s"
| "seg_fmt (SStr s) = ''%s''"
| "seg_fmt (SU32 w) = ''%u''"
| "seg_fmt (SD32 w) = ''%d''"
| "seg_fmt (SU64 w) = ''%llu''"

fun seg_arg :: "seg \<Rightarrow> 'f arg list" where
  "seg_arg (SLit s) = []"
| "seg_arg (SStr s) = [AStr (Some s)]"
| "seg_arg (SU32 w) = [AInt w]"
| "seg_arg (SD32 w) = [AInt w]"
| "seg_arg (SU64 w) = [ALong w]"

fun seg_text :: "seg \<Rightarrow> cstr" where
  "seg_text (SLit s) = s"
| "seg_text (SStr s) = s"
| "seg_text (SU32 w) = show_nat (unat w)"
| "seg_text (SD32 w) = show_int (sint w)"
| "seg_text (SU64 w) = show_nat (unat w)"

fun seg_ok :: "seg \<Rightarrow> bool" where
  "seg_ok (SLit s) \<longleftrightarrow> plain s \<and> CHR 0x00 \<notin> set s"
| "seg_ok (SStr s) \<longleftrightarrow> CHR 0x00 \<notin> set s"
| "seg_ok _ \<longleftrightarrow> True"

definition plain_spec :: "qualifier \<Rightarrow> fspec" where
  "plain_spec q = \<lparr>s_flags = no_flags, s_width = - 1, s_prec = - 1, s_qual = q\<rparr>"

lemma parse_plain: "ch \<in> {CHR ''s'', CHR ''u'', CHR ''d''} \<Longrightarrow> parse_spec (ch # cs) args = Inr (plain_spec QNone, ch # cs, args)"
  unfolding insert_iff empty_iff
  by (elim disjE FalseE; simp only:)
    (simp_all add: parse_spec_def parse_width_def parse_prec_def parse_qualifier_def starts_def is_digit_def
      plain_spec_def Let_def)

lemma parse_llu: "parse_spec (''llu'' @ cs) args = Inr (plain_spec Qq, CHR ''u'' # cs, args)"
  by (simp add: parse_spec_def parse_width_def parse_prec_def parse_qualifier_def starts_def is_digit_def
      plain_spec_def Let_def)

lemma emit_append: "bindc (emit a st) (emit b) = emit (a @ b) st"
  by (auto simp: emit_def)

lemma emit_nil: "length (p_out st) \<le> MAX_DATA_STR_LEN \<Longrightarrow> emit [] st = Inr st"
  by (simp add: emit_def)

lemma case_sum_bindc: "(case m of Inl e \<Rightarrow> Inl e | Inr x \<Rightarrow> f x) = bindc m f"
  by (cases m) simp_all

lemma emit_bound: "emit s st = Inr st' \<Longrightarrow> length (p_out st') \<le> MAX_DATA_STR_LEN"
  by (auto simp: emit_def split: if_splits)

lemma bindc_assoc: "bindc (bindc m f) g = bindc m (\<lambda>x. bindc (f x) g)"
  by (cases m) simp_all

lemma fmt_literal:
  "plain s \<Longrightarrow> length (p_out st) \<le> MAX_DATA_STR_LEN \<Longrightarrow>
     fmt_loop ffmt (s @ cs) st = bindc (emit s st) (fmt_loop ffmt cs)"
proof (induction s arbitrary: st)
  case Nil
  then show ?case by (simp add: emit_nil)
next
  case (Cons ch s)
  have p: "ch \<noteq> CHR ''%''" "plain s" using Cons.prems(1) by (auto simp: plain_def)
  have "fmt_loop ffmt ((ch # s) @ cs) st = bindc (emit [ch] st) (fmt_loop ffmt (s @ cs))"
    using p(1) by (simp add: fmt_loop.simps(2) case_sum_bindc)
  also have "\<dots> = bindc (emit [ch] st) (\<lambda>st1. bindc (emit s st1) (fmt_loop ffmt cs))"
  proof (cases "emit [ch] st")
    case (Inr st1)
    with Cons.IH [OF p(2) emit_bound [OF Inr]] show ?thesis by simp
  qed simp
  also have "\<dots> = bindc (emit (ch # s) st) (fmt_loop ffmt cs)"
    using emit_append [of "[ch]" st s] by (simp add: bindc_assoc [symmetric])
  finally show ?case .
qed

lemma no_flags_SIGN: "f_SIGN no_flags = False" "f_SIGN (no_flags\<lparr>f_SIGN := True\<rparr>)"
  by (simp_all add: no_flags_def)

lemma fmt_seg:
  assumes "seg_ok s" "length (p_out st) \<le> MAX_DATA_STR_LEN" "p_args st = seg_arg s @ rest"
  shows "fmt_loop ffmt (seg_fmt s @ cs) st = bindc (emit (seg_text s) (st\<lparr>p_args := rest\<rparr>)) (fmt_loop ffmt cs)"
proof (cases s)
  case (SLit x)
  then have "st\<lparr>p_args := rest\<rparr> = st" using assms(3) by simp
  with SLit fmt_literal [of x st] assms(1,2) show ?thesis by simp
next
  case (SStr x)
  with assms(3) show ?thesis
    by (simp add: fmt_loop.simps(2) parse_plain convert_def convert_str_def case_sum_bindc)
      (simp add: plain_spec_def no_flags_def blanks_def)
next
  case (SU32 w)
  with assms(3) show ?thesis
    by (simp add: fmt_loop.simps(2) parse_plain convert_def convert_num_def case_sum_bindc)
      (simp add: plain_spec_def take_num_def number_unsigned unat_ucast_u64 no_flags_SIGN)
next
  case (SD32 w)
  with assms(3) show ?thesis
    by (simp add: fmt_loop.simps(2) parse_plain convert_def convert_num_def case_sum_bindc)
      (simp add: plain_spec_def take_num_def number_signed sint_scast_u64 no_flags_SIGN)
next
  case (SU64 w)
  with assms(3) show ?thesis
    using parse_llu [of cs "ALong w # rest"]
    by (simp add: fmt_loop.simps(2) convert_def convert_num_def case_sum_bindc)
      (simp add: plain_spec_def take_num_def number_unsigned no_flags_SIGN)
qed

definition segs_fmt :: "seg list \<Rightarrow> cstr" where "segs_fmt segs = concat (map seg_fmt segs)"
definition segs_args :: "seg list \<Rightarrow> 'f arg list" where "segs_args segs = concat (map seg_arg segs)"
definition segs_text :: "seg list \<Rightarrow> cstr" where "segs_text segs = concat (map seg_text segs)"

lemma fmt_segs:
  "list_all seg_ok segs \<Longrightarrow> length (p_out st) \<le> MAX_DATA_STR_LEN \<Longrightarrow> p_args st = segs_args segs \<Longrightarrow>
     fmt_loop ffmt (segs_fmt segs) st = emit (segs_text segs) (st\<lparr>p_args := []\<rparr>)"
proof (induction segs arbitrary: st)
  case Nil
  then show ?case by (simp add: segs_fmt_def segs_args_def segs_text_def emit_nil)
next
  case (Cons s segs)
  have ok: "seg_ok s" "list_all seg_ok segs" using Cons.prems(1) by simp_all
  let ?st = "st\<lparr>p_args := segs_args segs\<rparr>"
  have "fmt_loop ffmt (segs_fmt (s # segs)) st = bindc (emit (seg_text s) ?st) (fmt_loop ffmt (segs_fmt segs))"
    using fmt_seg [OF ok(1) Cons.prems(2), of "segs_args segs" ffmt "segs_fmt segs"] Cons.prems(3)
    by (simp add: segs_fmt_def segs_args_def)
  also have "\<dots> = bindc (emit (seg_text s) ?st) (\<lambda>st1. emit (segs_text segs) (st1\<lparr>p_args := []\<rparr>))"
  proof (cases "emit (seg_text s) ?st")
    case (Inr st1)
    then have "p_args st1 = segs_args segs" by (auto simp: emit_def split: if_splits)
    with Cons.IH [OF ok(2) emit_bound [OF Inr]] Inr show ?thesis by simp
  qed simp
  also have "\<dots> = emit (segs_text (s # segs)) (st\<lparr>p_args := []\<rparr>)"
    by (simp add: emit_def segs_text_def)
  finally show ?case .
qed

lemma show_int_chars: "ch \<in> set (show_int i) \<Longrightarrow> is_digit ch \<or> ch = CHR ''-''"
  using show_nat_digits by (auto simp: show_int_def split: if_splits)

lemma seg_text_nul: "seg_ok s \<Longrightarrow> CHR 0x00 \<notin> set (seg_text s)"
  using show_nat_digits show_int_chars by (cases s) (fastforce simp: is_digit_def)+

lemma c_string_text: "list_all seg_ok segs \<Longrightarrow> c_string (segs_text segs) = segs_text segs"
  using seg_text_nul by (fastforce simp: c_string_def segs_text_def list_all_iff takeWhile_eq_all_conv)

text \<open>The call, seen as one step: the allocation, the overrun, the full fifo, the stored line.\<close>

lemma wrap_fprintf_run:
  assumes "list_all seg_ok segs"
  shows "wrap_fprintf ffmt write_ok (segs_fmt segs) (segs_args segs) fifo h =
    (let (ok, h1) = malloc h in
     if \<not> ok then Inr (fifo, h1, - 1)
     else if MAX_DATA_STR_LEN \<le> length (segs_text segs) then Inl OutOfBounds
     else bindc (FifoPut fifo (Some (segs_text segs))) (\<lambda>(fifo1, ret).
            if ret \<noteq> 0 then Inr (fifo1, free h1, - 1)
            else Inr (fifo1, h1, if write_ok then 0 else - 1)))"
  using fmt_segs [OF assms, where st = "\<lparr>p_args = segs_args segs, p_out = [], p_outs = []\<rparr>" and ffmt = ffmt]
  by (simp add: wrap_fprintf_def emit_def c_string_text [OF assms] split: prod.splits)

text \<open>C20: A line printed by a probe in literal text, strings and unsigned, signed and 64-bit numbers
  reaches the fifo of the probe as exactly its text when it is shorter than 2048 characters and
  there is room; a full fifo drops it and gives the block back, and nothing else changes. A longer
  line is written past the block.
\<close>

theorem wrap_fprintf_line:
  fixes ffmt :: "cstr \<Rightarrow> 'f \<Rightarrow> cstr"
  assumes ok: "list_all seg_ok segs" and wf: "fifo_wf fifo" and m: "mscript h = []"
  shows "if MAX_DATA_STR_LEN \<le> length (segs_text segs) then
           wrap_fprintf ffmt write_ok (segs_fmt segs) (segs_args segs) fifo h = Inl OutOfBounds
         else if fifo_room fifo = 0 then
           wrap_fprintf ffmt write_ok (segs_fmt segs) (segs_args segs) fifo h = Inr (fifo, h, - 1)
         else
           \<exists>fifo'. wrap_fprintf ffmt write_ok (segs_fmt segs) (segs_args segs) fifo h =
               Inr (fifo', h\<lparr>mlive := mlive h + 1\<rparr>, if write_ok then 0 else - 1)
             \<and> fifo_wf fifo' \<and> fifo_content fifo' = fifo_content fifo @ [Some (segs_text segs)]"
proof (cases "fifo_room fifo = 0")
  case True
  have "free (h\<lparr>mlive := mlive h + 1\<rparr>) = h" by (simp add: free_def)
  with True fq.put_full [OF wf, of "Some (segs_text segs)"] m show ?thesis
    by (simp add: wrap_fprintf_run [OF ok])
next
  case False
  with fq.put_room [OF wf, of "Some (segs_text segs)"] m show ?thesis
    by (auto simp: wrap_fprintf_run [OF ok])
qed

definition example_line :: "seg list" where
  "example_line = [SLit ''|nginx|'', SU32 80, SLit ''|'', SD32 (- 1), SLit ''|\<newline>'']"

definition small_fifo :: "cstr Fifo" where
  "small_fifo = \<lparr>buffer = [None, None], fsize = 2, fin = 0, fout = 0, triggerFd = 3\<rparr>"

lemma small_fifo_ok: "fifo_wf small_fifo" "fifo_room small_fifo = 2" "fifo_content small_fifo = []"
  by (simp_all add: small_fifo_def fifo_wf_def fifo_room_def fifo_content_def fifo_count_def IS_POWER_OF_TWO_def)

theorem wrap_fprintf_line_witness:
  "\<exists>fifo'. wrap_fprintf (\<lambda>f (d :: nat). []) True ''|nginx|%u|%d|\<newline>'' [AInt 80, AInt (- 1)] small_fifo heap0
        = Inr (fifo', heap0\<lparr>mlive := 1\<rparr>, 0)
    \<and> fifo_wf fifo' \<and> fifo_content fifo' = [Some ''|nginx|80|-1|\<newline>'']"
proof -
  have t: "segs_text example_line = ''|nginx|80|-1|\<newline>''"
    by (simp add: segs_text_def example_line_def show_int_def show_nat.simps digit_chars)
  have "list_all seg_ok example_line" by (simp add: example_line_def plain_def)
  from wrap_fprintf_line [OF this small_fifo_ok(1), of heap0 "\<lambda>f (d :: nat). []" True]
  show ?thesis
    by (simp add: t small_fifo_ok MAX_DATA_STR_LEN_def)
      (simp add: segs_fmt_def segs_args_def example_line_def)
qed

subsection \<open>What loading gives\<close>

definition new_probe :: "int \<Rightarrow> cstr \<Rightarrow> Probe" where
  "new_probe efd n = \<lparr>pr_name = n, metaPath = [], pr_switch = PROBE_SWITCH_AUTO,
     pr_fifo = \<lparr>buffer = replicate 1024 None, fsize = MAX_FIFO_SIZE, fin = 0, fout = 0, triggerFd = efd\<rparr>,
     pr_func = None, pr_params = zero_params\<rparr>"

lemma new_probe_fifo: "fifo_wf (pr_fifo (new_probe efd n))" "fifo_content (pr_fifo (new_probe efd n)) = []"
  by (simp_all add: new_probe_def fifo_wf_def fifo_content_def fifo_count_def IS_POWER_OF_TWO_def MAX_FIFO_SIZE_def)

lemma FifoCreate_1024:
  "mscript h = [] \<Longrightarrow> efd \<noteq> - 1 \<Longrightarrow> FifoCreate efd MAX_FIFO_SIZE h =
     (Some \<lparr>buffer = replicate 1024 None, fsize = MAX_FIFO_SIZE, fin = 0, fout = 0, triggerFd = efd\<rparr>,
      h\<lparr>mlive := mlive h + 2\<rparr>)"
  by (simp add: FifoCreate_def IS_POWER_OF_TWO_def MAX_FIFO_SIZE_def)

lemma ProbeCreate_new:
  "mscript h = [] \<Longrightarrow> efd \<noteq> - 1 \<Longrightarrow> ProbeCreate efd h = (Some (new_probe efd []), h\<lparr>mlive := mlive h + 3\<rparr>)"
  by (simp add: ProbeCreate_def FifoCreate_1024 new_probe_def)

lemma load_names_run:
  assumes "mscript h = []" "efd \<noteq> - 1" "list_all (\<lambda>n. length n < MAX_PROBE_NAME_LEN) names"
    "length (probes mgr) \<le> unat (pm_size mgr)"
  shows "load_names efd names mgr h =
    (let room = unat (pm_size mgr) - length (probes mgr) in
     Inr (mgr\<lparr>probes := probes mgr @ map (new_probe efd) (take room names)\<rparr>,
          h\<lparr>mlive := mlive h + 3 * int (min (length names) (room + 1))\<rparr>,
          if length names \<le> room then None else Some 0))"
  using assms
proof (induction names arbitrary: mgr h)
  case (Cons n names)
  let ?mgr = "mgr\<lparr>probes := probes mgr @ [new_probe efd n]\<rparr>" and ?h = "h\<lparr>mlive := mlive h + 3\<rparr>"
  have new: "new_probe efd [] \<lparr>pr_name := n\<rparr> = new_probe efd n" by (simp add: new_probe_def)
  show ?case
  proof (cases "length (probes mgr) = unat (pm_size mgr)")
    case True
    with Cons.prems new show ?thesis by (simp add: ProbeCreate_new copy_str_def ProbeMgrPut_def)
  next
    case False
    then obtain r where r: "unat (pm_size mgr) - length (probes mgr) = Suc r"
      using Cons.prems(4) by (metis Suc_diff_Suc le_neq_implies_less)
    have step: "load_names efd (n # names) mgr h = load_names efd names ?mgr ?h"
      using False Cons.prems new by (simp add: ProbeCreate_new copy_str_def ProbeMgrPut_def)
    have r': "unat (pm_size ?mgr) - length (probes ?mgr) = r" using r by simp
    have "load_names efd names ?mgr ?h = Inr (?mgr\<lparr>probes := probes ?mgr @ map (new_probe efd) (take r names)\<rparr>,
        ?h\<lparr>mlive := mlive ?h + 3 * int (min (length names) (r + 1))\<rparr>, if length names \<le> r then None else Some 0)"
      using Cons.IH [of ?h ?mgr] Cons.prems False r' by (simp add: Let_def)
    with step r show ?thesis by (simp add: Let_def)
  qed
qed simp

definition with_paths :: "cstr list \<Rightarrow> Probe list \<Rightarrow> Probe list" where
  "with_paths paths ps = map2 (\<lambda>p path. p\<lparr>metaPath := path\<rparr>) ps paths @ drop (length paths) ps"

lemma load_meta_paths_run:
  assumes "list_all (\<lambda>p. length p < MAX_META_PATH) paths" "length pre + length paths \<le> length (pre @ ps)"
    "probes mgr = pre @ ps" "length (pre @ ps) \<le> unat (pm_size mgr)"
  shows "load_meta_paths paths (length pre) mgr = Inr (mgr\<lparr>probes := pre @ with_paths paths ps\<rparr>)"
  using assms
proof (induction paths arbitrary: pre ps mgr)
  case Nil
  then show ?case by (simp add: with_paths_def)
next
  case (Cons path paths)
  then obtain p ps' where ps: "ps = p # ps'" by (cases ps) auto
  let ?p = "p\<lparr>metaPath := path\<rparr>"
  let ?mgr = "mgr\<lparr>probes := (pre @ [?p]) @ ps'\<rparr>"
  have "load_meta_paths (path # paths) (length pre) mgr = load_meta_paths paths (length (pre @ [?p])) ?mgr"
    using Cons.prems ps by (simp add: copy_str_def nth_append)
  also have "\<dots> = Inr (?mgr\<lparr>probes := (pre @ [?p]) @ with_paths paths ps'\<rparr>)"
    using Cons.prems ps by (intro Cons.IH) simp_all
  finally show ?case using ps by (simp add: with_paths_def)
qed

lemma with_paths_fields:
  assumes "length paths \<le> length ps"
  shows "length (with_paths paths ps) = length ps"
    "map pr_name (with_paths paths ps) = map pr_name ps"
    "map pr_fifo (with_paths paths ps) = map pr_fifo ps"
    "map metaPath (with_paths paths ps) = paths @ drop (length paths) (map metaPath ps)"
  using assms
  by (simp_all add: with_paths_def list_eq_iff_nth_eq nth_append split: nat.splits)

lemma load_funcs_all:
  "list_all (\<lambda>p. dlsym (probe_main_str p)) ps \<Longrightarrow>
     load_funcs dlsym ps = (map (\<lambda>p. p\<lparr>pr_func := Some (probe_main_str p)\<rparr>) ps, 0)"
  by (induction ps) auto

definition main_name :: "cstr \<Rightarrow> cstr" where
  "main_name n = fst (snprintf (MAX_PROBE_NAME_LEN - 1) [] (''probe_main_'' @ n))"

text \<open>C21: Loading the probes of the build puts one probe with an empty fifo for each name into the
  manager, in the order of the list, with its path and its main function, and a probe is then found
  exactly by the names of the list. When the manager has too few places the load still returns 0:
  the first names fill it, no path and no function is set, and the probe that found no place is not
  given back.
\<close>

theorem ProbeMgrLoadProbes_names:
  assumes names: "names = strtok_all (CHR '' '') probesList" "list_all (\<lambda>n. length n < MAX_PROBE_NAME_LEN) names"
    and paths: "paths = strtok_all (CHR '' '') probesMetaList" "list_all (\<lambda>p. length p < MAX_META_PATH) paths"
      "length paths \<le> length names"
    and env: "mscript h = []" "efd \<noteq> - 1" "probes mgr = []" "list_all (\<lambda>n. dlsym (main_name n)) names"
  shows "\<exists>mgr' h'. ProbeMgrLoadProbes efd probesList probesMetaList True dlsym mgr h = Inr (mgr', h', 0)
    \<and> map pr_name (probes mgr') = take (unat (pm_size mgr)) names
    \<and> (\<forall>n. ProbeMgrGet mgr' n = None \<longleftrightarrow> n \<notin> set (take (unat (pm_size mgr)) names))
    \<and> map (fifo_content \<circ> pr_fifo) (probes mgr') = map (\<lambda>_. []) (probes mgr')
    \<and> (if length names \<le> unat (pm_size mgr) then
         map metaPath (probes mgr') = paths @ replicate (length names - length paths) []
         \<and> map pr_func (probes mgr') = map (Some \<circ> main_name) names
         \<and> mlive h' = mlive h + 3 * int (length names)
       else
         map metaPath (probes mgr') = map (\<lambda>_. []) (probes mgr')
         \<and> map pr_func (probes mgr') = map (\<lambda>_. None) (probes mgr')
         \<and> mlive h' = mlive h + 3 * int (unat (pm_size mgr) + 1))"
proof (cases "length names \<le> unat (pm_size mgr)")
  case False
  let ?ps = "map (new_probe efd) (take (unat (pm_size mgr)) names)"
  have "load_names efd names mgr h =
      Inr (mgr\<lparr>probes := ?ps\<rparr>, h\<lparr>mlive := mlive h + 3 * int (unat (pm_size mgr) + 1)\<rparr>, Some 0)"
    using load_names_run [OF env(1,2) names(2), of mgr] env(3) False by simp
  then have "ProbeMgrLoadProbes efd probesList probesMetaList True dlsym mgr h =
      Inr (mgr\<lparr>probes := ?ps\<rparr>, h\<lparr>mlive := mlive h + 3 * int (unat (pm_size mgr) + 1)\<rparr>, 0)"
    by (simp add: ProbeMgrLoadProbes_def names(1) [symmetric])
  with False show ?thesis
    by (simp add: prb.look_None image_image new_probe_fifo) (simp add: new_probe_def comp_def)
next
  case True
  let ?ps = "with_paths paths (map (new_probe efd) names)"
  let ?qs = "map (\<lambda>p. p\<lparr>pr_func := Some (probe_main_str p)\<rparr>) ?ps"
  note wp = with_paths_fields [where paths = paths and ps = "map (new_probe efd) names"]
  have nm: "map pr_name ?ps = names" using paths(3) wp(2) by (simp add: comp_def new_probe_def)
  have fn: "map probe_main_str ?ps = map main_name names"
    using nm by (metis (no_types, lifting) list.map_comp map_eq_conv comp_apply probe_main_str_def main_name_def)
  have "load_names efd names mgr h =
      Inr (mgr\<lparr>probes := map (new_probe efd) names\<rparr>, h\<lparr>mlive := mlive h + 3 * int (length names)\<rparr>, None)"
    using load_names_run [OF env(1,2) names(2), of mgr] env(3) True by simp
  moreover have "load_meta_paths paths 0 (mgr\<lparr>probes := map (new_probe efd) names\<rparr>) = Inr (mgr\<lparr>probes := ?ps\<rparr>)"
    using load_meta_paths_run [OF paths(2), of "[]" "map (new_probe efd) names"] paths(3) True by simp
  moreover have "load_funcs dlsym ?ps = (?qs, 0)"
  proof (rule load_funcs_all)
    have "list_all dlsym (map probe_main_str ?ps)" using env(4) fn by (simp add: list_all_iff)
    then show "list_all (\<lambda>p. dlsym (probe_main_str p)) ?ps" by (simp add: list_all_iff)
  qed
  ultimately have run: "ProbeMgrLoadProbes efd probesList probesMetaList True dlsym mgr h =
      Inr (mgr\<lparr>probes := ?qs\<rparr>, h\<lparr>mlive := mlive h + 3 * int (length names)\<rparr>, 0)"
    by (simp add: ProbeMgrLoadProbes_def names(1) [symmetric] paths(1) [symmetric])
  have q: "map pr_name ?qs = names" "map pr_func ?qs = map (Some \<circ> main_name) names"
    "map metaPath ?qs = paths @ replicate (length names - length paths) []"
    "map pr_fifo ?qs = map pr_fifo (map (new_probe efd) names)"
    using nm arg_cong [OF fn, of "map Some"] paths(3) wp(3,4)
    by (simp_all add: comp_def drop_map [symmetric] new_probe_def map_replicate_const)
  have c: "map (fifo_content \<circ> pr_fifo) ?qs = map (\<lambda>_. []) ?qs"
    using arg_cong [OF q(4), of "map fifo_content"] paths(3) wp(1) by (simp add: comp_def new_probe_fifo map_replicate_const)
  obtain qs where qs: "qs = ?qs" by simp
  have "\<forall>n. ProbeMgrGet (mgr\<lparr>probes := qs\<rparr>) n = None \<longleftrightarrow> n \<notin> set names"
    using arg_cong [OF q(1), of set] by (simp add: prb.look_None qs [symmetric])
  then show ?thesis using run True q(1-3) c unfolding qs [symmetric] by simp
qed

theorem ProbeMgrLoadProbes_names_witness:
  "\<exists>mgr' h'. ProbeMgrLoadProbes 3 ''event virt'' ''/e.meta'' True (\<lambda>s. True) \<lparr>pm_size = 1, probes = []\<rparr> heap0
        = Inr (mgr', h', 0)
    \<and> map pr_name (probes mgr') = [''event''] \<and> map pr_func (probes mgr') = [None] \<and> mlive h' = 6"
proof -
  have t: "strtok_all (CHR '' '') ''event virt'' = [''event'', ''virt'']"
    "strtok_all (CHR '' '') ''/e.meta'' = [''/e.meta'']" by code_simp+
  show ?thesis
    using ProbeMgrLoadProbes_names [of "[''event'', ''virt'']" "''event virt''" "[''/e.meta'']" "''/e.meta''"
        heap0 3 "\<lparr>pm_size = 1, probes = []\<rparr>" "\<lambda>s. True"]
    by (auto simp: t MAX_PROBE_NAME_LEN_def MAX_META_PATH_def)
qed

end
