(* ===== verification/ExtendProbe.thy ===== *)
theory ExtendProbe
  imports Probe
begin

section \<open>Probes that are programs of their own\<close>

text \<open>
  \<open>lib/probe/extend_probe.c\<close> and \<open>extend_probe.h\<close>: a probe that is a command started with
  \<open>popen\<close>, whose output is cut into lines and put into the fifo of the probe. The output of the command
  and the results of \<open>write\<close> are given; the consumer takes nothing while a run lasts.
\<close>

subsection \<open>Probes and their manager\<close>

record ExtendProbe =
  xp_name :: cstr
  executeCommand :: cstr
  executeParam :: cstr
  startChkCmd :: cstr
  chkType :: ProbeStartCheckType
  probeSwitch :: ProbeSwitch
  xp_fifo :: "cstr Fifo"
  is_running :: bool

type_synonym ExtendProbeMgr = "ExtendProbe ProbeMgr"

definition MAX_COMMAND_LEN :: nat where "MAX_COMMAND_LEN = 1024"

definition ExtendProbeCreate :: "int \<Rightarrow> heap \<Rightarrow> ExtendProbe option \<times> heap" where
  "ExtendProbeCreate efd h =
     (let (ok, h1) = malloc h in
      if \<not> ok then (None, h1)
      else
        (let (f, h2) = FifoCreate efd MAX_FIFO_SIZE h1 in
         case f of
           None \<Rightarrow> (None, free h2)
         | Some fifo \<Rightarrow> (Some \<lparr>xp_name = [], executeCommand = [], executeParam = [], startChkCmd = [],
                               chkType = PROBE_CHK_CNT, probeSwitch = PROBE_SWITCH_AUTO, xp_fifo = fifo,
                               is_running = False\<rparr>, h2)))"

definition ExtendProbeDestroy :: "ExtendProbe option \<Rightarrow> heap \<Rightarrow> heap" where
  "ExtendProbeDestroy probe h =
     (case probe of None \<Rightarrow> h | Some p \<Rightarrow> free (fst (FifoDestroy (Some (xp_fifo p)) h)))"

definition ExtendProbeMgrCreate :: "u32 \<Rightarrow> heap \<Rightarrow> ExtendProbeMgr option \<times> heap" where
  "ExtendProbeMgrCreate sz h =
     (let (ok, h1) = malloc h in
      if \<not> ok then (None, h1)
      else
        (let (ok2, h2) = malloc h1 in
         if \<not> ok2 then (None, free h2) else (Some \<lparr>pm_size = sz, probes = []\<rparr>, h2)))"

definition ExtendProbeMgrDestroy :: "ExtendProbeMgr option \<Rightarrow> heap \<Rightarrow> heap" where
  "ExtendProbeMgrDestroy m h =
     (case m of
        None \<Rightarrow> h
      | Some mgr \<Rightarrow> free (free (foldl (\<lambda>h p. ExtendProbeDestroy (Some p) h) h (probes mgr))))"

definition ExtendProbeMgrPut :: "ExtendProbeMgr \<Rightarrow> ExtendProbe \<Rightarrow> ExtendProbeMgr \<times> int" where
  "ExtendProbeMgrPut mgr probe =
     (if length (probes mgr) = unat (pm_size mgr) then (mgr, - 1)
      else (mgr\<lparr>probes := probes mgr @ [probe]\<rparr>, 0))"

definition ExtendProbeMgrGet :: "ExtendProbeMgr \<Rightarrow> cstr \<Rightarrow> ExtendProbe option" where
  "ExtendProbeMgrGet mgr probeName = List.find (\<lambda>p. xp_name p = probeName) (probes mgr)"

interpretation xprb: keyed_registry probes "\<lambda>m. unat (pm_size m)" "\<lambda>_ _. True" ExtendProbeMgrPut xp_name
    ExtendProbeMgrGet
  by unfold_locales (auto simp: ExtendProbeMgrPut_def ExtendProbeMgrGet_def)

subsection \<open>Starting the command\<close>

text \<open>
  What the coming calls of \<open>popen\<close> return: NULL, a stream that is at its end or broken, or a stream
  with some text. A stream of the second kind is closed and the command is started again, without end.
\<close>

datatype popen_res = PNull | PBad | PText cstr

definition ext_command :: "ExtendProbe \<Rightarrow> cstr" where
  "ext_command probe =
     fst (snprintf (MAX_COMMAND_LEN - 1) [] (executeCommand probe @ '' '' @ executeParam probe))"

fun DoRunExtProbe :: "popen_res list \<Rightarrow> cstr c option" where
  "DoRunExtProbe [] = None"
| "DoRunExtProbe (PNull # ps) = Some (Inl NullDeref)"
| "DoRunExtProbe (PBad # ps) = DoRunExtProbe ps"
| "DoRunExtProbe (PText s # ps) = Some (Inr s)"

subsection \<open>Reading its output\<close>

text \<open>The pieces \<open>fgets\<close> returns: up to the end of a line, or \<open>n - 1\<close> characters.\<close>

function fgets_chunks :: "nat \<Rightarrow> cstr \<Rightarrow> cstr list" where
  "fgets_chunks n s =
     (if s = [] \<or> n < 2 then []
      else
        (let line = takeWhile (\<lambda>ch. ch \<noteq> CHR 0x0A) s;
             piece = take (min (n - 1) (length line + 1)) s
         in piece # fgets_chunks n (drop (length piece) s)))"
  by pat_completeness auto
termination by (relation "measure (\<lambda>(_, s). length s)") (auto simp: Let_def)

declare fgets_chunks.simps [simp del]

text \<open>
  \<open>dataStr\<close> is NULL, a block with the characters written so far, or a block that is in the fifo
  already: this is left behind when \<open>write\<close> fails, and the next access is an access to a block
  that belongs to the consumer.
\<close>

datatype data_str = NoStr | Own cstr | Shared

record ext_run =
  x_fifo :: "cstr Fifo"
  x_data :: data_str
  x_writes :: "bool list"
  x_heap :: heap

definition ext_alloc :: "ext_run \<Rightarrow> bool \<times> ext_run" where
  "ext_alloc st =
     (if x_data st = NoStr then
        (let (ok, h) = malloc (x_heap st)
         in (ok, st\<lparr>x_data := (if ok then Own [] else NoStr), x_heap := h\<rparr>))
      else (True, st))"

text \<open>A newline ends the string; the second component says whether the loop over the piece goes on.\<close>

definition ext_line_end :: "cstr \<Rightarrow> ext_run \<Rightarrow> (ext_run \<times> bool) c" where
  "ext_line_end s st =
     bindc (FifoPut (x_fifo st) (Some s)) (\<lambda>(fifo, ret).
       if ret \<noteq> 0 then
         Inr (st\<lparr>x_fifo := fifo, x_data := NoStr, x_heap := free (x_heap st)\<rparr>, False)
       else
         (let w = (case x_writes st of [] \<Rightarrow> True | b # bs \<Rightarrow> b);
              st1 = st\<lparr>x_fifo := fifo, x_writes := tl (x_writes st)\<rparr>
          in if \<not> w then Inr (st1\<lparr>x_data := Shared\<rparr>, False) else Inr (st1\<lparr>x_data := NoStr\<rparr>, True)))"

fun ext_chars :: "cstr \<Rightarrow> ext_run \<Rightarrow> ext_run c" where
  "ext_chars [] st = Inr st"
| "ext_chars (ch # cs) st =
     (let (ok, st1) = ext_alloc st in
      if \<not> ok then Inr st1
      else
        (case x_data st1 of
           NoStr \<Rightarrow> Inl NullDeref
         | Shared \<Rightarrow> Inl UseAfterFree
         | Own s \<Rightarrow>
             if length s \<ge> MAX_DATA_STR_LEN then Inl OutOfBounds
             else if ch = CHR 0x0A then
               bindc (ext_line_end s st1) (\<lambda>(st2, go). if go then ext_chars cs st2 else Inr st2)
             else ext_chars cs (st1\<lparr>x_data := Own (s @ [ch])\<rparr>)))"

definition ext_piece :: "cstr \<Rightarrow> ext_run \<Rightarrow> ext_run c" where
  "ext_piece piece st =
     (let buf = c_string piece in
      if \<not> starts (\<lambda>ch. ch = CHR ''|'') buf then Inr st
      else if length buf \<ge> MAX_DATA_STR_LEN then Inr st
      else ext_chars buf st)"

definition RunExtendProbe ::
    "(cstr \<Rightarrow> popen_res list) \<Rightarrow> ExtendProbe \<Rightarrow> bool list \<Rightarrow> heap \<Rightarrow> (cstr Fifo \<times> data_str \<times> heap \<times> int) c option" where
  "RunExtendProbe popen probe writes h =
     map_option (\<lambda>f. bindc f (\<lambda>out.
         bindc (foldc ext_piece (fgets_chunks MAX_DATA_STR_LEN out)
             \<lparr>x_fifo = xp_fifo probe, x_data = NoStr, x_writes = writes, x_heap = h\<rparr>)
           (\<lambda>st. Inr (x_fifo st, x_data st, x_heap st, 0))))
       (DoRunExtProbe (popen (ext_command probe)))"

subsection \<open>Output in lines\<close>

definition line_ok :: "cstr \<Rightarrow> bool" where
  "line_ok l \<longleftrightarrow> CHR 0x0A \<notin> set l \<and> CHR 0x00 \<notin> set l \<and> length l < MAX_DATA_STR_LEN - 1"

definition lines_text :: "cstr list \<Rightarrow> cstr" where
  "lines_text ls = concat (map (\<lambda>l. l @ [CHR 0x0A]) ls)"

lemma fgets_line:
  assumes "CHR 0x0A \<notin> set l" "length l + 1 < n"
  shows "fgets_chunks n (l @ [CHR 0x0A] @ s) = (l @ [CHR 0x0A]) # fgets_chunks n s"
proof -
  have "takeWhile (\<lambda>ch. ch \<noteq> CHR 0x0A) (l @ [CHR 0x0A] @ s) = l"
    using assms(1) by (subst takeWhile_append2) auto
  then show ?thesis using assms(2) by (subst fgets_chunks.simps) (simp add: Let_def)
qed

lemma fgets_lines: "list_all line_ok ls \<Longrightarrow>
    fgets_chunks MAX_DATA_STR_LEN (lines_text ls) = map (\<lambda>l. l @ [CHR 0x0A]) ls"
proof (induction ls)
  case Nil
  then show ?case by (simp add: lines_text_def fgets_chunks.simps)
next
  case (Cons l ls)
  then have "fgets_chunks MAX_DATA_STR_LEN (l @ [CHR 0x0A] @ lines_text ls)
      = (l @ [CHR 0x0A]) # fgets_chunks MAX_DATA_STR_LEN (lines_text ls)"
    by (intro fgets_line) (auto simp: line_ok_def)
  with Cons show ?case by (simp add: lines_text_def)
qed

lemma ext_chars_own:
  "CHR 0x0A \<notin> set cs \<Longrightarrow> x_data st = Own s \<Longrightarrow> length s + length cs \<le> MAX_DATA_STR_LEN \<Longrightarrow>
     ext_chars (cs @ ds) st = ext_chars ds (st\<lparr>x_data := Own (s @ cs)\<rparr>)"
proof (induction cs arbitrary: s st)
  case (Cons c cs)
  then show ?case by (auto simp: ext_alloc_def)
next
  case Nil
  then have "st\<lparr>x_data := Own s\<rparr> = st" by (cases st) simp
  then show ?case by simp
qed

lemma ext_chars_line:
  assumes "line_ok l" "x_data st = NoStr" "mscript (x_heap st) = []"
  shows "ext_chars (l @ [CHR 0x0A]) st =
    bindc (ext_line_end l (st\<lparr>x_data := Own l, x_heap := (x_heap st)\<lparr>mlive := mlive (x_heap st) + 1\<rparr>\<rparr>))
      (\<lambda>(st2, go). Inr st2)"
proof -
  let ?st = "st\<lparr>x_data := Own [], x_heap := (x_heap st)\<lparr>mlive := mlive (x_heap st) + 1\<rparr>\<rparr>"
  have "ext_chars (l @ [CHR 0x0A]) st = ext_chars (l @ [CHR 0x0A]) ?st"
    using assms(2,3) by (cases l) (simp_all add: ext_alloc_def)
  also have "\<dots> = ext_chars [CHR 0x0A] (?st\<lparr>x_data := Own l\<rparr>)"
    using assms(1) ext_chars_own [of l ?st "[]" "[CHR 0x0A]"] by (simp add: line_ok_def MAX_DATA_STR_LEN_def del: ext_chars.simps)
  also have "\<dots> = bindc (ext_line_end l (?st\<lparr>x_data := Own l\<rparr>)) (\<lambda>(st2, go). Inr st2)"
    using assms(1) by (simp add: ext_alloc_def line_ok_def MAX_DATA_STR_LEN_def split_def Let_def cong: if_cong)
  finally show ?thesis by (cases st) simp
qed

text \<open>
  One line, seen from outside: ignored, stored or dropped.
\<close>

lemma ext_piece_line:
  assumes "line_ok l" "x_data st = NoStr" "mscript (x_heap st) = []" "x_writes st = []" "fifo_wf (x_fifo st)"
  shows "\<exists>fifo. ext_piece (l @ [CHR 0x0A]) st =
      Inr (st\<lparr>x_fifo := fifo, x_heap := (x_heap st)\<lparr>mlive := mlive (x_heap st)
             + (if starts (\<lambda>ch. ch = CHR ''|'') l \<and> 0 < fifo_room (x_fifo st) then 1 else 0)\<rparr>\<rparr>)
    \<and> fifo_wf fifo
    \<and> fifo_content fifo = fifo_content (x_fifo st)
        @ (if starts (\<lambda>ch. ch = CHR ''|'') l \<and> 0 < fifo_room (x_fifo st) then [Some l] else [])
    \<and> fifo_room fifo = fifo_room (x_fifo st) - (if starts (\<lambda>ch. ch = CHR ''|'') l then 1 else 0)"
proof -
  have c: "c_string (l @ [CHR 0x0A]) = l @ [CHR 0x0A]"
    using assms(1) by (auto simp: c_string_def line_ok_def takeWhile_eq_all_conv)
  have s: "starts (\<lambda>ch. ch = CHR ''|'') (l @ [CHR 0x0A]) = starts (\<lambda>ch. ch = CHR ''|'') l"
    by (cases l) (simp_all add: starts_def)
  have len: "Suc (length l) < MAX_DATA_STR_LEN" using assms(1) by (simp add: line_ok_def MAX_DATA_STR_LEN_def)
  show ?thesis
  proof (cases "starts (\<lambda>ch. ch = CHR ''|'') l")
    case False
    with assms s show ?thesis by (intro exI [of _ "x_fifo st"]) (simp add: ext_piece_def c)
  next
    case True
    then have run: "ext_piece (l @ [CHR 0x0A]) st =
      bindc (ext_line_end l (st\<lparr>x_data := Own l, x_heap := (x_heap st)\<lparr>mlive := mlive (x_heap st) + 1\<rparr>\<rparr>))
        (\<lambda>(st2, go). Inr st2)"
      using s len ext_chars_line [OF assms(1-3)] by (simp add: ext_piece_def c)
    show ?thesis
    proof (cases rule: fq.put_cases [OF assms(5), of "Some l"])
      case (1 q')
      with True run assms(2,4) show ?thesis
        by (intro exI [of _ q'], cases st) (simp add: ext_line_end_def)
    next
      case 2
      have "st\<lparr>x_data := NoStr\<rparr> = st" using assms(2) by (cases st) simp
      with 2 True run assms(5) show ?thesis
        by (intro exI [of _ "x_fifo st"]) (simp add: ext_line_end_def free_def)
    qed
  qed
qed

definition probe_lines :: "cstr list \<Rightarrow> cstr list" where
  "probe_lines ls = filter (starts (\<lambda>ch. ch = CHR ''|'')) ls"

lemma ext_lines:
  assumes "list_all line_ok ls" "x_data st = NoStr" "mscript (x_heap st) = []" "x_writes st = []"
    "fifo_wf (x_fifo st)"
  shows "\<exists>fifo. foldc ext_piece (map (\<lambda>l. l @ [CHR 0x0A]) ls) st =
      Inr (st\<lparr>x_fifo := fifo, x_heap := (x_heap st)\<lparr>mlive := mlive (x_heap st)
             + int (min (fifo_room (x_fifo st)) (length (probe_lines ls)))\<rparr>\<rparr>)
    \<and> fifo_wf fifo
    \<and> fifo_content fifo = fifo_content (x_fifo st)
        @ map Some (take (fifo_room (x_fifo st)) (probe_lines ls))"
  using assms
proof (induction ls arbitrary: st)
  case Nil
  then show ?case by (intro exI [of _ "x_fifo st"]) (simp add: probe_lines_def)
next
  case (Cons l ls)
  let ?room = "fifo_room (x_fifo st)" and ?pipe = "starts (\<lambda>ch. ch = CHR ''|'') l"
  let ?inc = "if ?pipe \<and> 0 < ?room then 1 else (0 :: int)"
  obtain f1 where f1: "ext_piece (l @ [CHR 0x0A]) st =
      Inr (st\<lparr>x_fifo := f1, x_heap := (x_heap st)\<lparr>mlive := mlive (x_heap st) + ?inc\<rparr>\<rparr>)"
    "fifo_wf f1" "fifo_content f1 = fifo_content (x_fifo st) @ (if ?pipe \<and> 0 < ?room then [Some l] else [])"
    "fifo_room f1 = ?room - (if ?pipe then 1 else 0)"
    using ext_piece_line [of l st] Cons.prems by auto
  let ?st = "st\<lparr>x_fifo := f1, x_heap := (x_heap st)\<lparr>mlive := mlive (x_heap st) + ?inc\<rparr>\<rparr>"
  obtain f2 where f2: "foldc ext_piece (map (\<lambda>l. l @ [CHR 0x0A]) ls) ?st =
      Inr (?st\<lparr>x_fifo := f2, x_heap := (x_heap ?st)\<lparr>mlive := mlive (x_heap ?st)
             + int (min (fifo_room f1) (length (probe_lines ls)))\<rparr>\<rparr>)"
    "fifo_wf f2" "fifo_content f2 = fifo_content f1 @ map Some (take (fifo_room f1) (probe_lines ls))"
    using Cons.IH [of ?st] Cons.prems f1(2) by auto
  have inc: "?inc + int (min (fifo_room f1) (length (probe_lines ls)))
      = int (min ?room (length (probe_lines (l # ls))))"
    using f1(4) by (auto simp: probe_lines_def)
  have cont: "fifo_content f2 = fifo_content (x_fifo st) @ map Some (take ?room (probe_lines (l # ls)))"
    using f1(3,4) f2(3) by (cases "?room") (auto simp: probe_lines_def)
  show ?case
    using f1(1) f2(1,2) cont inc by (intro exI [of _ f2]) (simp add: add.assoc)
qed

lemma RunExtendProbe_run:
  assumes "list_all line_ok ls" and "fifo_wf (xp_fifo probe)" and "mscript h = []"
    and "popen (ext_command probe) = replicate k PBad @ [PText (lines_text ls)]"
  shows "\<exists>fifo. RunExtendProbe popen probe [] h =
      Some (Inr (fifo, NoStr, h\<lparr>mlive := mlive h + int (min (fifo_room (xp_fifo probe)) (length (probe_lines ls)))\<rparr>, 0))
    \<and> fifo_wf fifo
    \<and> fifo_content fifo = fifo_content (xp_fifo probe)
        @ map Some (take (fifo_room (xp_fifo probe)) (probe_lines ls))"
proof -
  have "DoRunExtProbe (replicate k PBad @ [PText s]) = Some (Inr s)" for s by (induction k) auto
  moreover obtain fifo where
    "foldc ext_piece (map (\<lambda>l. l @ [CHR 0x0A]) ls) \<lparr>x_fifo = xp_fifo probe, x_data = NoStr, x_writes = [], x_heap = h\<rparr> =
      Inr \<lparr>x_fifo = fifo, x_data = NoStr, x_writes = [], x_heap = h\<lparr>mlive := mlive h
             + int (min (fifo_room (xp_fifo probe)) (length (probe_lines ls)))\<rparr>\<rparr>"
    "fifo_wf fifo"
    "fifo_content fifo = fifo_content (xp_fifo probe) @ map Some (take (fifo_room (xp_fifo probe)) (probe_lines ls))"
    using ext_lines [OF assms(1), of "\<lparr>x_fifo = xp_fifo probe, x_data = NoStr, x_writes = [], x_heap = h\<rparr>"] assms(2,3)
    by auto
  ultimately show ?thesis
    using assms(1,4) by (simp add: RunExtendProbe_def fgets_lines)
qed

text \<open>C22: When the command prints lines shorter than 2047 characters, the lines that begin with a bar
  reach the fifo of the probe in order and without their newline, as many as there is room for, and
  each of them is one block; every other line is dropped and its block given back. A command whose
  stream is at its end is started again until it has output.
\<close>

theorem RunExtendProbe_lines:
  assumes "list_all line_ok ls" and "fifo_wf (xp_fifo probe)" and "mscript h = []"
    and "popen (ext_command probe) = replicate k PBad @ [PText (lines_text ls)]"
  shows "\<exists>fifo. RunExtendProbe popen probe [] h =
      Some (Inr (fifo, NoStr, h\<lparr>mlive := mlive h + int (min (fifo_room (xp_fifo probe)) (length (probe_lines ls)))\<rparr>, 0))
    \<and> fifo_wf fifo
    \<and> fifo_content fifo = fifo_content (xp_fifo probe)
        @ map Some (take (fifo_room (xp_fifo probe)) (probe_lines ls))"
  using assms by (rule RunExtendProbe_run)

definition example_ext :: ExtendProbe where
  "example_ext = \<lparr>xp_name = ''ls'', executeCommand = ''ls'', executeParam = ''-l'', startChkCmd = [],
     chkType = PROBE_CHK_CNT, probeSwitch = PROBE_SWITCH_ON, xp_fifo = small_fifo, is_running = False\<rparr>"

definition example_out :: "cstr list" where
  "example_out = [''warning'', ''|tcp|1|'', ''|tcp|2|'', ''|tcp|3|'']"

theorem RunExtendProbe_lines_witness:
  "\<exists>fifo. RunExtendProbe (\<lambda>cmd. if cmd = ''ls -l'' then [PBad, PText (lines_text example_out)] else []) example_ext []
        heap0 = Some (Inr (fifo, NoStr, heap0\<lparr>mlive := 2\<rparr>, 0))
    \<and> fifo_content fifo = [Some ''|tcp|1|'', Some ''|tcp|2|'']"
proof -
  have c: "ext_command example_ext = ''ls -l''"
    by (simp add: ext_command_def example_ext_def snprintf_def MAX_COMMAND_LEN_def)
  have "list_all line_ok example_out" by (simp add: example_out_def line_ok_def MAX_DATA_STR_LEN_def)
  moreover have "fifo_wf (xp_fifo example_ext)" by (simp add: example_ext_def small_fifo_ok)
  ultimately show ?thesis
    using RunExtendProbe_lines [of example_out example_ext heap0
        "\<lambda>cmd. if cmd = ''ls -l'' then [PBad, PText (lines_text example_out)] else []" 1] c
    by (simp add: example_ext_def small_fifo_ok example_out_def probe_lines_def starts_def) blast
qed

lemma fgets_long:
  assumes "CHR 0x0A \<notin> set a" "length a = n - 1" "2 \<le> n" "s \<noteq> []"
  shows "fgets_chunks n (a @ s) = a # fgets_chunks n s"
proof -
  have "length (takeWhile (\<lambda>ch. ch \<noteq> CHR 0x0A) (a @ s)) \<ge> length a"
    using assms(1) by (induction a) auto
  then have "take (min (n - 1) (length (takeWhile (\<lambda>ch. ch \<noteq> CHR 0x0A) (a @ s)) + 1)) (a @ s) = a"
    using assms(2) by (simp add: min_def)
  moreover have "\<not> (a @ s = [] \<or> n < 2)" using assms(3,4) by simp
  ultimately show ?thesis by (subst fgets_chunks.simps) (simp only: Let_def if_False append_eq_conv_conj, simp)
qed

text \<open>C23: A line of at least 2047 characters comes in two pieces and the second one, when it does not
  begin with a bar, is ignored: the block stays open with 2047 characters, and any further line of
  a probe is written past its end.
\<close>

theorem RunExtendProbe_overrun:
  assumes "length a = 2047" "hd a = CHR ''|''" "CHR 0x0A \<notin> set a" "CHR 0x00 \<notin> set a"
    and "line_ok b" "\<not> starts (\<lambda>ch. ch = CHR ''|'') (b @ [CHR 0x0A])"
    and "line_ok l" "1 < length l" "hd l = CHR ''|''"
    and "mscript h = []" "popen (ext_command probe) = [PText (lines_text [a @ b, l])]"
  shows "RunExtendProbe popen probe [] h = Some (Inl OutOfBounds)"
proof -
  have n: "MAX_DATA_STR_LEN = 2048" by (simp add: MAX_DATA_STR_LEN_def)
  let ?st = "\<lparr>x_fifo = xp_fifo probe, x_data = NoStr, x_writes = [], x_heap = h\<rparr>"
  have chunks: "fgets_chunks MAX_DATA_STR_LEN (lines_text [a @ b, l]) = [a, b @ [CHR 0x0A], l @ [CHR 0x0A]]"
    using fgets_long [of a MAX_DATA_STR_LEN "lines_text [b, l]"] assms(1,3) fgets_lines [of "[b, l]"] assms(5,7)
    by (simp add: lines_text_def n)
  have cs: "c_string a = a" "c_string (b @ [CHR 0x0A]) = b @ [CHR 0x0A]" "c_string (l @ [CHR 0x0A]) = l @ [CHR 0x0A]"
    using assms(4,5,7) by (auto simp: c_string_def line_ok_def takeWhile_eq_all_conv)
  let ?own = "?st\<lparr>x_data := Own a, x_heap := h\<lparr>mlive := mlive h + 1\<rparr>\<rparr>"
  have "ext_chars a ?st = ext_chars a (?st\<lparr>x_data := Own [], x_heap := h\<lparr>mlive := mlive h + 1\<rparr>\<rparr>)"
    using assms(1,10) by (cases a) (simp_all add: ext_alloc_def)
  also have "\<dots> = Inr ?own"
    using ext_chars_own [of a "?st\<lparr>x_data := Own [], x_heap := h\<lparr>mlive := mlive h + 1\<rparr>\<rparr>" "[]" "[]"] assms(1,3) n by simp
  finally have 1: "ext_piece a ?st = Inr ?own"
    using assms(1,2) cs(1) n by (auto simp: ext_piece_def starts_def)
  have 2: "ext_piece (b @ [CHR 0x0A]) ?own = Inr ?own" using assms(6) cs(2) by (simp add: ext_piece_def)
  obtain c d l' where l: "l = c # d # l'" using assms(8) by (cases l rule: list.exhaust; cases "tl l") auto
  then have "c \<noteq> CHR 0x0A" "c = CHR ''|''" "d \<noteq> CHR 0x0A" "length l' < 2045"
    using assms(7,9) by (auto simp: line_ok_def n)
  then have 3: "ext_piece (l @ [CHR 0x0A]) ?own = Inl OutOfBounds"
    using cs(3) l assms(1) by (simp add: ext_piece_def starts_def ext_alloc_def n)
  show ?thesis using 1 2 3 assms(11) by (simp add: RunExtendProbe_def chunks)
qed

theorem RunExtendProbe_overrun_witness:
  "RunExtendProbe (\<lambda>cmd. [PText (lines_text [(CHR ''|'' # replicate 2046 (CHR ''x'')) @ ''yz'', ''|tcp|1|''])])
     example_ext [] heap0 = Some (Inl OutOfBounds)"
  by (rule RunExtendProbe_overrun [where a = "CHR ''|'' # replicate 2046 (CHR ''x'')" and b = "''yz''" and l = "''|tcp|1|''"])
    (simp_all add: line_ok_def starts_def MAX_DATA_STR_LEN_def)

end
