(* ===== verification/Egress.thy ===== *)
theory Egress
  imports Kafka Probe
begin

section \<open>The thread that sends to Kafka\<close>

text \<open>
  \<open>egress/egress.c\<close> and \<open>egress.h\<close>: the thread waits for its eventfd, takes every string out of its fifo
  and gives it to the Kafka producer. What \<open>epoll\<close>, \<open>read\<close> and the producer answer is given. The loop
  over the events is the same in the ingress thread, so it is defined here once, over what a
  \<open>data.ptr\<close> stands for.
\<close>

subsection \<open>Waiting for events\<close>

definition MAX_EPOLL_EVENTS_NUM :: nat where "MAX_EPOLL_EVENTS_NUM = 512"

text \<open>An event: whether its mask is \<open>EPOLLIN\<close>, its pointer, and whether the \<open>read\<close> of the eventfd works.\<close>

record 'p epoll_event =
  is_epollin :: bool
  data_ptr :: "'p option"
  read_ok :: bool

datatype 'p epoll_res = Waited "'p epoll_event list" | WaitFailed bool

fun epoll_loop :: "('p \<Rightarrow> bool \<Rightarrow> 's \<Rightarrow> ('s \<times> int) c option) \<Rightarrow> 'p epoll_event list \<Rightarrow> 's \<Rightarrow> ('s \<times> int) c option" where
  "epoll_loop input [] s = Some (Inr (s, 0))"
| "epoll_loop input (ev # evs) s =
     (if \<not> is_epollin ev then epoll_loop input evs s
      else
        (case data_ptr ev of
           None \<Rightarrow> epoll_loop input evs s
         | Some p \<Rightarrow>
             (case input p (read_ok ev) s of
                None \<Rightarrow> None
              | Some (Inl e) \<Rightarrow> Some (Inl e)
              | Some (Inr (s1, ret)) \<Rightarrow> if ret \<noteq> 0 then Some (Inr (s1, - 1)) else epoll_loop input evs s1)))"

text \<open>The endless loop of a thread, over the results of as many calls of \<open>epoll_wait\<close>.\<close>

fun epoll_main :: "('w \<Rightarrow> 's \<Rightarrow> ('s \<times> int) c option) \<Rightarrow> 'w list \<Rightarrow> 's \<Rightarrow> ('s \<times> int) c option" where
  "epoll_main process [] s = Some (Inr (s, 0))"
| "epoll_main process (w # ws) s =
     (case process w s of
        None \<Rightarrow> None
      | Some (Inl e) \<Rightarrow> Some (Inl e)
      | Some (Inr (s1, ret)) \<Rightarrow> if ret \<noteq> 0 then Some (Inr (s1, ret)) else epoll_main process ws s1)"

subsection \<open>The operations\<close>

record EgressMgr =
  eg_kafkaMgr :: "KafkaMgr option"
  egm_interval :: u32
  egm_timeRange :: u32
  eg_fifo :: "cstr Fifo"
  eg_epoll_fd :: int

definition EgressMgrCreate :: "int \<Rightarrow> heap \<Rightarrow> EgressMgr option \<times> heap" where
  "EgressMgrCreate efd h =
     (let (ok, h1) = malloc h in
      if \<not> ok then (None, h1)
      else
        (let (f, h2) = FifoCreate efd MAX_FIFO_SIZE h1 in
         case f of
           None \<Rightarrow> (None, free h2)
         | Some fifo \<Rightarrow> (Some \<lparr>eg_kafkaMgr = None, egm_interval = 0, egm_timeRange = 0, eg_fifo = fifo,
                               eg_epoll_fd = 0\<rparr>, h2)))"

definition EgressMgrDestroy :: "EgressMgr option \<Rightarrow> heap \<Rightarrow> heap" where
  "EgressMgrDestroy m h =
     (case m of None \<Rightarrow> h | Some mgr \<Rightarrow> free (fst (FifoDestroy (Some (eg_fifo mgr)) h)))"

definition EgressInit :: "int \<Rightarrow> int \<Rightarrow> EgressMgr \<Rightarrow> EgressMgr \<times> int" where
  "EgressInit epfd ctl mgr =
     (let mgr1 = mgr\<lparr>eg_epoll_fd := epfd\<rparr>
      in if epfd < 0 then (mgr1, - 1) else if ctl < 0 then (mgr1, - 1) else (mgr1, 0))"

text \<open>
  The state of the thread: the manager, the strings the producer took, in order, the number of
  messages offered, and the heap. \<open>res i k\<close> is the answer of the producer to attempt \<open>k\<close> at message \<open>i\<close>.
\<close>

record egress_run =
  er_mgr :: EgressMgr
  er_sent :: "cstr list"
  er_count :: nat
  er_heap :: heap

definition egress_body :: "(nat \<Rightarrow> nat \<Rightarrow> produce_res) \<Rightarrow> cstr option \<Rightarrow> egress_run \<Rightarrow> egress_run c" where
  "egress_body res dataStr st =
     (case eg_kafkaMgr (er_mgr st) of
        None \<Rightarrow> Inr st
      | Some kafkaMgr \<Rightarrow>
          (case dataStr of
             None \<Rightarrow> Inl NullDeref
           | Some s \<Rightarrow>
               (let (p, h) = KafkaMsgProduce (res (er_count st)) (er_heap st)
                in Inr (st\<lparr>er_count := er_count st + 1, er_heap := h,
                          er_sent := er_sent st @ (if p_ret p = 0 then [s] else [])\<rparr>))))"

text \<open>The loop over the fifo has fuel for one round more than the fifo has slots.\<close>

definition EgressDataProcesssInput ::
    "(nat \<Rightarrow> nat \<Rightarrow> produce_res) \<Rightarrow> bool \<Rightarrow> egress_run \<Rightarrow> (egress_run \<times> int) c option" where
  "EgressDataProcesssInput res ok st =
     (if \<not> ok then Some (Inr (st, - 1))
      else
        map_option (\<lambda>r. bindc r (\<lambda>(fifo, st1). Inr (st1\<lparr>er_mgr := (er_mgr st1)\<lparr>eg_fifo := fifo\<rparr>\<rparr>, 0)))
          (drain (unat (fsize (eg_fifo (er_mgr st))) + 1) FifoGet (egress_body res) (eg_fifo (er_mgr st)) None st))"

definition EgressDataProcess ::
    "(nat \<Rightarrow> nat \<Rightarrow> produce_res) \<Rightarrow> unit epoll_res \<Rightarrow> egress_run \<Rightarrow> (egress_run \<times> int) c option" where
  "EgressDataProcess res w st =
     (case w of
        WaitFailed eintr \<Rightarrow> Some (Inr (st, if eintr then 0 else - 1))
      | Waited evs \<Rightarrow>
          epoll_loop (\<lambda>_ ok. EgressDataProcesssInput res ok) (take MAX_EPOLL_EVENTS_NUM evs) st)"

definition EgressMain ::
    "(nat \<Rightarrow> nat \<Rightarrow> produce_res) \<Rightarrow> int \<Rightarrow> int \<Rightarrow> unit epoll_res list \<Rightarrow> egress_run \<Rightarrow> (egress_run \<times> int) c option" where
  "EgressMain res epfd ctl ws st =
     (let (mgr, ret) = EgressInit epfd ctl (er_mgr st); st1 = st\<lparr>er_mgr := mgr\<rparr>
      in if ret \<noteq> 0 then Some (Inr (st1, ret)) else epoll_main (EgressDataProcess res) ws st1)"

subsection \<open>One round\<close>

definition taken :: "(nat \<Rightarrow> produce_res) \<Rightarrow> bool" where
  "taken r \<longleftrightarrow> p_ret (produce_retry r 0) = 0"

lemma produce_freed: "freed_by_caller (produce_retry r i) \<longleftrightarrow> p_ret (produce_retry r i) \<noteq> 0"
  by (induction r i rule: produce_retry.induct) (subst (1 2) produce_retry.simps, auto split: produce_res.splits)

lemma produce_eq: "KafkaMsgProduce r h = (produce_retry r 0, if taken r then h else free h)"
  by (simp add: KafkaMsgProduce_def Let_def produce_freed taken_def)

text \<open>The messages from number \<open>n\<close> on that the producer takes.\<close>

fun taken_from :: "(nat \<Rightarrow> nat \<Rightarrow> produce_res) \<Rightarrow> nat \<Rightarrow> 'a list \<Rightarrow> 'a list" where
  "taken_from res n [] = []"
| "taken_from res n (m # ms) = (if taken (res n) then [m] else []) @ taken_from res (n + 1) ms"

lemma taken_from_length: "length (taken_from res n ms) \<le> length ms"
  by (induction ms arbitrary: n) (auto intro: le_SucI)

lemma egress_fold:
  assumes "eg_kafkaMgr (er_mgr st) = Some k"
  shows "\<exists>h. foldc (egress_body res) (map Some ms) st =
      Inr (st\<lparr>er_count := er_count st + length ms, er_heap := h, er_sent := er_sent st @ taken_from res (er_count st) ms\<rparr>)
    \<and> mlive h = mlive (er_heap st) - int (length ms) + int (length (taken_from res (er_count st) ms))
    \<and> mscript h = mscript (er_heap st)"
  using assms
proof (induction ms arbitrary: st)
  case Nil
  then show ?case by (intro exI [of _ "er_heap st"]) simp
next
  case (Cons m ms)
  let ?st = "st\<lparr>er_count := er_count st + 1,
      er_heap := (if taken (res (er_count st)) then er_heap st else free (er_heap st)),
      er_sent := er_sent st @ (if taken (res (er_count st)) then [m] else [])\<rparr>"
  have "egress_body res (Some m) st = Inr ?st"
    using Cons.prems by (simp add: egress_body_def produce_eq taken_def Let_def)
  moreover obtain h where "foldc (egress_body res) (map Some ms) ?st =
      Inr (?st\<lparr>er_count := er_count ?st + length ms, er_heap := h, er_sent := er_sent ?st @ taken_from res (er_count ?st) ms\<rparr>)"
    "mlive h = mlive (er_heap ?st) - int (length ms) + int (length (taken_from res (er_count ?st) ms))"
    "mscript h = mscript (er_heap ?st)"
    using Cons.IH [of ?st] Cons.prems by auto
  ultimately show ?case by (intro exI [of _ h]) auto
qed

lemma egress_fold_idle:
  "eg_kafkaMgr (er_mgr st) = None \<Longrightarrow> foldc (egress_body res) ms st = Inr st"
  by (induction ms) (simp_all add: egress_body_def)

lemma fifo_fuel: "fifo_wf f \<Longrightarrow> length (fifo_content f) < unat (fsize f) + 1"
  by (simp add: fifo_wf_def)

lemma Egress_run:
  assumes wf: "fifo_wf (eg_fifo (er_mgr st))" and ms: "fifo_content (eg_fifo (er_mgr st)) = map Some ms"
  shows "\<exists>st'. EgressDataProcesssInput res True st = Some (Inr (st', 0))
    \<and> fifo_wf (eg_fifo (er_mgr st')) \<and> fifo_content (eg_fifo (er_mgr st')) = []
    \<and> (if eg_kafkaMgr (er_mgr st) = None then er_sent st' = er_sent st \<and> er_heap st' = er_heap st
       else er_sent st' = er_sent st @ taken_from res (er_count st) ms
         \<and> mlive (er_heap st') + int (length ms) = mlive (er_heap st) + int (length (taken_from res (er_count st) ms)))"
proof (cases "eg_kafkaMgr (er_mgr st)")
  case None
  with fq.drain_content [OF wf fifo_fuel [OF wf], where body = "egress_body res" and s = st and x = None] show ?thesis
    by (auto simp: egress_fold_idle EgressDataProcesssInput_def)
next
  case (Some k)
  then obtain h where h: "foldc (egress_body res) (map Some ms) st =
      Inr (st\<lparr>er_count := er_count st + length ms, er_heap := h, er_sent := er_sent st @ taken_from res (er_count st) ms\<rparr>)"
    "mlive h = mlive (er_heap st) - int (length ms) + int (length (taken_from res (er_count st) ms))"
    using egress_fold by blast
  with fq.drain_content [OF wf fifo_fuel [OF wf], where body = "egress_body res" and s = st and x = None] Some show ?thesis
    by (auto simp: EgressDataProcesssInput_def ms)
qed

text \<open>C24: When the eventfd of the egress fires, the thread empties its fifo in a bounded number of
  rounds and gives the strings to the producer in order; each block then either belongs to the
  producer or is freed. Without a producer the strings are taken out all the same and lost: nothing
  is sent and none of the blocks is freed.
\<close>

theorem EgressInput_empties:
  assumes wf: "fifo_wf (eg_fifo (er_mgr st))" and ms: "fifo_content (eg_fifo (er_mgr st)) = map Some ms"
  shows "\<exists>st'. EgressDataProcesssInput res True st = Some (Inr (st', 0))
    \<and> fifo_wf (eg_fifo (er_mgr st')) \<and> fifo_content (eg_fifo (er_mgr st')) = []
    \<and> (if eg_kafkaMgr (er_mgr st) = None then er_sent st' = er_sent st \<and> er_heap st' = er_heap st
       else er_sent st' = er_sent st @ taken_from res (er_count st) ms
         \<and> mlive (er_heap st') + int (length ms) = mlive (er_heap st) + int (length (taken_from res (er_count st) ms)))"
  by (rule Egress_run [OF assms])

definition example_egress :: egress_run where
  "example_egress = \<lparr>er_mgr = \<lparr>eg_kafkaMgr = None, egm_interval = 0, egm_timeRange = 0,
     eg_fifo = \<lparr>buffer = [Some ''a'', Some ''b''], fsize = 2, fin = 2, fout = 0, triggerFd = 3\<rparr>, eg_epoll_fd = 4\<rparr>,
     er_sent = [], er_count = 0, er_heap = \<lparr>mscript = [], mlive = 2\<rparr>\<rparr>"

theorem EgressInput_empties_witness:
  "\<exists>st'. EgressDataProcesssInput (\<lambda>_ _. Sent) True example_egress = Some (Inr (st', 0))
    \<and> er_sent st' = [] \<and> mlive (er_heap st') = 2 \<and> fifo_content (eg_fifo (er_mgr st')) = []"
proof -
  have "fifo_wf (eg_fifo (er_mgr example_egress))"
    by (simp add: example_egress_def fifo_wf_def fifo_count_def IS_POWER_OF_TWO_def)
  moreover have "fifo_content (eg_fifo (er_mgr example_egress)) = map Some [''a'', ''b'']"
    by (simp add: example_egress_def fifo_content_def fifo_count_def fifo_index_def upt_rec)
  ultimately show ?thesis
    using EgressInput_empties [of example_egress "[''a'', ''b'']" "\<lambda>_ _. Sent"]
    by (auto simp: example_egress_def)
qed

end
