(* ===== verification/Ingress.thy ===== *)
theory Ingress
  imports Egress ExtendProbe ImdbJson
begin

section \<open>The thread that reads the probes\<close>

text \<open>
  \<open>ingress/ingress.c\<close> and \<open>ingress.h\<close>: the thread waits for the eventfds of all probes, takes the strings out
  of the fifo of the probe that fired, stores each in the database and hands its JSON text to the
  egress thread. The pointers \<open>fifoMgr\<close> and \<open>mmMgr\<close> of the manager are never read and left out.
\<close>

subsection \<open>The operations\<close>

record 'h IngressMgr =
  ig_probeMgr :: "Probe ProbeMgr"
  ig_extendProbeMgr :: ExtendProbeMgr
  ig_imdbMgr :: "'h IMDB_DataBaseMgr"
  ig_egressMgr :: "EgressMgr option"
  ig_epoll_fd :: int

definition IngressMgrCreate :: "heap \<Rightarrow> bool \<times> heap" where
  "IngressMgrCreate h = malloc h"

definition IngressMgrDestroy :: "'h IngressMgr option \<Rightarrow> heap \<Rightarrow> heap" where
  "IngressMgrDestroy m h = (case m of None \<Rightarrow> h | Some mgr \<Rightarrow> free h)"

text \<open>The fifo a \<open>data.ptr\<close> leads to.\<close>

datatype fifo_ref = PFifo nat | XFifo nat

fun get_fifo :: "'h IngressMgr \<Rightarrow> fifo_ref \<Rightarrow> cstr Fifo" where
  "get_fifo mgr (PFifo i) = pr_fifo (probes (ig_probeMgr mgr) ! i)"
| "get_fifo mgr (XFifo i) = xp_fifo (probes (ig_extendProbeMgr mgr) ! i)"

fun set_fifo :: "'h IngressMgr \<Rightarrow> fifo_ref \<Rightarrow> cstr Fifo \<Rightarrow> 'h IngressMgr" where
  "set_fifo mgr (PFifo i) f = mgr\<lparr>ig_probeMgr := (ig_probeMgr mgr)\<lparr>probes :=
     (probes (ig_probeMgr mgr))[i := (probes (ig_probeMgr mgr) ! i)\<lparr>pr_fifo := f\<rparr>]\<rparr>\<rparr>"
| "set_fifo mgr (XFifo i) f = mgr\<lparr>ig_extendProbeMgr := (ig_extendProbeMgr mgr)\<lparr>probes :=
     (probes (ig_extendProbeMgr mgr))[i := (probes (ig_extendProbeMgr mgr) ! i)\<lparr>xp_fifo := f\<rparr>]\<rparr>\<rparr>"

text \<open>
  \<open>epfd\<close> is the result of \<open>epoll_create\<close>. The result of \<open>epoll_ctl\<close> goes into an unsigned variable, so
  the test for a negative value never holds: every fifo counts as registered.
\<close>

definition IngressInit :: "int \<Rightarrow> 'h IngressMgr \<Rightarrow> 'h IngressMgr \<times> fifo_ref list \<times> int" where
  "IngressInit epfd mgr =
     (let mgr1 = mgr\<lparr>ig_epoll_fd := epfd\<rparr>
      in if epfd < 0 then (mgr1, [], - 1)
         else (mgr1, map PFifo [0..<length (probes (ig_probeMgr mgr))]
                     @ map XFifo [0..<length (probes (ig_extendProbeMgr mgr))], 0))"

text \<open>
  What the environment answers: the hash table library, the time at each of the two calls for message
  \<open>i\<close>, and whether the write to the eventfd of the egress works.
\<close>

record 'h ingress_env =
  ie_uh :: "'h uthash"
  ie_now :: "nat \<Rightarrow> int"
  ie_write :: "nat \<Rightarrow> bool"

record 'h ingress_run =
  ir_mgr :: "'h IngressMgr"
  ir_count :: nat
  ir_heap :: heap

definition IngressData2Egress ::
    "'h ingress_env \<Rightarrow> nat \<Rightarrow> IMDB_Record option \<Rightarrow> cstr \<Rightarrow> 'h ingress_run \<Rightarrow> ('h ingress_run \<times> int) c" where
  "IngressData2Egress env ti rec dataStr st =
     (let mgr = ir_mgr st; i = ir_count st; (ok, h1) = malloc (ir_heap st) in
      bindc (IMDB_Rec2Json (ie_now env (2 * i + 1)) (ig_imdbMgr mgr) (tables (ig_imdbMgr mgr) ! ti) rec dataStr ok
               (int MAX_DATA_STR_LEN) h1) (\<lambda>(json, h2, ret).
        if ret \<noteq> 0 then Inr (st\<lparr>ir_heap := (if ok then free h2 else h2)\<rparr>, - 1)
        else
          (case ig_egressMgr mgr of
             None \<Rightarrow> Inl NullDeref
           | Some eg \<Rightarrow>
               bindc (FifoPut (eg_fifo eg) (if ok then Some json else None)) (\<lambda>(fifo, ret1).
                 if ret1 \<noteq> 0 then Inr (st\<lparr>ir_heap := (if ok then free h2 else h2)\<rparr>, - 1)
                 else Inr (st\<lparr>ir_mgr := mgr\<lparr>ig_egressMgr := Some (eg\<lparr>eg_fifo := fifo\<rparr>)\<rparr>, ir_heap := h2\<rparr>,
                           if ie_write env i then 0 else - 1)))))"

definition GetTableNameAndContent :: "cstr \<Rightarrow> nat \<Rightarrow> (cstr \<times> cstr) option" where
  "GetTableNameAndContent buf sz =
     (if \<not> starts (\<lambda>ch. ch = CHR ''|'') buf then None
      else
        (let p1 = tl buf; name = takeWhile (\<lambda>ch. ch \<noteq> CHR ''|'') p1; p2 = dropWhile (\<lambda>ch. ch \<noteq> CHR ''|'') p1
         in if p2 = [] then None
            else if name = [] then None
            else if length name \<ge> sz then None
            else Some (name, p2)))"

text \<open>The body of the loop up to the label \<open>next\<close>: the result of \<open>IngressData2Egress\<close> is only logged.\<close>

definition ingress_send ::
    "'h ingress_env \<Rightarrow> nat \<Rightarrow> IMDB_Record option \<Rightarrow> cstr \<Rightarrow> 'h ingress_run \<Rightarrow> 'h ingress_run c" where
  "ingress_send env ti rec content st =
     (case ig_egressMgr (ir_mgr st) of
        None \<Rightarrow> Inr st
      | Some eg \<Rightarrow>
          if eg_kafkaMgr eg = None then Inr st
          else bindc (IngressData2Egress env ti rec content st) (\<lambda>(st1, ret). Inr st1))"

definition ingress_line :: "'h ingress_env \<Rightarrow> cstr \<Rightarrow> 'h ingress_run \<Rightarrow> 'h ingress_run c" where
  "ingress_line env dataStr st =
     (case GetTableNameAndContent dataStr MAX_IMDB_TABLE_NAME_LEN of
        None \<Rightarrow> Inr st
      | Some (tblName, content) \<Rightarrow>
          (let mgr = ir_mgr st; imdb = ig_imdbMgr mgr in
           case IMDB_DataBaseMgrFindTable imdb tblName of
             None \<Rightarrow> Inr st
           | Some ti \<Rightarrow>
               if recordKeySize (tables imdb ! ti) > 0 \<and> webServerOn imdb \<noteq> 0 then
                 bindc (IMDB_DataBaseMgrCreateRec (ie_uh env) (ie_now env (2 * ir_count st)) imdb ti content (ir_heap st))
                   (\<lambda>(imdb1, rec, h1).
                     let st1 = st\<lparr>ir_mgr := mgr\<lparr>ig_imdbMgr := imdb1\<rparr>, ir_heap := h1\<rparr>
                     in if rec = None then Inr st1 else ingress_send env ti rec content st1)
               else ingress_send env ti None content st))"

definition ingress_body :: "'h ingress_env \<Rightarrow> cstr option \<Rightarrow> 'h ingress_run \<Rightarrow> 'h ingress_run c" where
  "ingress_body env dataStr st =
     (case dataStr of
        None \<Rightarrow> Inr st
      | Some s \<Rightarrow>
          bindc (ingress_line env s st)
            (\<lambda>st1. Inr (st1\<lparr>ir_count := ir_count st1 + 1, ir_heap := free (ir_heap st1)\<rparr>)))"

definition IngressDataProcesssInput ::
    "'h ingress_env \<Rightarrow> fifo_ref \<Rightarrow> bool \<Rightarrow> 'h ingress_run \<Rightarrow> ('h ingress_run \<times> int) c option" where
  "IngressDataProcesssInput env ref ok st =
     (if \<not> ok then Some (Inr (st, - 1))
      else
        (let fifo = get_fifo (ir_mgr st) ref in
         map_option (\<lambda>r. bindc r (\<lambda>(fifo1, st1). Inr (st1\<lparr>ir_mgr := set_fifo (ir_mgr st1) ref fifo1\<rparr>, 0)))
           (drain (unat (fsize fifo) + 1) FifoGet (ingress_body env) fifo None st)))"

definition IngressDataProcesss ::
    "'h ingress_env \<Rightarrow> fifo_ref epoll_res \<Rightarrow> 'h ingress_run \<Rightarrow> ('h ingress_run \<times> int) c option" where
  "IngressDataProcesss env w st =
     (case w of
        WaitFailed eintr \<Rightarrow> Some (Inr (st, if eintr then 0 else - 1))
      | Waited evs \<Rightarrow> epoll_loop (IngressDataProcesssInput env) (take MAX_EPOLL_EVENTS_NUM evs) st)"

definition IngressMain ::
    "'h ingress_env \<Rightarrow> int \<Rightarrow> fifo_ref epoll_res list \<Rightarrow> 'h ingress_run \<Rightarrow> ('h ingress_run \<times> int) c option" where
  "IngressMain env epfd ws st =
     (let (mgr, refs, ret) = IngressInit epfd (ir_mgr st); st1 = st\<lparr>ir_mgr := mgr\<rparr>
      in if ret \<noteq> 0 then Some (Inr (st1, ret)) else epoll_main (IngressDataProcesss env) ws st1)"

subsection \<open>Names and contents of lines\<close>

lemma table_name_line:
  assumes "CHR ''|'' \<notin> set name" "name \<noteq> []" "length name < sz" "starts (\<lambda>ch. ch = CHR ''|'') content"
  shows "GetTableNameAndContent (CHR ''|'' # name @ content) sz = Some (name, content)"
proof -
  obtain cs where c: "content = CHR ''|'' # cs" using assms(4) by (cases content) (auto simp: starts_def)
  have "takeWhile (\<lambda>ch. ch \<noteq> CHR ''|'') (name @ content) = name"
    "dropWhile (\<lambda>ch. ch \<noteq> CHR ''|'') (name @ content) = content"
    using assms(1) unfolding c by (induction name) auto
  with assms c show ?thesis by (simp add: GetTableNameAndContent_def starts_def Let_def)
qed

lemma table_name_plain:
  "plain s \<Longrightarrow> GetTableNameAndContent s sz = Some (name, content) \<Longrightarrow> plain content"
  by (auto simp: GetTableNameAndContent_def plain_def starts_def Let_def split: if_splits
      dest: set_dropWhileD list.set_sel(2))

subsection \<open>The JSON text of a line\<close>

lemma Rec2Json_Some:
  assumes "t_name table \<noteq> ''event''" "0 < n"
  shows "\<exists>s ret. IMDB_Rec2Json now mgr table (Some r) c True n h = Inr (s, h, ret)
    \<and> (int (length (json_body now (nodeInfo mgr) (t_name table) r)) \<le> n \<longrightarrow>
         ret = 0 \<and> s = take (nat n - 1) (json_body now (nodeInfo mgr) (t_name table) r @ ''}''))"
  using assms by (simp add: IMDB_Rec2Json_def Record2Json_eq)

lemma Rec2Json_None:
  assumes "meta_ok (recordKeySize table) mt" "t_meta table = Some mt" "plain content" "metricsCapacity mt \<noteq> 0"
    and "t_name table \<noteq> ''event''" "0 < n" "mscript h = []"
  shows "\<exists>s h' ret. IMDB_Rec2Json now mgr table None content True n h = Inr (s, h', ret)
    \<and> mlive h' = mlive h \<and> mscript h' = []"
proof -
  obtain res h1 where c: "IMDB_RecordCreate (metricsCapacity mt) h = (res, h1)" by force
  note create = RecordCreate_cases [OF c]
  then obtain r where r: "res = Some r" "r = rec_of False (recordKeySize table) mt []" "mscript h1 = []"
    using assms(4,7) by (cases res) (auto simp: rec_of_start)
  have "if False then meta_ok (recordKeySize table) mt else meta_ok (recordKeySize table) mt" using assms(1) by simp
  from ParseContent_spec [OF this assms(2,3), of h1] r(3) obtain vals' h2 where
    pc: "IMDB_DataBaseMgrParseContent table (rec_of False (recordKeySize table) mt []) content False h1
           = Inr (rec_of False (recordKeySize table) mt vals', h2, 0)"
      "length vals' \<le> length (metrics mt)" "mlive h2 = mlive h1 + int (length vals')" "mscript h2 = []"
    unfolding parsed_def by auto
  then show ?thesis
    using assms c r create(1) by (simp add: IMDB_Rec2Json_def Record2Json_eq)
qed

subsection \<open>The invariant and the ledger\<close>

text \<open>
  The database is well-formed and has no table \<open>event\<close>, whose records have a text of their own and need values
  under six fixed names; no allocation fails from here on.
\<close>

definition ingress_ok :: "'h ingress_env \<Rightarrow> 'h ingress_run \<Rightarrow> bool" where
  "ingress_ok env st \<longleftrightarrow> uthash_ok (ie_uh env) \<and> mgr_ok (ie_uh env) (ig_imdbMgr (ir_mgr st))
     \<and> (\<forall>t \<in> set (tables (ig_imdbMgr (ir_mgr st))). t_name t \<noteq> ''event'' \<and> metricsCapacity (the (t_meta t)) \<noteq> 0)
     \<and> (\<forall>eg. ig_egressMgr (ir_mgr st) = Some eg \<longrightarrow> fifo_wf (eg_fifo eg))
     \<and> mscript (ir_heap st) = []"

definition egress_queue :: "'h ingress_run \<Rightarrow> cstr option list" where
  "egress_queue st = (case ig_egressMgr (ir_mgr st) of None \<Rightarrow> [] | Some eg \<Rightarrow> fifo_content (eg_fifo eg))"

text \<open>The blocks that belong neither to the database nor to the queue of the egress.\<close>

definition ledger :: "'h ingress_env \<Rightarrow> 'h ingress_run \<Rightarrow> int" where
  "ledger env st = mlive (ir_heap st) - mgr_blocks (ie_uh env) (ig_imdbMgr (ir_mgr st)) - int (length (egress_queue st))"

text \<open>What the steps of the loop keep: the managers of the probes, the producer, the invariant and the ledger.\<close>

definition keeps :: "'h ingress_env \<Rightarrow> 'h ingress_run \<Rightarrow> 'h ingress_run \<Rightarrow> bool" where
  "keeps env st st' \<longleftrightarrow> ingress_ok env st' \<and> ledger env st' = ledger env st
     \<and> ig_probeMgr (ir_mgr st') = ig_probeMgr (ir_mgr st) \<and> ig_extendProbeMgr (ir_mgr st') = ig_extendProbeMgr (ir_mgr st)
     \<and> map_option eg_kafkaMgr (ig_egressMgr (ir_mgr st')) = map_option eg_kafkaMgr (ig_egressMgr (ir_mgr st))
     \<and> ir_count st' = ir_count st"

lemma keeps_refl: "ingress_ok env st \<Longrightarrow> keeps env st st"
  by (simp add: keeps_def)

lemma keeps_trans: "keeps env s1 s2 \<Longrightarrow> keeps env s2 s3 \<Longrightarrow> keeps env s1 s3"
  by (simp add: keeps_def)

lemma ingress_table:
  assumes "ingress_ok env st" "ti < length (tables (ig_imdbMgr (ir_mgr st)))"
  obtains mt where "t_meta (tables (ig_imdbMgr (ir_mgr st)) ! ti) = Some mt"
    "meta_ok (recordKeySize (tables (ig_imdbMgr (ir_mgr st)) ! ti)) mt" "metricsCapacity mt \<noteq> 0"
    "t_name (tables (ig_imdbMgr (ir_mgr st)) ! ti) \<noteq> ''event''"
  using assms unfolding ingress_ok_def mgr_ok_def table_ok_def by (metis nth_mem option.sel)

lemma Data2Egress_keeps:
  assumes ok: "ingress_ok env st" and ti: "ti < length (tables (ig_imdbMgr (ir_mgr st)))" and pl: "plain content"
    and eg: "ig_egressMgr (ir_mgr st) = Some eg"
  shows "\<exists>st' ret. IngressData2Egress env ti rec content st = Inr (st', ret) \<and> keeps env st st'
    \<and> ig_imdbMgr (ir_mgr st') = ig_imdbMgr (ir_mgr st)
    \<and> (\<forall>r. let text = json_body (ie_now env (2 * ir_count st + 1)) (nodeInfo (ig_imdbMgr (ir_mgr st)))
               (t_name (tables (ig_imdbMgr (ir_mgr st)) ! ti)) r @ ''}''
            in rec = Some r \<and> length text < MAX_DATA_STR_LEN \<and> 0 < fifo_room (eg_fifo eg) \<longrightarrow>
               egress_queue st' = egress_queue st @ [Some text])"
proof -
  obtain mt where mt: "t_meta (tables (ig_imdbMgr (ir_mgr st)) ! ti) = Some mt"
    "meta_ok (recordKeySize (tables (ig_imdbMgr (ir_mgr st)) ! ti)) mt" "metricsCapacity mt \<noteq> 0"
    "t_name (tables (ig_imdbMgr (ir_mgr st)) ! ti) \<noteq> ''event''"
    using ingress_table [OF ok ti] .
  have n: "0 < int MAX_DATA_STR_LEN" "nat (int MAX_DATA_STR_LEN) - 1 = 2047" by (simp_all add: MAX_DATA_STR_LEN_def)
  have m: "mscript (ir_heap st) = []" and wf: "fifo_wf (eg_fifo eg)" using ok eg by (auto simp: ingress_ok_def)
  let ?h1 = "(ir_heap st)\<lparr>mlive := mlive (ir_heap st) + 1\<rparr>"
  let ?body = "json_body (ie_now env (2 * ir_count st + 1)) (nodeInfo (ig_imdbMgr (ir_mgr st)))
     (t_name (tables (ig_imdbMgr (ir_mgr st)) ! ti))"
  have "\<exists>s h2 ret. IMDB_Rec2Json (ie_now env (2 * ir_count st + 1)) (ig_imdbMgr (ir_mgr st)) (tables (ig_imdbMgr (ir_mgr st)) ! ti)
      rec content True (int MAX_DATA_STR_LEN) ?h1 = Inr (s, h2, ret) \<and> mlive h2 = mlive (ir_heap st) + 1 \<and> mscript h2 = []
      \<and> (\<forall>r. rec = Some r \<and> length (?body r @ ''}'') < MAX_DATA_STR_LEN \<longrightarrow> ret = 0 \<and> s = ?body r @ ''}'')"
  proof (cases rec)
    case None
    then show ?thesis using Rec2Json_None [OF mt(2,1) pl mt(3,4) n(1), of ?h1] m by fastforce
  next
    case (Some r)
    obtain s ret where r: "IMDB_Rec2Json (ie_now env (2 * ir_count st + 1)) (ig_imdbMgr (ir_mgr st))
        (tables (ig_imdbMgr (ir_mgr st)) ! ti) (Some r) content True (int MAX_DATA_STR_LEN) ?h1 = Inr (s, ?h1, ret)"
      "int (length (?body r)) \<le> int MAX_DATA_STR_LEN \<longrightarrow> ret = 0 \<and> s = take 2047 (?body r @ ''}'')"
      using Rec2Json_Some [OF mt(4) n(1), unfolded n(2)] by blast
    have "length (?body r @ ''}'') < MAX_DATA_STR_LEN \<longrightarrow> ret = 0 \<and> s = ?body r @ ''}''"
      using r(2) by (auto simp: MAX_DATA_STR_LEN_def)
    with Some r(1) m show ?thesis by auto
  qed
  then obtain s h2 ret where j: "IMDB_Rec2Json (ie_now env (2 * ir_count st + 1)) (ig_imdbMgr (ir_mgr st))
      (tables (ig_imdbMgr (ir_mgr st)) ! ti) rec content True (int MAX_DATA_STR_LEN) ?h1 = Inr (s, h2, ret)"
    "mlive h2 = mlive (ir_heap st) + 1" "mscript h2 = []"
    "\<And>r. rec = Some r \<Longrightarrow> length (?body r @ ''}'') < MAX_DATA_STR_LEN \<Longrightarrow> ret = 0 \<and> s = ?body r @ ''}''" by blast
  show ?thesis
  proof (cases "ret = 0")
    case False
    with j m eg ok show ?thesis
      by (intro exI [of _ "st\<lparr>ir_heap := free h2\<rparr>"] exI [of _ "- 1"])
        (auto simp: IngressData2Egress_def keeps_def ingress_ok_def ledger_def egress_queue_def)
  next
    case True
    show ?thesis
    proof (cases rule: fq.put_cases [OF wf, of "Some s"])
      case (1 q')
      let ?st = "st\<lparr>ir_mgr := (ir_mgr st)\<lparr>ig_egressMgr := Some (eg\<lparr>eg_fifo := q'\<rparr>)\<rparr>, ir_heap := h2\<rparr>"
      have "IngressData2Egress env ti rec content st = Inr (?st, if ie_write env (ir_count st) then 0 else - 1)"
        using True 1(1) j(1) m eg by (simp add: IngressData2Egress_def)
      moreover have "egress_queue ?st = egress_queue st @ [Some s]" using 1(3) eg by (simp add: egress_queue_def)
      ultimately show ?thesis using 1(2) j ok eg
        by (intro exI [of _ ?st] exI) (auto simp: keeps_def ingress_ok_def ledger_def Let_def)
    next
      case 2
      with True j m eg ok show ?thesis
        by (intro exI [of _ "st\<lparr>ir_heap := free h2\<rparr>"] exI [of _ "- 1"])
          (auto simp: IngressData2Egress_def keeps_def ingress_ok_def ledger_def egress_queue_def)
    qed
  qed
qed

subsection \<open>One line\<close>

lemma ingress_send_keeps:
  assumes "ingress_ok env st" "ti < length (tables (ig_imdbMgr (ir_mgr st)))" "plain content"
  shows "\<exists>st'. ingress_send env ti rec content st = Inr st' \<and> keeps env st st'
    \<and> ig_imdbMgr (ir_mgr st') = ig_imdbMgr (ir_mgr st)"
proof (cases "ig_egressMgr (ir_mgr st)")
  case None
  with assms(1) show ?thesis by (auto simp: ingress_send_def keeps_refl)
next
  case (Some eg)
  with assms(1) Data2Egress_keeps [OF assms Some, of rec] show ?thesis
    by (cases "eg_kafkaMgr eg = None") (fastforce simp: ingress_send_def keeps_refl)+
qed

lemma created_tables:
  assumes "created uh now mgr ti vals mgr' res" "ti < length (tables mgr)"
  shows "\<exists>t'. tables mgr' = (tables mgr)[ti := t'] \<and> t_name t' = t_name (tables mgr ! ti)
    \<and> t_meta t' = t_meta (tables mgr ! ti)"
proof -
  obtain t' where t': "mgr' = unlock (set_table mgr ti t')" "t_name t' = t_name (tables mgr ! ti)"
    "t'\<lparr>records := records (tables mgr ! ti)\<rparr> = tables mgr ! ti"
    using assms(1) unfolding created_def added_def by blast
  then show ?thesis using table_ok_cong [OF t'(3)] by (intro exI [of _ t']) (simp add: set_table_def)
qed

lemma created_mgr_ok:
  assumes "created uh now mgr ti vals mgr' res" "mgr_ok uh mgr" "ti < length (tables mgr)"
  shows "mgr_ok uh mgr'"
  using assms set_table_ok [OF assms(2,3)] unfolding created_def by (elim exE conjE) auto

text \<open>Storing the record of a line.\<close>

lemma CreateRec_keeps:
  assumes ok: "ingress_ok env st" and ti: "ti < length (tables (ig_imdbMgr (ir_mgr st)))" and pl: "plain content"
  shows "\<exists>imdb1 rec h1. IMDB_DataBaseMgrCreateRec (ie_uh env) now (ig_imdbMgr (ir_mgr st)) ti content (ir_heap st)
      = Inr (imdb1, rec, h1)
    \<and> keeps env st (st\<lparr>ir_mgr := (ir_mgr st)\<lparr>ig_imdbMgr := imdb1\<rparr>, ir_heap := h1\<rparr>)
    \<and> length (tables imdb1) = length (tables (ig_imdbMgr (ir_mgr st)))"
proof -
  let ?imdb = "ig_imdbMgr (ir_mgr st)"
  have uh: "uthash_ok (ie_uh env)" and db: "mgr_ok (ie_uh env) ?imdb" and m: "mscript (ir_heap st) = []"
    using ok by (simp_all add: ingress_ok_def)
  obtain imdb1 rec h1 where run:
    "IMDB_DataBaseMgrCreateRec (ie_uh env) now ?imdb ti content (ir_heap st) = Inr (imdb1, rec, h1)"
    "created (ie_uh env) now ?imdb ti (content_values (the (t_meta (tables ?imdb ! ti))) content) imdb1 rec"
    "mlive h1 - mgr_blocks (ie_uh env) imdb1 = mlive (ir_heap st) - mgr_blocks (ie_uh env) ?imdb"
    "mscript h1 = []"
    using CreateRec_lemma [OF uh db ti pl, of now "ir_heap st"] m by blast
  obtain t' where t': "tables imdb1 = (tables ?imdb)[ti := t']" "t_name t' = t_name (tables ?imdb ! ti)"
    "t_meta t' = t_meta (tables ?imdb ! ti)" using created_tables [OF run(2) ti] by blast
  have "t_name t \<noteq> ''event'' \<and> metricsCapacity (the (t_meta t)) \<noteq> 0" if "t \<in> set (tables imdb1)" for t
    using that ok ti t' set_update_subset_insert [of "tables ?imdb" ti t'] unfolding ingress_ok_def by force
  then show ?thesis
    using run ok t'(1) created_mgr_ok [OF run(2) db ti]
    by (intro exI [of _ imdb1] exI [of _ rec] exI [of _ h1])
      (simp add: keeps_def ingress_ok_def ledger_def egress_queue_def)
qed

lemma ingress_line_keeps:
  assumes ok: "ingress_ok env st" and pl: "plain s"
  shows "\<exists>st'. ingress_line env s st = Inr st' \<and> keeps env st st'"
proof (cases "GetTableNameAndContent s MAX_IMDB_TABLE_NAME_LEN")
  case None
  with ok show ?thesis by (simp add: ingress_line_def keeps_refl)
next
  case (Some nc)
  then obtain name content where nc: "GetTableNameAndContent s MAX_IMDB_TABLE_NAME_LEN = Some (name, content)"
    by (cases nc) simp
  note plc = table_name_plain [OF pl nc]
  show ?thesis
  proof (cases "IMDB_DataBaseMgrFindTable (ig_imdbMgr (ir_mgr st)) name")
    case None
    with ok nc show ?thesis by (simp add: ingress_line_def keeps_refl)
  next
    case (Some ti)
    then have ti: "ti < length (tables (ig_imdbMgr (ir_mgr st)))" using FindTable_Some by blast
    show ?thesis
    proof (cases "recordKeySize (tables (ig_imdbMgr (ir_mgr st)) ! ti) > 0 \<and> webServerOn (ig_imdbMgr (ir_mgr st)) \<noteq> 0")
      case False
      with nc Some ingress_send_keeps [OF ok ti plc, of None] show ?thesis
        by (auto simp: ingress_line_def Let_def)
    next
      case True
      obtain imdb1 rec h1 where c: "IMDB_DataBaseMgrCreateRec (ie_uh env) (ie_now env (2 * ir_count st))
          (ig_imdbMgr (ir_mgr st)) ti content (ir_heap st) = Inr (imdb1, rec, h1)"
        "keeps env st (st\<lparr>ir_mgr := (ir_mgr st)\<lparr>ig_imdbMgr := imdb1\<rparr>, ir_heap := h1\<rparr>)"
        "length (tables imdb1) = length (tables (ig_imdbMgr (ir_mgr st)))"
        using CreateRec_keeps [OF ok ti plc] by blast
      let ?st1 = "st\<lparr>ir_mgr := (ir_mgr st)\<lparr>ig_imdbMgr := imdb1\<rparr>, ir_heap := h1\<rparr>"
      have line: "ingress_line env s st = (if rec = None then Inr ?st1 else ingress_send env ti rec content ?st1)"
        using nc Some True c(1) by (simp add: ingress_line_def Let_def)
      have "ingress_ok env ?st1" using c(2) by (simp add: keeps_def)
      from ingress_send_keeps [OF this _ plc, of ti rec] c(2,3) ti line show ?thesis
        by (cases "rec = None") (auto intro: keeps_trans)
    qed
  qed
qed

text \<open>The loop over the fifo: each string taken out is one block less.\<close>

lemma ingress_fold:
  assumes "ingress_ok env st" "list_all plain msgs"
  shows "\<exists>st'. foldc (ingress_body env) (map Some msgs) st = Inr st' \<and> ingress_ok env st'
    \<and> ledger env st' = ledger env st - int (length msgs)
    \<and> ig_probeMgr (ir_mgr st') = ig_probeMgr (ir_mgr st) \<and> ig_extendProbeMgr (ir_mgr st') = ig_extendProbeMgr (ir_mgr st)"
  using assms
proof (induction msgs arbitrary: st)
  case (Cons s msgs)
  from Cons.prems obtain st1 where st1: "ingress_line env s st = Inr st1" "keeps env st st1"
    using ingress_line_keeps [of env st s] by auto
  let ?st = "st1\<lparr>ir_count := ir_count st1 + 1, ir_heap := free (ir_heap st1)\<rparr>"
  have "ingress_body env (Some s) st = Inr ?st" using st1(1) by (simp add: ingress_body_def)
  moreover have "ingress_ok env ?st" "ledger env ?st = ledger env st - 1"
    using st1(2) by (auto simp: keeps_def ingress_ok_def ledger_def egress_queue_def)
  moreover obtain st' where "foldc (ingress_body env) (map Some msgs) ?st = Inr st'" "ingress_ok env st'"
    "ledger env st' = ledger env ?st - int (length msgs)"
    "ig_probeMgr (ir_mgr st') = ig_probeMgr (ir_mgr ?st)" "ig_extendProbeMgr (ir_mgr st') = ig_extendProbeMgr (ir_mgr ?st)"
    using Cons.IH [of ?st] calculation(2) Cons.prems(2) by auto
  ultimately show ?case using st1(2) by (intro exI [of _ st']) (auto simp: keeps_def)
qed simp

fun ref_ok :: "'h IngressMgr \<Rightarrow> fifo_ref \<Rightarrow> bool" where
  "ref_ok mgr (PFifo i) \<longleftrightarrow> i < length (probes (ig_probeMgr mgr))"
| "ref_ok mgr (XFifo i) \<longleftrightarrow> i < length (probes (ig_extendProbeMgr mgr))"

lemma get_set_fifo [simp]: "ref_ok mgr ref \<Longrightarrow> get_fifo (set_fifo mgr ref f) ref = f"
  by (cases ref) simp_all

lemma set_fifo_same:
  "ig_imdbMgr (set_fifo mgr ref f) = ig_imdbMgr mgr" "ig_egressMgr (set_fifo mgr ref f) = ig_egressMgr mgr"
  by (cases ref, simp_all)+

lemma Input_run:
  assumes ref: "ref_ok (ir_mgr st) ref" and wf: "fifo_wf (get_fifo (ir_mgr st) ref)"
    and run: "foldc (ingress_body env) (fifo_content (get_fifo (ir_mgr st) ref)) st = Inr st1"
    and same: "ig_probeMgr (ir_mgr st1) = ig_probeMgr (ir_mgr st)" "ig_extendProbeMgr (ir_mgr st1) = ig_extendProbeMgr (ir_mgr st)"
  shows "\<exists>fifo. IngressDataProcesssInput env ref True st = Some (Inr (st1\<lparr>ir_mgr := set_fifo (ir_mgr st1) ref fifo\<rparr>, 0))
    \<and> fifo_wf fifo \<and> fifo_content fifo = [] \<and> get_fifo (set_fifo (ir_mgr st1) ref fifo) ref = fifo"
proof -
  have "ref_ok (ir_mgr st1) ref" using ref same by (cases ref) simp_all
  then show ?thesis
    using fq.drain_content [OF wf fifo_fuel [OF wf], where body = "ingress_body env" and s = st and x = None] run
    by (auto simp: IngressDataProcesssInput_def Let_def)
qed

text \<open>C25: When the eventfd of a probe fires, the thread empties the fifo of the probe in a bounded
  number of rounds, whether its lines are well-formed or not and name a table or not: the database stays
  well-formed, every line is given back, and every other block allocated on the way belongs to the
  database or to the queue of the egress. The conditions are that no line holds a percent sign, which the code
  takes for a conversion, that the database has no table named \<open>event\<close> and no table without a metric, and that no
  allocation fails.\<close>
theorem IngressInput_ledger:
  assumes "ingress_ok env st" and "ref_ok (ir_mgr st) ref" and "fifo_wf (get_fifo (ir_mgr st) ref)"
    and "fifo_content (get_fifo (ir_mgr st) ref) = map Some msgs" and "list_all plain msgs"
  shows "\<exists>st'. IngressDataProcesssInput env ref True st = Some (Inr (st', 0)) \<and> ingress_ok env st'
    \<and> fifo_content (get_fifo (ir_mgr st') ref) = []
    \<and> ledger env st' = ledger env st - int (length msgs)"
proof -
  obtain st1 where "foldc (ingress_body env) (map Some msgs) st = Inr st1" "ingress_ok env st1"
    "ledger env st1 = ledger env st - int (length msgs)" "ig_probeMgr (ir_mgr st1) = ig_probeMgr (ir_mgr st)"
    "ig_extendProbeMgr (ir_mgr st1) = ig_extendProbeMgr (ir_mgr st)"
    using ingress_fold [OF assms(1,5)] by blast
  moreover from this obtain fifo where
    "IngressDataProcesssInput env ref True st = Some (Inr (st1\<lparr>ir_mgr := set_fifo (ir_mgr st1) ref fifo\<rparr>, 0))"
    "fifo_content fifo = []" "get_fifo (set_fifo (ir_mgr st1) ref fifo) ref = fifo"
    using Input_run [OF assms(2,3)] assms(4) by metis
  ultimately show ?thesis
    by (intro exI [of _ "st1\<lparr>ir_mgr := set_fifo (ir_mgr st1) ref fifo\<rparr>"])
      (simp add: ingress_ok_def ledger_def egress_queue_def set_fifo_same)
qed

text \<open>A line of a probe that names a table and gives values.\<close>

definition line_of :: "cstr \<Rightarrow> cstr list \<Rightarrow> cstr" where
  "line_of name vals = CHR ''|'' # name @ content_of vals"

text \<open>What reaches the queue of the egress when a record with this text is sent.\<close>

definition queued :: "'h ingress_run \<Rightarrow> cstr \<Rightarrow> 'h ingress_run \<Rightarrow> bool" where
  "queued st json st' \<longleftrightarrow> (case ig_egressMgr (ir_mgr st) of
       None \<Rightarrow> egress_queue st' = egress_queue st
     | Some eg \<Rightarrow>
         if eg_kafkaMgr eg = None then egress_queue st' = egress_queue st
         else length json < MAX_DATA_STR_LEN \<and> 0 < fifo_room (eg_fifo eg) \<longrightarrow>
           egress_queue st' = egress_queue st @ [Some json])"

lemma queued_imdb [simp]:
  "queued (st\<lparr>ir_mgr := (ir_mgr st)\<lparr>ig_imdbMgr := x\<rparr>, ir_heap := h\<rparr>) json = queued st json"
  "egress_queue (st\<lparr>ir_mgr := (ir_mgr st)\<lparr>ig_imdbMgr := x\<rparr>, ir_heap := h\<rparr>) = egress_queue st"
  by (auto simp: queued_def egress_queue_def fun_eq_iff cong: option.case_cong)

lemma queued_same: "egress_queue st1 = egress_queue st2 \<Longrightarrow> queued st json st1 \<longleftrightarrow> queued st json st2"
  by (simp only: queued_def)

lemma ingress_send_record:
  assumes ok: "ingress_ok env st" and ti: "ti < length (tables (ig_imdbMgr (ir_mgr st)))" and pl: "plain content"
  shows "\<exists>st'. ingress_send env ti (Some r) content st = Inr st' \<and> keeps env st st'
    \<and> ig_imdbMgr (ir_mgr st') = ig_imdbMgr (ir_mgr st)
    \<and> queued st (json_body (ie_now env (2 * ir_count st + 1)) (nodeInfo (ig_imdbMgr (ir_mgr st)))
        (t_name (tables (ig_imdbMgr (ir_mgr st)) ! ti)) r @ ''}'') st'"
proof (cases "\<exists>eg. ig_egressMgr (ir_mgr st) = Some eg \<and> eg_kafkaMgr eg \<noteq> None")
  case False
  with ok show ?thesis
    by (intro exI [of _ st]) (auto simp: ingress_send_def keeps_refl queued_def egress_queue_def split: option.splits)
next
  case True
  then obtain eg where eg: "ig_egressMgr (ir_mgr st) = Some eg" "eg_kafkaMgr eg \<noteq> None" by blast
  from Data2Egress_keeps [OF ok ti pl eg(1), of "Some r"] obtain st' ret where
    "IngressData2Egress env ti (Some r) content st = Inr (st', ret)" "keeps env st st'"
    "ig_imdbMgr (ir_mgr st') = ig_imdbMgr (ir_mgr st)"
    "queued st (json_body (ie_now env (2 * ir_count st + 1)) (nodeInfo (ig_imdbMgr (ir_mgr st)))
        (t_name (tables (ig_imdbMgr (ir_mgr st)) ! ti)) r @ ''}'') st'"
    using eg by (auto simp: Let_def queued_def)
  then show ?thesis using eg by (intro exI [of _ st']) (auto simp: ingress_send_def)
qed

lemma ingress_line_record:
  assumes ok: "ingress_ok env st"
    and name: "CHR ''|'' \<notin> set name" "name \<noteq> []" "length name < MAX_IMDB_TABLE_NAME_LEN"
    and vals: "clean_vals vals" "hd vals \<noteq> []" "vals \<noteq> []"
    and imdb: "imdb = ig_imdbMgr (ir_mgr st)" "IMDB_DataBaseMgrFindTable imdb name = Some ti" "webServerOn imdb \<noteq> 0"
    and t: "t = tables imdb ! ti" "t_meta t = Some mt" "recordKeySize t \<noteq> 0"
      "length (stored (ie_uh env) t) < unat (recordsCapability t)"
    and r: "r = new_record (ie_now env (2 * ir_count st)) t (take (length (metrics mt)) (map fill vals))"
  shows "\<exists>st' t'. ingress_line env (line_of name vals) st = Inr st' \<and> keeps env st st'
    \<and> tables (ig_imdbMgr (ir_mgr st')) = (tables imdb)[ti := t']
    \<and> stored (ie_uh env) t' = filter (\<lambda>r'. key_bytes r' \<noteq> key_bytes r) (stored (ie_uh env) t) @ [r]
    \<and> queued st (json_body (ie_now env (2 * ir_count st + 1)) (nodeInfo imdb) name r @ ''}'') st'"
proof -
  have ti: "ti < length (tables imdb)" "t_name t = name" using FindTable_Some [OF imdb(2)] t(1) by auto
  have env: "uthash_ok (ie_uh env)" "mgr_ok (ie_uh env) imdb" "mscript (ir_heap st) = []"
    using ok imdb(1) by (simp_all add: ingress_ok_def)
  note pl = plain_content [OF vals(1)]
  obtain h1 t' where c: "IMDB_DataBaseMgrCreateRec (ie_uh env) (ie_now env (2 * ir_count st)) imdb ti (content_of vals) (ir_heap st)
      = Inr (unlock (set_table imdb ti t'), Some r, h1)"
    "added (ie_uh env) (ie_now env (2 * ir_count st)) t (take (length (metrics mt)) (map fill vals)) t'"
    using CreateRec_stored [OF env(1,2) ti(1) env(3) vals t(1-4) r] by blast
  let ?imdb1 = "unlock (set_table imdb ti t')"
  let ?st1 = "st\<lparr>ir_mgr := (ir_mgr st)\<lparr>ig_imdbMgr := ?imdb1\<rparr>, ir_heap := h1\<rparr>"
  have k: "keeps env st ?st1"
    using CreateRec_keeps [OF ok, of ti "content_of vals" "ie_now env (2 * ir_count st)"] ti(1) c(1) pl imdb(1) by auto
  have "t_name t' = name" using c(2) ti(2) unfolding added_def by (metis table_ok_cong)
  then have nm: "t_name (tables ?imdb1 ! ti) = name" "nodeInfo ?imdb1 = nodeInfo imdb" "ti < length (tables ?imdb1)"
    using ti(1) by (simp_all add: set_table_def unlock_def)
  have "ingress_ok env ?st1" using k by (simp add: keeps_def)
  from ingress_send_record [OF this _ pl, of ti r] nm obtain st2 where
    st2: "ingress_send env ti (Some r) (content_of vals) ?st1 = Inr st2" "keeps env ?st1 st2" "ig_imdbMgr (ir_mgr st2) = ?imdb1"
      "queued ?st1 (json_body (ie_now env (2 * ir_count st + 1)) (nodeInfo imdb) name r @ ''}'') st2"
    by auto
  have "GetTableNameAndContent (line_of name vals) MAX_IMDB_TABLE_NAME_LEN = Some (name, content_of vals)"
    unfolding line_of_def using name by (intro table_name_line) (simp_all add: content_of_def starts_def)
  then have "ingress_line env (line_of name vals) st = Inr st2"
    using imdb t(1,3) c(1) st2(1) by (simp add: ingress_line_def Let_def word_gt_0)
  moreover have "queued st (json_body (ie_now env (2 * ir_count st + 1)) (nodeInfo imdb) name r @ ''}'') st2"
    using st2(4) by (simp add: queued_imdb)
  moreover have "stored (ie_uh env) t' = filter (\<lambda>r'. key_bytes r' \<noteq> key_bytes r) (stored (ie_uh env) t) @ [r]"
    using c(2) unfolding added_def others_def r by blast
  ultimately show ?thesis
    using st2(3) keeps_trans [OF k st2(2)] by (intro exI [of _ st2] exI [of _ t']) (simp add: set_table_def unlock_def)
qed

lemma Input_record:
  assumes ok: "ingress_ok env st" and ref: "ref_ok (ir_mgr st) ref" and wf: "fifo_wf (get_fifo (ir_mgr st) ref)"
    and line: "fifo_content (get_fifo (ir_mgr st) ref) = [Some (line_of name vals)]"
    and name: "CHR ''|'' \<notin> set name" "name \<noteq> []" "length name < MAX_IMDB_TABLE_NAME_LEN"
    and vals: "clean_vals vals" "hd vals \<noteq> []" "vals \<noteq> []"
    and imdb: "imdb = ig_imdbMgr (ir_mgr st)" "IMDB_DataBaseMgrFindTable imdb name = Some ti" "webServerOn imdb \<noteq> 0"
    and t: "t = tables imdb ! ti" "t_meta t = Some mt" "recordKeySize t \<noteq> 0"
      "length (stored (ie_uh env) t) < unat (recordsCapability t)"
    and r: "r = new_record (ie_now env (2 * ir_count st)) t (take (length (metrics mt)) (map fill vals))"
  shows "\<exists>st' t'. IngressDataProcesssInput env ref True st = Some (Inr (st', 0))
    \<and> fifo_content (get_fifo (ir_mgr st') ref) = []
    \<and> tables (ig_imdbMgr (ir_mgr st')) = (tables imdb)[ti := t']
    \<and> stored (ie_uh env) t' = filter (\<lambda>r'. key_bytes r' \<noteq> key_bytes r) (stored (ie_uh env) t) @ [r]
    \<and> updateTime r = ie_now env (2 * ir_count st)
    \<and> metrics r = map (\<lambda>(m, v). m\<lparr>m_val := take 511 (fill v)\<rparr>) (zip (metrics mt) vals)
    \<and> queued st (json_body (ie_now env (2 * ir_count st + 1)) (nodeInfo imdb) name r @ ''}'') st'
    \<and> ingress_ok env st' \<and> ir_count st' = ir_count st + 1
    \<and> map_option eg_kafkaMgr (ig_egressMgr (ir_mgr st')) = map_option eg_kafkaMgr (ig_egressMgr (ir_mgr st))"
proof -
  obtain st2 t' where st2: "ingress_line env (line_of name vals) st = Inr st2" "keeps env st st2"
    "tables (ig_imdbMgr (ir_mgr st2)) = (tables imdb)[ti := t']"
    "stored (ie_uh env) t' = filter (\<lambda>r'. key_bytes r' \<noteq> key_bytes r) (stored (ie_uh env) t) @ [r]"
    "queued st (json_body (ie_now env (2 * ir_count st + 1)) (nodeInfo imdb) name r @ ''}'') st2"
    using ingress_line_record [OF ok name vals imdb t r] by blast
  let ?st3 = "st2\<lparr>ir_count := ir_count st2 + 1, ir_heap := free (ir_heap st2)\<rparr>"
  have "foldc (ingress_body env) (fifo_content (get_fifo (ir_mgr st) ref)) st = Inr ?st3"
    by (simp add: line ingress_body_def st2(1))
  then obtain fifo where f: "IngressDataProcesssInput env ref True st = Some (Inr (?st3\<lparr>ir_mgr := set_fifo (ir_mgr ?st3) ref fifo\<rparr>, 0))"
    "fifo_content fifo = []" "get_fifo (set_fifo (ir_mgr ?st3) ref fifo) ref = fifo"
    using Input_run [OF ref wf, of env ?st3] st2(2) by (auto simp: keeps_def)
  moreover have "metrics r = map (\<lambda>(m, v). m\<lparr>m_val := take 511 (fill v)\<rparr>) (zip (metrics mt) vals)"
    unfolding r by (rule new_record_metrics [OF t(2)])
  moreover have "updateTime r = ie_now env (2 * ir_count st)" by (simp add: r new_record_def)
  moreover have "queued st json (?st3\<lparr>ir_mgr := set_fifo (ir_mgr ?st3) ref fifo\<rparr>) \<longleftrightarrow> queued st json st2" for json
    by (rule queued_same) (simp add: egress_queue_def set_fifo_same)
  ultimately show ?thesis
    using st2(2-5) by (intro exI [of _ "?st3\<lparr>ir_mgr := set_fifo (ir_mgr ?st3) ref fifo\<rparr>"] exI [of _ t'])
      (simp add: set_fifo_same keeps_def ingress_ok_def)
qed

text \<open>A line \<open>|table|v1|v2|...|\<close> for a table with a key becomes one record of the table with exactly
  these values, in place of a record with the same key; and when Kafka is on and the queue of the egress has
  room, exactly the JSON text of this record is queued, unless it has 2048 characters or more. The conditions are
  that the web server is on, that the table has room, that the first value is not empty, that no value holds a
  percent sign, a bar or is a newline alone, that no table is named \<open>event\<close> and that no allocation fails.\<close>
lemma IngressInput_record:
  assumes ok: "ingress_ok env st" and ref: "ref_ok (ir_mgr st) ref" and wf: "fifo_wf (get_fifo (ir_mgr st) ref)"
    and line: "fifo_content (get_fifo (ir_mgr st) ref) = [Some (line_of name vals)]"
    and name: "CHR ''|'' \<notin> set name" "name \<noteq> []" "length name < MAX_IMDB_TABLE_NAME_LEN"
    and vals: "clean_vals vals" "hd vals \<noteq> []" "vals \<noteq> []"
    and imdb: "imdb = ig_imdbMgr (ir_mgr st)" "IMDB_DataBaseMgrFindTable imdb name = Some ti" "webServerOn imdb \<noteq> 0"
    and t: "t = tables imdb ! ti" "t_meta t = Some mt" "recordKeySize t \<noteq> 0"
      "length (stored (ie_uh env) t) < unat (recordsCapability t)"
  shows "\<exists>st' t' r. IngressDataProcesssInput env ref True st = Some (Inr (st', 0))
    \<and> fifo_content (get_fifo (ir_mgr st') ref) = []
    \<and> tables (ig_imdbMgr (ir_mgr st')) = (tables imdb)[ti := t']
    \<and> stored (ie_uh env) t' = filter (\<lambda>r'. key_bytes r' \<noteq> key_bytes r) (stored (ie_uh env) t) @ [r]
    \<and> updateTime r = ie_now env (2 * ir_count st)
    \<and> metrics r = map (\<lambda>(m, v). m\<lparr>m_val := take 511 (fill v)\<rparr>) (zip (metrics mt) vals)
    \<and> queued st (json_body (ie_now env (2 * ir_count st + 1)) (nodeInfo imdb) name r @ ''}'') st'"
  using Input_record [OF assms refl] by blast

subsection \<open>An example\<close>

definition ring1 :: "cstr \<Rightarrow> cstr Fifo" where
  "ring1 s = \<lparr>buffer = [Some s, None], fsize = 2, fin = 1, fout = 0, triggerFd = 3\<rparr>"

lemma ring1: "fifo_wf (ring1 s)" "fifo_content (ring1 s) = [Some s]"
  by (simp_all add: ring1_def fifo_wf_def fifo_count_def fifo_content_def fifo_index_def IS_POWER_OF_TWO_def)

definition example_env :: "IMDB_Record list ingress_env" where
  "example_env = \<lparr>ie_uh = list_uthash, ie_now = \<lambda>n. 7 + int n, ie_write = \<lambda>_. True\<rparr>"

definition example_ingress :: "IMDB_Record list ingress_run" where
  "example_ingress = \<lparr>ir_mgr = \<lparr>ig_probeMgr = \<lparr>pm_size = 1, probes =
       [(new_probe 3 ''task'')\<lparr>pr_fifo := ring1 (line_of ''task'' [''a'', ''1''])\<rparr>]\<rparr>,
     ig_extendProbeMgr = \<lparr>pm_size = 1, probes = []\<rparr>, ig_imdbMgr = example_db, ig_egressMgr = None, ig_epoll_fd = 5\<rparr>,
     ir_count = 0, ir_heap = heap0\<rparr>"

lemma example_ingress_ok: "ingress_ok example_env example_ingress" "ref_ok (ir_mgr example_ingress) (PFifo 0)"
  "get_fifo (ir_mgr example_ingress) (PFifo 0) = ring1 (line_of ''task'' [''a'', ''1''])"
  using example_facts
  by (simp_all add: ingress_ok_def example_ingress_def example_env_def)
    (simp add: example_db_def example_table_def example_meta_def)

lemma IngressInput_record_witness:
  "\<exists>st' t' r. IngressDataProcesssInput example_env (PFifo 0) True example_ingress = Some (Inr (st', 0))
    \<and> tables (ig_imdbMgr (ir_mgr st')) = [t'] \<and> stored list_uthash t' = [r] \<and> map m_val (metrics r) = [''a'', ''1'']"
proof -
  have web: "webServerOn example_db \<noteq> 0" by (simp add: example_db_def)
  have imdb: "example_db = ig_imdbMgr (ir_mgr example_ingress)" by (simp add: example_ingress_def)
  have room: "length (stored (ie_uh example_env) example_table) < unat (recordsCapability example_table)"
    using example_facts by (simp add: example_env_def)
  have key: "recordKeySize example_table \<noteq> 0" using example_fields by simp
  obtain st' t' r where "IngressDataProcesssInput example_env (PFifo 0) True example_ingress = Some (Inr (st', 0))"
    "tables (ig_imdbMgr (ir_mgr st')) = (tables example_db)[0 := t']"
    "stored (ie_uh example_env) t' = filter (\<lambda>r'. key_bytes r' \<noteq> key_bytes r) (stored (ie_uh example_env) example_table) @ [r]"
    "metrics r = map (\<lambda>(m, v). m\<lparr>m_val := take 511 (fill v)\<rparr>) (zip (metrics example_meta) [''a'', ''1''])"
    using IngressInput_record [OF example_ingress_ok(1,2) _ _ _ _ _ example_clean _ _ imdb example_find web
        example_at(1) [symmetric] example_fields(1) key room] example_ingress_ok(3) ring1
    by (auto simp: imdb_lens)
  then show ?thesis
    using example_stored by (simp add: example_env_def example_db_def example_meta_def fill_def)
qed

theorem IngressInput_ledger_witness:
  "\<exists>st'. IngressDataProcesssInput example_env (PFifo 0) True example_ingress = Some (Inr (st', 0))
    \<and> ingress_ok example_env st' \<and> ledger example_env st' = ledger example_env example_ingress - 1"
proof -
  have "plain (line_of ''task'' [''a'', ''1''])" using plain_content [OF example_clean] by (auto simp: line_of_def plain_def)
  then show ?thesis
    using IngressInput_ledger [OF example_ingress_ok(1,2), of "[line_of ''task'' [''a'', ''1'']]"] example_ingress_ok(3) ring1
    by auto
qed

end
