(* ===== verification/Pipeline.thy ===== *)
theory Pipeline
  imports Ingress
begin

section \<open>From the probe to the database and to Kafka\<close>

text \<open>
  The three threads that a line of a probe goes through, one after another: the probe that prints it, the
  ingress thread that stores it and queues its JSON text, the egress thread that gives the text to Kafka.
\<close>

text \<open>The probe behind \<open>ref\<close> prints; the state of the ingress is the one all threads share.\<close>

definition probe_prints ::
    "(cstr \<Rightarrow> 'f \<Rightarrow> cstr) \<Rightarrow> bool \<Rightarrow> cstr \<Rightarrow> 'f arg list \<Rightarrow> fifo_ref \<Rightarrow> 'h ingress_run \<Rightarrow> ('h ingress_run \<times> int) c" where
  "probe_prints ffmt write_ok fmt args ref st =
     bindc (wrap_fprintf ffmt write_ok fmt args (get_fifo (ir_mgr st) ref) (ir_heap st)) (\<lambda>(fifo, h, ret).
       Inr (st\<lparr>ir_mgr := set_fifo (ir_mgr st) ref fifo, ir_heap := h\<rparr>, ret))"

text \<open>The egress thread, on the queue that the ingress thread fills: the strings the producer took.\<close>

definition egress_turn :: "(nat \<Rightarrow> nat \<Rightarrow> produce_res) \<Rightarrow> 'h ingress_run \<Rightarrow> cstr list c option" where
  "egress_turn res st =
     (case ig_egressMgr (ir_mgr st) of
        None \<Rightarrow> Some (Inr [])
      | Some eg \<Rightarrow>
          map_option (\<lambda>r. bindc r (\<lambda>(er, ret). Inr (er_sent er)))
            (EgressDataProcesssInput res True \<lparr>er_mgr = eg, er_sent = [], er_count = 0, er_heap = ir_heap st\<rparr>))"

text \<open>The three of them.\<close>

definition pipeline ::
    "(cstr \<Rightarrow> 'f \<Rightarrow> cstr) \<Rightarrow> 'h ingress_env \<Rightarrow> (nat \<Rightarrow> nat \<Rightarrow> produce_res) \<Rightarrow> cstr \<Rightarrow> 'f arg list \<Rightarrow> fifo_ref
     \<Rightarrow> 'h ingress_run \<Rightarrow> ('h IMDB_DataBaseMgr \<times> cstr list) c option" where
  "pipeline ffmt env res fmt args ref st =
     (case probe_prints ffmt True fmt args ref st of
        Inl e \<Rightarrow> Some (Inl e)
      | Inr (st1, _) \<Rightarrow>
          (case IngressDataProcesssInput env ref True st1 of
             None \<Rightarrow> None
           | Some (Inl e) \<Rightarrow> Some (Inl e)
           | Some (Inr (st2, _)) \<Rightarrow>
               map_option (\<lambda>r. bindc r (\<lambda>sent. Inr (ig_imdbMgr (ir_mgr st2), sent))) (egress_turn res st2)))"

lemma ref_ok_set [simp]: "ref_ok (set_fifo mgr ref f) ref = ref_ok mgr ref"
  by (cases ref) simp_all

text \<open>C34: A line \<open>|table|v1|v2|...|\<close> that a probe prints in text, strings and numbers for a table with a key is,
  after the three threads have run, one record of the table with these values and the time, in place of
  the one with the same key, and Kafka has been given the JSON text of this record, if it is shorter than
  2048 characters and the producer takes it, and nothing else. The conditions are that the web server and Kafka are
  on, that the table and the two fifos have room and these hold no other line, that the first value is not empty,
  that no value holds a percent sign, a bar or is a newline alone, that no table is named \<open>event\<close> and that no
  allocation fails.\<close>
theorem probe_line_to_kafka:
  assumes st: "ingress_ok env st" "ref_ok (ir_mgr st) ref" "fifo_wf (get_fifo (ir_mgr st) ref)"
      "fifo_content (get_fifo (ir_mgr st) ref) = []" "0 < fifo_room (get_fifo (ir_mgr st) ref)"
    and line: "list_all seg_ok segs" "segs_text segs = line_of name vals" "length (line_of name vals) < MAX_DATA_STR_LEN"
    and name: "CHR ''|'' \<notin> set name" "name \<noteq> []" "length name < MAX_IMDB_TABLE_NAME_LEN"
    and vals: "clean_vals vals" "hd vals \<noteq> []" "vals \<noteq> []"
    and imdb: "imdb = ig_imdbMgr (ir_mgr st)" "IMDB_DataBaseMgrFindTable imdb name = Some ti" "webServerOn imdb \<noteq> 0"
    and t: "t = tables imdb ! ti" "t_meta t = Some mt" "recordKeySize t \<noteq> 0"
      "length (stored (ie_uh env) t) < unat (recordsCapability t)"
    and eg: "ig_egressMgr (ir_mgr st) = Some egr" "eg_kafkaMgr egr \<noteq> None" "fifo_content (eg_fifo egr) = []"
      "0 < fifo_room (eg_fifo egr)"
    and r: "r = new_record (ie_now env (2 * ir_count st)) t (take (length (metrics mt)) (map fill vals))"
      "json = json_body (ie_now env (2 * ir_count st + 1)) (nodeInfo imdb) name r @ ''}''" "length json < MAX_DATA_STR_LEN"
  shows "\<exists>imdb' t'. pipeline ffmt env res (segs_fmt segs) (segs_args segs) ref st 
        = Some (Inr (imdb', if taken (res 0) then [json] else []))
    \<and> tables imdb' = (tables imdb)[ti := t']
    \<and> stored (ie_uh env) t' = filter (\<lambda>r'. key_bytes r' \<noteq> key_bytes r) (stored (ie_uh env) t) @ [r]
    \<and> updateTime r = ie_now env (2 * ir_count st)
    \<and> metrics r = map (\<lambda>(m, v). m\<lparr>m_val := take 511 (fill v)\<rparr>) (zip (metrics mt) vals)"
proof -
  have m: "mscript (ir_heap st) = []" using st(1) by (simp add: ingress_ok_def)
  obtain f1 where f1: "FifoPut (get_fifo (ir_mgr st) ref) (Some (segs_text segs)) = Inr (f1, 0)" "fifo_wf f1"
    "fifo_content f1 = [Some (segs_text segs)]"
    using fq.put_room [OF st(3,5), of "Some (segs_text segs)"] st(4) by auto
  let ?st1 = "st\<lparr>ir_mgr := set_fifo (ir_mgr st) ref f1, ir_heap := (ir_heap st)\<lparr>mlive := mlive (ir_heap st) + 1\<rparr>\<rparr>"
  have print: "probe_prints ffmt True (segs_fmt segs) (segs_args segs) ref st = Inr (?st1, 0)"
    using wrap_fprintf_run [OF line(1), of ffmt True] f1(1) line(2,3) m by (simp add: probe_prints_def)
  have ok: "ingress_ok env ?st1" using st(1) by (simp add: ingress_ok_def set_fifo_same)
  have fifo: "get_fifo (ir_mgr ?st1) ref = f1" using st(2) by simp
  obtain st2 t' where st2: "IngressDataProcesssInput env ref True ?st1 = Some (Inr (st2, 0))"
    "tables (ig_imdbMgr (ir_mgr st2)) = (tables imdb)[ti := t']"
    "stored (ie_uh env) t' = filter (\<lambda>r'. key_bytes r' \<noteq> key_bytes r) (stored (ie_uh env) t) @ [r]"
    "updateTime r = ie_now env (2 * ir_count st)" "metrics r = map (\<lambda>(m, v). m\<lparr>m_val := take 511 (fill v)\<rparr>) (zip (metrics mt) vals)"
    "queued ?st1 json st2" "ingress_ok env st2"
    "map_option eg_kafkaMgr (ig_egressMgr (ir_mgr st2)) = map_option eg_kafkaMgr (ig_egressMgr (ir_mgr ?st1))"
    using Input_record [OF ok _ _ _ name vals _ imdb(2,3) t, of ref r] st(2) fifo f1(2,3) line(2) imdb(1) r
    by (auto simp: set_fifo_same)
  from st2(8) eg obtain egr2 where egr2: "ig_egressMgr (ir_mgr st2) = Some egr2" "eg_kafkaMgr egr2 = eg_kafkaMgr egr"
    by (auto simp: set_fifo_same)
  have "fifo_content (eg_fifo egr2) = [Some json]"
    using st2(6) eg egr2(1) r(3) by (simp add: queued_def egress_queue_def set_fifo_same)
  moreover have "fifo_wf (eg_fifo egr2)" using st2(7) egr2(1) by (simp add: ingress_ok_def)
  ultimately have "egress_turn res st2 = Some (Inr (if taken (res 0) then [json] else []))"
    using Egress_run [of "\<lparr>er_mgr = egr2, er_sent = [], er_count = 0, er_heap = ir_heap st2\<rparr>" "[json]" res] egr2 eg(2)
    by (auto simp: egress_turn_def)
  then show ?thesis
    using print st2(1-5) by (intro exI [of _ "ig_imdbMgr (ir_mgr st2)"] exI [of _ t']) (simp add: pipeline_def)
qed

text \<open>A probe that prints a line with a number into its empty fifo, with Kafka on.\<close>

definition pipe_line :: "seg list" where
  "pipe_line = [SLit ''|task|'', SStr ''a'', SLit ''|'', SU32 1, SLit ''|\<newline>'']"

definition pipe_egress :: EgressMgr where
  "pipe_egress = \<lparr>eg_kafkaMgr = Some (kafka_start example_kafka), egm_interval = 0, egm_timeRange = 0,
     eg_fifo = small_fifo, eg_epoll_fd = 4\<rparr>"

definition pipe_state :: "IMDB_Record list ingress_run" where
  "pipe_state = \<lparr>ir_mgr = \<lparr>ig_probeMgr = \<lparr>pm_size = 1, probes = [(new_probe 3 ''task'')\<lparr>pr_fifo := small_fifo\<rparr>]\<rparr>,
     ig_extendProbeMgr = \<lparr>pm_size = 1, probes = []\<rparr>, ig_imdbMgr = example_db, ig_egressMgr = Some pipe_egress, ig_epoll_fd = 5\<rparr>,
     ir_count = 0, ir_heap = heap0\<rparr>"

lemma pipe_state_ok: "ingress_ok example_env pipe_state" "ref_ok (ir_mgr pipe_state) (PFifo 0)"
  "get_fifo (ir_mgr pipe_state) (PFifo 0) = small_fifo"
  using example_facts small_fifo_ok
  by (simp_all add: ingress_ok_def pipe_state_def example_env_def pipe_egress_def)
    (simp add: example_db_def example_table_def example_meta_def)

lemma pipe_line_text: "list_all seg_ok pipe_line" "segs_text pipe_line = line_of ''task'' [''a'', ''1'']"
  by (simp_all add: pipe_line_def segs_text_def line_of_def content_of_def newline_def plain_def show_nat.simps digit_chars)

theorem probe_line_to_kafka_witness:
  "\<exists>imdb' t' r json. pipeline (\<lambda>f (d :: nat). []) example_env (\<lambda>_ _. Sent) (segs_fmt pipe_line) (segs_args pipe_line) (PFifo 0) pipe_state
      = Some (Inr (imdb', [json]))
    \<and> tables imdb' = [t'] \<and> stored list_uthash t' = [r] \<and> map m_val (metrics r) = [''a'', ''1'']"
proof -
  let ?r = "new_record 7 example_table (take 2 (map fill [''a'', ''1'']))"
  let ?json = "json_body 8 (nodeInfo example_db) ''task'' ?r @ ''}''"
  have r: "metrics ?r = map (\<lambda>(m, v). m\<lparr>m_val := take 511 (fill v)\<rparr>) (zip (metrics example_meta) [''a'', ''1''])"
    using new_record_metrics [OF example_fields(1), of 7 "[''a'', ''1'']"] by (simp add: example_meta_def)
  have "length (show_nat 8000) \<le> 4" by (rule show_nat_length) simp_all
  then have short: "length ?json < MAX_DATA_STR_LEN"
    unfolding json_body_def r by (simp add: quoted_def show_int_def THOUSAND_def example_meta_def example_db_def fill_def json_time_def json_field_def MAX_DATA_STR_LEN_def)
  have eg: "ig_egressMgr (ir_mgr pipe_state) = Some pipe_egress" "eg_kafkaMgr pipe_egress \<noteq> None"
    "fifo_content (eg_fifo pipe_egress) = []" "0 < fifo_room (eg_fifo pipe_egress)"
    by (simp_all add: pipe_state_def pipe_egress_def small_fifo_ok)
  have imdb: "example_db = ig_imdbMgr (ir_mgr pipe_state)" "webServerOn example_db \<noteq> 0" "recordKeySize example_table \<noteq> 0"
    "length (stored (ie_uh example_env) example_table) < unat (recordsCapability example_table)"
    using example_facts by (simp_all add: pipe_state_def example_db_def example_env_def)
  have now: "ie_now example_env (2 * ir_count pipe_state) = 7" "ie_now example_env (2 * ir_count pipe_state + 1) = 8"
    by (simp_all add: example_env_def pipe_state_def)
  have two: "length (metrics example_meta) = 2" by (simp add: example_meta_def)
  have len: "length (line_of ''task'' [''a'', ''1'']) < MAX_DATA_STR_LEN"
    by (simp add: line_of_def content_of_def newline_def MAX_DATA_STR_LEN_def)
  have "taken (\<lambda>_. Sent)" by (simp add: taken_def produce_retry.simps)
  then show ?thesis
    using probe_line_to_kafka [OF pipe_state_ok(1,2), unfolded pipe_state_ok(3), OF small_fifo_ok(1,3) _ pipe_line_text len
        _ _ _ example_clean _ _ imdb(1) example_find imdb(2) example_at(1) [symmetric] example_fields(1) imdb(3,4) eg
        refl refl, unfolded now two, OF _ _ _ _ _ _ short, of "\<lambda>f d. []" "\<lambda>_ _. Sent"] r example_facts small_fifo_ok(2)
    by (fastforce simp: imdb_lens example_env_def example_db_def example_meta_def fill_def)
qed

end
