(* ===== verification/WebServer.thy ===== *)
theory WebServer
  imports ImdbProm
begin

section \<open>The web server\<close>

text \<open>
  \<open>web_server/web_server.c\<close> and \<open>web_server.h\<close>: the daemon of libmicrohttpd and the callback that
  answers a request with the text of a scrape. The library is not part of the repository: whether it
  starts, makes a response, takes the header and queues the response are given. A response made with
  \<open>MHD_RESPMEM_PERSISTENT\<close> is a length and a pointer into the one global buffer; the library sends
  what the buffer holds when it gets to send it.
\<close>

subsection \<open>The operations\<close>

definition MAX_WEBPAGE_BUFFER_SIZE :: int where "MAX_WEBPAGE_BUFFER_SIZE = 8 * 1024 * 64"

record WebServer =
  wsv_port :: u16
  wsv_imdbMgr :: bool
  wsv_daemon :: bool

definition WebServerCreate :: "u16 \<Rightarrow> heap \<Rightarrow> WebServer option \<times> heap" where
  "WebServerCreate port h =
     (let (ok, h1) = malloc h in
      if \<not> ok then (None, h1) else (Some \<lparr>wsv_port = port, wsv_imdbMgr = False, wsv_daemon = False\<rparr>, h1))"

text \<open>The second component says whether a daemon was stopped.\<close>

definition WebServerDestroy :: "WebServer option \<Rightarrow> heap \<Rightarrow> heap \<times> bool" where
  "WebServerDestroy webServer h =
     (case webServer of None \<Rightarrow> (h, False) | Some w \<Rightarrow> (free h, wsv_daemon w))"

definition WebServerStartDaemon :: "bool \<Rightarrow> WebServer \<Rightarrow> WebServer \<times> int" where
  "WebServerStartDaemon started webServer =
     (webServer\<lparr>wsv_daemon := started\<rparr>, if started then 0 else - 1)"

datatype MHD_Result = MHD_NO | MHD_YES

record mhd_answers =
  create_ok :: bool
  header_ok :: bool
  queue_ok :: bool

text \<open>
  The state: the database, the buffer as a string with what follows its first NUL, the lengths of the
  responses that are queued and not sent, in order, and the heap. The last argument is whether \<open>*ptr\<close>
  was set by an earlier call for the request; the result carries its new value.
\<close>

record 'h web =
  web_imdb :: "'h IMDB_DataBaseMgr"
  g_buffer :: cstr
  web_queue :: "nat list"
  web_heap :: heap

text \<open>A scrape writes its text and a NUL over the start of the buffer.\<close>

definition overwrite :: "cstr \<Rightarrow> cstr \<Rightarrow> cstr" where
  "overwrite s buf = s @ nul # drop (length s + 1) buf"

definition WebRequestCallback ::
    "'h uthash \<Rightarrow> int \<Rightarrow> u32 \<Rightarrow> mhd_answers \<Rightarrow> cstr \<Rightarrow> nat \<Rightarrow> bool \<Rightarrow> 'h web \<Rightarrow> MHD_Result \<times> bool \<times> 'h web" where
  "WebRequestCallback uh now to mhd method upload_data_size ptr_set st =
     (if method \<noteq> ''GET'' then (MHD_NO, ptr_set, st)
      else if \<not> ptr_set then (MHD_YES, True, st)
      else if upload_data_size \<noteq> 0 then (MHD_NO, False, st)
      else
        (let (imdb, h, s, blen, ret) = IMDB_DataBase2Prometheus uh now to (web_imdb st) MAX_WEBPAGE_BUFFER_SIZE (web_heap st);
             st1 = st\<lparr>web_imdb := imdb, g_buffer := overwrite s (g_buffer st), web_heap := h\<rparr>
         in if ret < 0 then (MHD_NO, False, st1)
            else if \<not> create_ok mhd then (MHD_NO, False, st1)
            else if \<not> header_ok mhd then (MHD_NO, False, st1)
            else if \<not> queue_ok mhd then (MHD_NO, False, st1)
            else (MHD_YES, False, st1\<lparr>web_queue := web_queue st1 @ [nat (the blen)]\<rparr>)))"

text \<open>The library sends the oldest response.\<close>

definition web_send :: "'h web \<Rightarrow> (cstr \<times> 'h web) option" where
  "web_send st = (case web_queue st of [] \<Rightarrow> None | n # ns \<Rightarrow> Some (take n (g_buffer st), st\<lparr>web_queue := ns\<rparr>))"

subsection \<open>A request\<close>

definition scrape_text :: "'h uthash \<Rightarrow> int \<Rightarrow> u32 \<Rightarrow> 'h IMDB_DataBaseMgr \<Rightarrow> cstr" where
  "scrape_text uh now to mgr =
     concat (map (\<lambda>t. table_text now to (nodeInfo mgr) (t_name t) (stored uh t)) (tables mgr))"

definition scrapable :: "'h uthash \<Rightarrow> int \<Rightarrow> u32 \<Rightarrow> 'h IMDB_DataBaseMgr \<Rightarrow> bool" where
  "scrapable uh now to mgr \<longleftrightarrow>
     list_all (\<lambda>t. list_all (printable (nodeInfo mgr)) (fst (scrape (timed_out now to) 100 (stored uh t)))) (tables mgr)
     \<and> int (length (scrape_text uh now to mgr)) < MAX_WEBPAGE_BUFFER_SIZE"

lemma scrape_run:
  assumes "uthash_ok uh" "mgr_ok uh mgr" "scrapable uh now to mgr"
  shows "\<exists>mgr' h'. IMDB_DataBase2Prometheus uh now to mgr MAX_WEBPAGE_BUFFER_SIZE h
      = (mgr', h', scrape_text uh now to mgr, Some (int (length (scrape_text uh now to mgr))), 0)
    \<and> list_all2 (drained uh) (tables mgr) (tables mgr') \<and> nodeInfo mgr' = nodeInfo mgr
    \<and> tblsCapability mgr' = tblsCapability mgr \<and> mgr_ok uh mgr'
    \<and> map (stored uh) (tables mgr') = map (\<lambda>t. snd (scrape (timed_out now to) 100 (stored uh t))) (tables mgr)"
proof -
  have tok: "\<forall>t \<in> set (tables mgr). table_ok uh t
      \<and> list_all (printable (nodeInfo mgr)) (fst (scrape (timed_out now to) 100 (stored uh t)))"
    using assms(2,3) by (simp add: mgr_ok_def scrapable_def list_all_iff)
  then have tok': "\<forall>t \<in> set (tables mgr). table_ok uh t" by blast
  have len: "int (length (scrape_text uh now to mgr)) < MAX_WEBPAGE_BUFFER_SIZE" using assms(3) by (simp add: scrapable_def)
  from prom_tables_fits [OF assms(1) tok, of "([], MAX_WEBPAGE_BUFFER_SIZE)" h] len obtain ts h1 b where
    run: "prom_tables uh now to (nodeInfo mgr) (tables mgr) h ([], MAX_WEBPAGE_BUFFER_SIZE) = (ts, h1, b, 0)"
    "prints ([], MAX_WEBPAGE_BUFFER_SIZE) b (scrape_text uh now to mgr)"
    "map (stored uh) ts = map (\<lambda>t. snd (scrape (timed_out now to) 100 (stored uh t))) (tables mgr)"
    by (auto simp: scrape_text_def)
  moreover have dr: "list_all2 (drained uh) (tables mgr) ts"
    using prom_tables_prints [OF assms(1) tok' _ run(1)] by (simp add: MAX_WEBPAGE_BUFFER_SIZE_def)
  moreover have "map t_name ts = map t_name (tables mgr)"
    using dr by (induction rule: list_all2_induct) (auto simp: drained_def dest: table_ok_cong)
  moreover have "\<forall>t \<in> set ts. table_ok uh t"
    using dr tok' by (induction rule: list_all2_induct) (auto intro: drained_ok)
  moreover have "length ts = length (tables mgr)" using dr by (simp add: list_all2_lengthD)
  ultimately show ?thesis
    using assms(2) by (simp add: IMDB_DataBase2Prometheus_def Let_def rdlock_def unlock_def prints_def mgr_ok_def)
qed

lemma take_overwrite: "take (length s) (overwrite s buf) = s"
  by (simp add: overwrite_def)

text \<open>A scrape takes from each table exactly the records it prints and those that have timed out before them.\<close>

definition scraped :: "'h uthash \<Rightarrow> int \<Rightarrow> u32 \<Rightarrow> 'h IMDB_DataBaseMgr \<Rightarrow> 'h IMDB_DataBaseMgr \<Rightarrow> bool" where
  "scraped uh now to mgr mgr' \<longleftrightarrow> nodeInfo mgr' = nodeInfo mgr \<and> mgr_ok uh mgr'
     \<and> list_all2 (\<lambda>t t'. t'\<lparr>records := records t\<rparr> = t
         \<and> stored uh t' = snd (scrape (timed_out now to) 100 (stored uh t))) (tables mgr) (tables mgr')"

lemma callback_run:
  assumes "uthash_ok uh" "mgr_ok uh (web_imdb st)" "scrapable uh now to (web_imdb st)"
    and "create_ok mhd" "header_ok mhd" "queue_ok mhd"
  shows "\<exists>mgr' h'. WebRequestCallback uh now to mhd ''GET'' 0 True st
      = (MHD_YES, False, st\<lparr>web_imdb := mgr', g_buffer := overwrite (scrape_text uh now to (web_imdb st)) (g_buffer st),
           web_queue := web_queue st @ [length (scrape_text uh now to (web_imdb st))], web_heap := h'\<rparr>)
    \<and> scraped uh now to (web_imdb st) mgr'"
proof -
  obtain mgr' h' where 1: "IMDB_DataBase2Prometheus uh now to (web_imdb st) MAX_WEBPAGE_BUFFER_SIZE (web_heap st)
      = (mgr', h', scrape_text uh now to (web_imdb st), Some (int (length (scrape_text uh now to (web_imdb st)))), 0)"
    "list_all2 (drained uh) (tables (web_imdb st)) (tables mgr')" "nodeInfo mgr' = nodeInfo (web_imdb st)" "mgr_ok uh mgr'"
    "map (stored uh) (tables mgr') = map (\<lambda>t. snd (scrape (timed_out now to) 100 (stored uh t))) (tables (web_imdb st))"
    using scrape_run [OF assms(1-3), of "web_heap st"] by blast
  let ?left = "\<lambda>t. snd (scrape (timed_out now to) 100 (stored uh t))"
  have "stored uh (tables mgr' ! i) = ?left (tables (web_imdb st) ! i)" if "i < length (tables (web_imdb st))" for i
    using arg_cong [OF 1(5), of "\<lambda>xs. xs ! i"] that 1(2) by (simp add: list_all2_lengthD)
  then have "scraped uh now to (web_imdb st) mgr'"
    using 1(2-4) by (simp add: scraped_def list_all2_conv_all_nth drained_def)
  with 1 show ?thesis
    using assms(4-6) by (intro exI [of _ mgr'] exI [of _ h']) (simp add: WebRequestCallback_def)
qed


definition example_web :: "IMDB_Record list web" where
  "example_web = \<lparr>web_imdb = example_with [''a'', ''1''], g_buffer = [], web_queue = [], web_heap = heap0\<rparr>"


end
