(* ===== verification/Resource.thy ===== *)
theory Resource
  imports Ingress WebServer Meta
begin

section \<open>The resource manager\<close>

text \<open>
  \<open>resource/resource.c\<close> and \<open>resource.h\<close>: the manager that owns all the others, the table of its ten
  sub-modules with their initialisation and its undoing, and the filling of the database with the
  tables of the meta files. Where components name things alike, the longer name says which is meant.
\<close>

subsection \<open>Tables from measurements\<close>

definition metric_of_field :: "Field \<Rightarrow> heap \<Rightarrow> (IMDB_Metric option \<times> heap) c" where
  "metric_of_field f h = IMDB_MetricCreate (fld_name f) (fld_description f) (fld_type f) h"

text \<open>The loop over the fields; \<open>None\<close> for the jump to \<open>ERR\<close>, where record and metric are destroyed.\<close>

fun load_metrics :: "Field list \<Rightarrow> IMDB_Record \<Rightarrow> u32 \<Rightarrow> heap \<Rightarrow> ((IMDB_Record \<times> u32) option \<times> heap) c" where
  "load_metrics [] meta keyNum h = Inr (Some (meta, keyNum), h)"
| "load_metrics (f # fs) meta keyNum h =
     bindc (metric_of_field f h) (\<lambda>(metric, h1).
       case metric of
         None \<Rightarrow> Inr (None, IMDB_RecordDestroy (Some meta) h1)
       | Some m \<Rightarrow>
           (let (meta1, ret) = IMDB_RecordAddMetric meta m in
            if ret \<noteq> 0 then Inr (None, IMDB_MetricDestroy (Some m) (IMDB_RecordDestroy (Some meta1) h1))
            else load_metrics fs meta1 (if fld_type f = METRIC_TYPE_KEY then keyNum + 1 else keyNum) h1))"

definition IMDBMgrTableLoad :: "'h IMDB_Table \<Rightarrow> Measurement \<Rightarrow> heap \<Rightarrow> ('h IMDB_Table \<times> heap \<times> int) c" where
  "IMDBMgrTableLoad table mm h =
     (let (meta, h1) = IMDB_RecordCreate (of_nat (length (mm_fields mm))) h in
      case meta of
        None \<Rightarrow> Inr (table, h1, - 1)
      | Some r \<Rightarrow>
          bindc (load_metrics (mm_fields mm) r 0 h1) (\<lambda>(res, h2).
            case res of
              None \<Rightarrow> Inr (table, h2, - 1)
            | Some (r1, keyNum) \<Rightarrow>
                (let (table1, ret1) = IMDB_TableSetMeta table r1 in
                 if ret1 \<noteq> 0 then Inr (table1, IMDB_RecordDestroy (Some r1) h2, - 1)
                 else
                   (let (table2, ret2) = IMDB_TableSetRecordKeySize table1 keyNum
                    in if ret2 \<noteq> 0 then Inr (table2, IMDB_RecordDestroy (Some r1) h2, - 1)
                       else Inr (table2, h2, 0)))))"

text \<open>A table that cannot be loaded or added is not given back.\<close>

fun IMDBMgrDatabaseLoad ::
    "'h uthash \<Rightarrow> u32 \<Rightarrow> Measurement list \<Rightarrow> 'h IMDB_DataBaseMgr \<Rightarrow> heap \<Rightarrow> ('h IMDB_DataBaseMgr \<times> heap \<times> int) c" where
  "IMDBMgrDatabaseLoad uh cap [] imdb h = Inr (imdb, h, 0)"
| "IMDBMgrDatabaseLoad uh cap (mm # mms) imdb h =
     (let (table, h1) = IMDB_TableCreate uh (mm_name mm) cap h in
      case table of
        None \<Rightarrow> Inr (imdb, h1, - 1)
      | Some t \<Rightarrow>
          bindc (IMDBMgrTableLoad t mm h1) (\<lambda>(t1, h2, ret).
            if ret \<noteq> 0 then Inr (imdb, h2, - 1)
            else
              (let (imdb1, ret1) = IMDB_DataBaseMgrAddTable imdb t1
               in if ret1 \<noteq> 0 then Inr (imdb1, h2, - 1) else IMDBMgrDatabaseLoad uh cap mms imdb1 h2)))"

subsection \<open>What the tables are\<close>

definition metric_of :: "Field \<Rightarrow> IMDB_Metric" where
  "metric_of f = \<lparr>description = fld_description f, m_type = take 31 (fld_type f), m_name = take 31 (fld_name f), m_val = []\<rparr>"

definition meta_of :: "Measurement \<Rightarrow> IMDB_Record" where
  "meta_of mm = \<lparr>keySize = 0, key = None, updateTime = 0, metricsCapacity = of_nat (length (mm_fields mm)),
     metrics = map metric_of (mm_fields mm)\<rparr>"

definition key_fields :: "Measurement \<Rightarrow> nat" where
  "key_fields mm = length (filter (\<lambda>f. fld_type f = METRIC_TYPE_KEY) (mm_fields mm))"

definition table_of :: "'h uthash \<Rightarrow> u32 \<Rightarrow> Measurement \<Rightarrow> 'h IMDB_Table" where
  "table_of uh cap mm = \<lparr>t_name = take 31 (mm_name mm), t_meta = Some (meta_of mm), recordsCapability = cap,
     recordKeySize = of_nat (512 * key_fields mm), records = uh_empty uh\<rparr>"

text \<open>A measurement as it comes from a meta file, with fields, without percent signs.\<close>

definition plain_field :: "Field \<Rightarrow> bool" where
  "plain_field f \<longleftrightarrow> plain (fld_name f) \<and> plain (fld_description f) \<and> plain (fld_type f)"

definition loadable :: "Measurement \<Rightarrow> bool" where
  "loadable mm \<longleftrightarrow> mm_fields mm \<noteq> [] \<and> length (mm_fields mm) \<le> 128 \<and> list_all field_ok (mm_fields mm)
     \<and> list_all plain_field (mm_fields mm)"

lemma plain_take: "plain s \<Longrightarrow> plain (take n s)"
  by (auto simp: plain_def dest: in_set_takeD)

lemma metric_of_ok: "field_ok f \<Longrightarrow> plain_field f \<Longrightarrow> metric_ok (metric_of f)"
  by (simp add: metric_ok_def metric_of_def field_ok_def plain_field_def plain_take MAX_FIELD_DESCRIPTION_LEN_def)

lemma is_key_metric: "is_key (metric_of f) \<longleftrightarrow> fld_type f = METRIC_TYPE_KEY"
proof -
  have "take 31 (fld_type f) = ''key'' \<longleftrightarrow> fld_type f = ''key''" (is "?l \<longleftrightarrow> ?r")
  proof
    assume l: ?l
    then have "length (take 31 (fld_type f)) = 3" by simp
    then have "length (fld_type f) = 3" by (simp add: min_def split: if_splits)
    with l show ?r by simp
  qed simp
  then show ?thesis by (auto simp: is_key_def metric_of_def METRIC_TYPE_KEY_def)
qed

lemma metric_of_field_run:
  assumes "field_ok f" "plain_field f" "mscript h = []"
  shows "metric_of_field f h = Inr (Some (metric_of f), h\<lparr>mlive := mlive h + 1\<rparr>)"
  using assms
  by (simp add: metric_of_field_def IMDB_MetricCreate_def plain_field_def field_ok_def metric_of_def snprintf_def imdb_lens
      MAX_FIELD_DESCRIPTION_LEN_def)

lemma load_metrics_run:
  assumes "list_all field_ok fs" "list_all plain_field fs" "mscript h = []"
    and "length (metrics meta) + length fs \<le> unat (metricsCapacity meta)"
  shows "load_metrics fs meta keyNum h =
    Inr (Some (meta\<lparr>metrics := metrics meta @ map metric_of fs\<rparr>,
               keyNum + of_nat (length (filter (\<lambda>f. fld_type f = METRIC_TYPE_KEY) fs))),
         h\<lparr>mlive := mlive h + int (length fs)\<rparr>)"
  using assms
proof (induction fs arbitrary: meta keyNum h)
  case (Cons f fs)
  let ?meta = "meta\<lparr>metrics := metrics meta @ [metric_of f]\<rparr>" and ?h = "h\<lparr>mlive := mlive h + 1\<rparr>"
  have step: "load_metrics (f # fs) meta keyNum h
      = load_metrics fs ?meta (if fld_type f = METRIC_TYPE_KEY then keyNum + 1 else keyNum) ?h"
    using Cons.prems by (simp add: metric_of_field_run IMDB_RecordAddMetric_def)
  have "load_metrics fs ?meta k ?h = Inr (Some (?meta\<lparr>metrics := metrics ?meta @ map metric_of fs\<rparr>,
      k + of_nat (length (filter (\<lambda>f. fld_type f = METRIC_TYPE_KEY) fs))), ?h\<lparr>mlive := mlive ?h + int (length fs)\<rparr>)" for k
    using Cons.prems by (intro Cons.IH) simp_all
  then show ?case unfolding step by (simp add: add.assoc del: load_metrics.simps)
qed simp

lemma TableLoad_run:
  assumes "loadable mm" "mscript h = []"
    and "t = \<lparr>t_name = take 31 (mm_name mm), t_meta = None, recordsCapability = cap, recordKeySize = 0, records = uh_empty uh\<rparr>"
  shows "IMDBMgrTableLoad t mm h
    = Inr (table_of uh cap mm, h\<lparr>mlive := mlive h + 2 + int (length (mm_fields mm))\<rparr>, 0)"
proof -
  let ?n = "length (mm_fields mm)"
  have n: "unat (of_nat ?n :: u32) = ?n" "(of_nat ?n :: u32) \<noteq> 0"
    using assms(1) unat_u32 [of ?n] by (auto simp: loadable_def)
  have "IMDB_RecordCreate (of_nat ?n) h = (Some \<lparr>keySize = 0, key = None, updateTime = 0, metricsCapacity = of_nat ?n,
      metrics = []\<rparr>, h\<lparr>mlive := mlive h + 2\<rparr>)"
    using n(2) assms(2) by (simp add: IMDB_RecordCreate_def)
  moreover have "load_metrics (mm_fields mm) \<lparr>keySize = 0, key = None, updateTime = 0, metricsCapacity = of_nat ?n, metrics = []\<rparr> 0
      (h\<lparr>mlive := mlive h + 2\<rparr>) = Inr (Some (meta_of mm, of_nat (key_fields mm)), h\<lparr>mlive := mlive h + 2 + int ?n\<rparr>)"
    using assms(1,2) n(1) load_metrics_run [of "mm_fields mm" "h\<lparr>mlive := mlive h + 2\<rparr>"
        "\<lparr>keySize = 0, key = None, updateTime = 0, metricsCapacity = of_nat ?n, metrics = []\<rparr>" 0]
    by (simp add: loadable_def meta_of_def key_fields_def)
  ultimately show ?thesis
    using assms(3) by (simp add: IMDBMgrTableLoad_def IMDB_TableSetMeta_def IMDB_TableSetRecordKeySize_def table_of_def
        MAX_IMDB_METRIC_VAL_LEN_def mult.commute)
qed

lemma table_of_ok:
  assumes "uthash_ok uh" "loadable mm"
  shows "table_ok uh (table_of uh cap mm)"
proof -
  have st: "stored uh (table_of uh cap mm) = []"
    using uthash_laws(1) [OF assms(1)] by (simp add: stored_def table_of_def)
  have le: "key_fields mm \<le> 128" using assms(2) by (auto simp: key_fields_def loadable_def intro: le_trans [OF length_filter_le])
  then have "unat (recordKeySize (table_of uh cap mm)) = 512 * key_fields mm"
    using unat_u32 [of "512 * key_fields mm"] by (simp add: table_of_def)
  moreover have "filter is_key (map metric_of fs) = map metric_of (filter (\<lambda>f. fld_type f = METRIC_TYPE_KEY) fs)" for fs
    by (induction fs) (auto simp: is_key_metric)
  moreover have "unat (metricsCapacity (meta_of mm)) = length (mm_fields mm)"
    using assms(2) unat_u32 [of "length (mm_fields mm)"] by (simp add: meta_of_def loadable_def)
  ultimately have "meta_ok (recordKeySize (table_of uh cap mm)) (meta_of mm)"
    using assms(2) metric_of_ok by (auto simp: meta_ok_def loadable_def list_all_iff meta_of_def key_fields_def)
  then show ?thesis using st by (simp add: table_ok_def) (simp add: table_of_def)
qed

lemma DatabaseLoad_run:
  assumes "uthash_ok uh" "list_all loadable mms" "mscript h = []"
    and "length (tables imdb) + length mms \<le> unat (tblsCapability imdb)"
    and "distinct (map t_name (tables imdb) @ map (take 31 \<circ> mm_name) mms)"
  shows "IMDBMgrDatabaseLoad uh cap mms imdb h =
    Inr (imdb\<lparr>tables := tables imdb @ map (table_of uh cap) mms\<rparr>,
         h\<lparr>mlive := mlive h + sum_list (map (\<lambda>mm. 4 + int (length (mm_fields mm))) mms)\<rparr>, 0)"
  using assms
proof (induction mms arbitrary: imdb h)
  case (Cons mm mms)
  let ?t0 = "\<lparr>t_name = take 31 (mm_name mm), t_meta = None, recordsCapability = cap, recordKeySize = 0, records = uh_empty uh\<rparr>"
  let ?h = "h\<lparr>mlive := mlive h + 4 + int (length (mm_fields mm))\<rparr>"
  let ?imdb = "imdb\<lparr>tables := tables imdb @ [table_of uh cap mm]\<rparr>"
  have "IMDB_TableCreate uh (mm_name mm) cap h = (Some ?t0, h\<lparr>mlive := mlive h + 2\<rparr>)"
    using Cons.prems(3) by (simp add: IMDB_TableCreate_def strncpy_def imdb_lens)
  moreover have "IMDBMgrTableLoad ?t0 mm (h\<lparr>mlive := mlive h + 2\<rparr>) = Inr (table_of uh cap mm, ?h, 0)"
    using Cons.prems(2,3) TableLoad_run [of mm "h\<lparr>mlive := mlive h + 2\<rparr>" ?t0 cap uh] by simp
  moreover have nm: "t_name (table_of uh cap mm) = take 31 (mm_name mm)" by (simp add: table_of_def)
  moreover have "IMDB_DataBaseMgrAddTable imdb (table_of uh cap mm) = (?imdb, 0)"
    using Cons.prems(4,5) nm by (force simp: IMDB_DataBaseMgrAddTable_def list_ex_iff)
  ultimately have "IMDBMgrDatabaseLoad uh cap (mm # mms) imdb h = IMDBMgrDatabaseLoad uh cap mms ?imdb ?h" by simp
  also have "\<dots> = Inr (?imdb\<lparr>tables := tables ?imdb @ map (table_of uh cap) mms\<rparr>,
      ?h\<lparr>mlive := mlive ?h + sum_list (map (\<lambda>mm. 4 + int (length (mm_fields mm))) mms)\<rparr>, 0)"
    using Cons.prems nm by (intro Cons.IH) auto
  finally show ?case by (simp add: algebra_simps)
qed simp

text \<open>C28: From well-formed measurements with fields, without percent signs and with names that differ
  in their first 31 characters, the load gives the database one table for each, in order, empty, with
  the fields as its metrics and 512 bytes of key for each key field; a database that was well-formed
  stays so. This is what the ingress thread and the web server rely on.\<close>
theorem DatabaseLoad_tables:
  assumes "uthash_ok uh" "mgr_ok uh imdb" "list_all loadable mms" "mscript h = []"
    and "length (tables imdb) + length mms \<le> unat (tblsCapability imdb)"
    and "distinct (map t_name (tables imdb) @ map (take 31 \<circ> mm_name) mms)"
  shows "\<exists>imdb' h'. IMDBMgrDatabaseLoad uh cap mms imdb h = Inr (imdb', h', 0)
    \<and> mgr_ok uh imdb'
    \<and> map t_name (tables imdb') = map t_name (tables imdb) @ map (take 31 \<circ> mm_name) mms
    \<and> list_all2 (\<lambda>mm t. stored uh t = [] \<and> recordsCapability t = cap \<and> unat (recordKeySize t) = 512 * key_fields mm
         \<and> map m_name (metrics (the (t_meta t))) = map (take 31 \<circ> fld_name) (mm_fields mm))
       mms (drop (length (tables imdb)) (tables imdb'))
    \<and> mlive h' - mgr_blocks uh imdb' = mlive h - mgr_blocks uh imdb"
proof -
  let ?imdb = "imdb\<lparr>tables := tables imdb @ map (table_of uh cap) mms\<rparr>"
  have st: "stored uh (table_of uh cap mm) = []" for mm
    using uthash_laws(1) [OF assms(1)] by (simp add: stored_def table_of_def)
  have "table_blocks uh (table_of uh cap mm) = 4 + int (length (mm_fields mm))" for mm
    using uthash_laws(1) [OF assms(1)] by (simp add: table_blocks_def recs_blocks_def table_of_def meta_of_def rec_blocks_def)
  then have blocks: "mgr_blocks uh ?imdb = mgr_blocks uh imdb + sum_list (map (\<lambda>mm. 4 + int (length (mm_fields mm))) mms)"
    by (simp add: mgr_blocks_def comp_def)
  have ks: "unat (recordKeySize (table_of uh cap mm)) = 512 * key_fields mm" if "loadable mm" for mm
  proof -
    have "key_fields mm \<le> 128" using that by (auto simp: key_fields_def loadable_def intro: le_trans [OF length_filter_le])
    then show ?thesis using unat_u32 [of "512 * key_fields mm"] by (simp add: table_of_def)
  qed
  have "mgr_ok uh ?imdb"
    using assms table_of_ok [OF assms(1)] by (auto simp: mgr_ok_def list_all_iff table_of_def comp_def)
  then show ?thesis
    using DatabaseLoad_run [OF assms(1,3-6), of cap] blocks assms(3) ks
    by (intro exI [of _ ?imdb] exI)
      (auto simp: list_all2_conv_all_nth list_all_length st, simp_all add: table_of_def meta_of_def metric_of_def comp_def)
qed

theorem DatabaseLoad_tables_witness:
  "\<exists>imdb' h'. IMDBMgrDatabaseLoad list_uthash 100 (measurements example_mgr)
       (example_db\<lparr>tables := []\<rparr>) \<lparr>mscript = [], mlive = 5\<rparr> = Inr (imdb', h', 0)
     \<and> mgr_ok list_uthash imdb' \<and> map t_name (tables imdb') = [''net'']"
proof -
  have "mgr_ok list_uthash (example_db\<lparr>tables := []\<rparr>)" by (simp add: mgr_ok_def example_db_def)
  moreover have "list_all loadable (measurements example_mgr)"
    by (simp add: example_mgr_def loadable_def field_ok_def plain_field_def plain_def MAX_FIELD_DESCRIPTION_LEN_def
        MAX_FIELD_TYPE_LEN_def MAX_FIELD_NAME_LEN_def)
  ultimately show ?thesis
    using DatabaseLoad_tables [OF list_uthash_ok, of "example_db\<lparr>tables := []\<rparr>" "measurements example_mgr" "\<lparr>mscript = [], mlive = 5\<rparr>" 100]
    by (auto simp: example_db_def example_mgr_def)
qed

subsection \<open>The resource manager\<close>

text \<open>
  \<open>rs_freed\<close> says that the block \<open>rs_extendProbeMgr\<close> points to has been freed. The ingress manager
  holds copies of pointers that are in the resource manager as well, so only its existence is kept.
\<close>

record 'h ResourceMgr =
  rs_configMgr :: "ConfigMgr option"
  rs_imdbMgr :: "'h IMDB_DataBaseMgr option"
  rs_probeMgr :: "Probe ProbeMgr option"
  rs_extendProbeMgr :: "ExtendProbeMgr option"
  rs_freed :: bool
  rs_mmMgr :: "MeasurementMgr option"
  rs_fifoMgr :: "cstr Fifo FifoMgr option"
  rs_kafkaMgr :: "KafkaMgr option"
  rs_ingressMgr :: bool
  rs_egressMgr :: "EgressMgr option"
  rs_webServer :: "WebServer option"
  rs_keeplive_timer :: bool

definition null_resource :: "'h ResourceMgr" where
  "null_resource = \<lparr>rs_configMgr = None, rs_imdbMgr = None, rs_probeMgr = None, rs_extendProbeMgr = None,
     rs_freed = False, rs_mmMgr = None, rs_fifoMgr = None, rs_kafkaMgr = None, rs_ingressMgr = False,
     rs_egressMgr = None, rs_webServer = None, rs_keeplive_timer = False\<rparr>"

text \<open>What the environment answers: the libraries, the files and the build.\<close>

record ('c, 's, 'h) rs_env =
  re_uh :: "'h uthash"
  re_lc :: "('c, 's) libconfig"
  re_confPath :: cstr
  re_metaDir :: "cstr list option"
  re_efd :: int
  re_probesList :: cstr
  re_probesMetaList :: cstr
  re_dlopen :: bool
  re_dlsym :: "cstr \<Rightarrow> bool"
  re_kafka :: kafka_lib
  re_machineId :: "cstr option"
  re_hostName :: "cstr option"
  re_lock :: bool

record 'h rs_state =
  rs :: "'h ResourceMgr"
  rs_heap :: heap
  rs_objs :: kafka_objs
  rs_timeout :: u32

type_synonym ('c, 's, 'h) rs_init = "('c, 's, 'h) rs_env \<Rightarrow> 'h rs_state \<Rightarrow> ('h rs_state \<times> int) c"
type_synonym ('c, 's, 'h) rs_deinit = "('c, 's, 'h) rs_env \<Rightarrow> 'h rs_state \<Rightarrow> 'h rs_state c"

definition GALA_META_DIR_PATH :: cstr where "GALA_META_DIR_PATH = ''/opt/gala-gopher/meta''"
definition MAX_FIFO_NUM :: u32 where "MAX_FIFO_NUM = 32"

definition ResourceMgrCreate :: "heap \<Rightarrow> 'h ResourceMgr option \<times> heap" where
  "ResourceMgrCreate h = (let (ok, h1) = malloc h in if \<not> ok then (None, h1) else (Some null_resource, h1))"

text \<open>The second block is the path of the configuration file, when there is one.\<close>

definition ResourceMgrDestroy :: "'h ResourceMgr option \<Rightarrow> cstr option \<Rightarrow> heap \<Rightarrow> heap" where
  "ResourceMgrDestroy m g_galaConfPath h =
     (let h1 = (if m \<noteq> None then free h else h) in if g_galaConfPath \<noteq> None then free h1 else h1)"

text \<open>\<open>resourceMgr->configMgr\<close> and a section of it.\<close>

definition need :: "'a option \<Rightarrow> ('a \<Rightarrow> 'b c) \<Rightarrow> 'b c" where
  "need p f = (case p of None \<Rightarrow> Inl NullDeref | Some x \<Rightarrow> f x)"

subsection \<open>The sub-modules\<close>

definition ConfigMgrInit :: "('c, 's, 'h) rs_init" where
  "ConfigMgrInit env st =
     (let (m, h1) = ConfigMgrCreate (rs_heap st); st1 = st\<lparr>rs_heap := h1\<rparr> in
      case m of
        None \<Rightarrow> Inr (st1, - 1)
      | Some mgr \<Rightarrow>
          bindc (ConfigMgrLoad (re_lc env) mgr h1 (re_confPath env)) (\<lambda>(mgr1, h2, ret).
            if ret \<noteq> 0 then Inr (st1\<lparr>rs_heap := ConfigMgrDestroy (Some mgr1) h2\<rparr>, - 1)
            else Inr (st1\<lparr>rs := (rs st1)\<lparr>rs_configMgr := Some mgr1\<rparr>, rs_heap := h2\<rparr>, 0)))"

definition ConfigMgrDeinit :: "('c, 's, 'h) rs_deinit" where
  "ConfigMgrDeinit env st =
     Inr (st\<lparr>rs_heap := ConfigMgrDestroy (rs_configMgr (rs st)) (rs_heap st), rs := (rs st)\<lparr>rs_configMgr := None\<rparr>\<rparr>)"

text \<open>A probe that is configured gets its switch and its parameters; bad parameters are only logged.\<close>

fun update_first :: "('a \<Rightarrow> bool) \<Rightarrow> ('a \<Rightarrow> 'a c) \<Rightarrow> 'a list \<Rightarrow> 'a list c" where
  "update_first P f [] = Inr []"
| "update_first P f (x # xs) =
     (if P x then bindc (f x) (\<lambda>y. Inr (y # xs)) else bindc (update_first P f xs) (\<lambda>ys. Inr (x # ys)))"

definition refresh_probe :: "ProbeConfig \<Rightarrow> Probe ProbeMgr \<Rightarrow> Probe ProbeMgr c" where
  "refresh_probe pc mgr =
     bindc (update_first (\<lambda>p. pr_name p = pc_name pc)
         (\<lambda>p. bindc (params_parse (pc_param pc)) (\<lambda>(params, ret).
            Inr (p\<lparr>pr_switch := pc_switch pc, pr_params := params\<rparr>))) (probes mgr))
       (\<lambda>ps. Inr (mgr\<lparr>probes := ps\<rparr>))"

definition ProbeMgrInit :: "('c, 's, 'h) rs_init" where
  "ProbeMgrInit env st =
     (let (m, h1) = ProbeMgrCreate (of_nat MAX_PROBES_NUM) (rs_heap st); st1 = st\<lparr>rs_heap := h1\<rparr> in
      case m of
        None \<Rightarrow> Inr (st1, - 1)
      | Some mgr \<Rightarrow>
          bindc (ProbeMgrLoadProbes (re_efd env) (re_probesList env) (re_probesMetaList env) (re_dlopen env) (re_dlsym env) mgr h1)
            (\<lambda>(mgr1, h2, ret).
              if ret \<noteq> 0 then Inr (st1\<lparr>rs_heap := ProbeMgrDestroy (Some mgr1) h2\<rparr>, - 1)
              else
                need (rs_configMgr (rs st1)) (\<lambda>cfg. need (probesConfig cfg) (\<lambda>pcs.
                  bindc (foldc refresh_probe pcs mgr1) (\<lambda>mgr2.
                    Inr (st1\<lparr>rs := (rs st1)\<lparr>rs_probeMgr := Some mgr2\<rparr>, rs_heap := h2\<rparr>, 0))))))"

definition ProbeMgrDeinit :: "('c, 's, 'h) rs_deinit" where
  "ProbeMgrDeinit env st =
     Inr (st\<lparr>rs_heap := ProbeMgrDestroy (rs_probeMgr (rs st)) (rs_heap st), rs := (rs st)\<lparr>rs_probeMgr := None\<rparr>\<rparr>)"

text \<open>On failure neither the manager nor the new probe is given back.\<close>

fun load_extend :: "int \<Rightarrow> ExtendProbeConfig list \<Rightarrow> ExtendProbeMgr \<Rightarrow> heap \<Rightarrow> ExtendProbeMgr \<times> heap \<times> int" where
  "load_extend efd [] mgr h = (mgr, h, 0)"
| "load_extend efd (c # cs) mgr h =
     (let (probe, h1) = ExtendProbeCreate efd h in
      case probe of
        None \<Rightarrow> (mgr, h1, - 1)
      | Some p \<Rightarrow>
          (let p1 = p\<lparr>xp_name := strncpy (MAX_PROBE_NAME_LEN - 1) (ec_name c),
                      executeCommand := strncpy (MAX_EXTEND_PROBE_COMMAND_LEN - 1) (ec_command c),
                      executeParam := strncpy (MAX_PARAM_LEN - 1) (ec_param c),
                      startChkCmd := strncpy (MAX_EXTEND_PROBE_COMMAND_LEN - 1) (ec_startChkCmd c),
                      probeSwitch := ec_switch c, chkType := ec_startChkType c\<rparr>;
               (mgr1, ret) = ExtendProbeMgrPut mgr p1
           in if ret \<noteq> 0 then (mgr1, h1, - 1) else load_extend efd cs mgr1 h1))"

definition ExtendProbeMgrInit :: "('c, 's, 'h) rs_init" where
  "ExtendProbeMgrInit env st =
     (let (m, h1) = ExtendProbeMgrCreate (of_nat MAX_EXTEND_PROBES_NUM) (rs_heap st); st1 = st\<lparr>rs_heap := h1\<rparr> in
      case m of
        None \<Rightarrow> Inr (st1, - 1)
      | Some mgr \<Rightarrow>
          need (rs_configMgr (rs st1)) (\<lambda>cfg. need (extendProbesConfig cfg) (\<lambda>cs.
            let (mgr1, h2, ret) = load_extend (re_efd env) cs mgr h1; st2 = st1\<lparr>rs_heap := h2\<rparr>
            in if ret \<noteq> 0 then Inr (st2, - 1)
               else Inr (st2\<lparr>rs := (rs st2)\<lparr>rs_extendProbeMgr := Some mgr1, rs_freed := False\<rparr>\<rparr>, 0))))"

text \<open>The pointer that is set to NULL is that of the probe manager.\<close>

definition ExtendProbeMgrDeinit :: "('c, 's, 'h) rs_deinit" where
  "ExtendProbeMgrDeinit env st =
     (if rs_extendProbeMgr (rs st) \<noteq> None \<and> rs_freed (rs st) then Inl DoubleFree
      else
        Inr (st\<lparr>rs_heap := ExtendProbeMgrDestroy (rs_extendProbeMgr (rs st)) (rs_heap st),
                rs := (rs st)\<lparr>rs_freed := (rs_extendProbeMgr (rs st) \<noteq> None), rs_probeMgr := None\<rparr>\<rparr>))"

definition MeasurementMgrInit :: "('c, 's, 'h) rs_init" where
  "MeasurementMgrInit env st =
     need (rs_configMgr (rs st)) (\<lambda>cfg. need (imdbConfig cfg) (\<lambda>ic.
       let (m, h1) = MeasurementMgrCreate (maxTablesNum ic) (maxMetricsNum ic) (rs_heap st); st1 = st\<lparr>rs_heap := h1\<rparr> in
       case m of
         None \<Rightarrow> Inr (st1, - 1)
       | Some mgr \<Rightarrow>
           bindc (MeasurementMgrLoad (re_lc env) mgr h1 GALA_META_DIR_PATH (re_metaDir env)) (\<lambda>(mgr1, h2, ret).
             if ret \<noteq> 0 then Inr (st1\<lparr>rs_heap := MeasurementMgrDestroy (Some mgr1) h2\<rparr>, - 1)
             else Inr (st1\<lparr>rs := (rs st1)\<lparr>rs_mmMgr := Some mgr1\<rparr>, rs_heap := h2\<rparr>, 0))))"

definition MeasurementMgrDeinit :: "('c, 's, 'h) rs_deinit" where
  "MeasurementMgrDeinit env st =
     Inr (st\<lparr>rs_heap := MeasurementMgrDestroy (rs_mmMgr (rs st)) (rs_heap st), rs := (rs st)\<lparr>rs_mmMgr := None\<rparr>\<rparr>)"

definition FifoMgrInit :: "('c, 's, 'h) rs_init" where
  "FifoMgrInit env st =
     (let (m, h1) = FifoMgrCreate MAX_FIFO_NUM (rs_heap st); st1 = st\<lparr>rs_heap := h1\<rparr> in
      case m of
        None \<Rightarrow> Inr (st1, - 1)
      | Some mgr \<Rightarrow> Inr (st1\<lparr>rs := (rs st1)\<lparr>rs_fifoMgr := Some mgr\<rparr>\<rparr>, 0))"

definition FifoMgrDeinit :: "('c, 's, 'h) rs_deinit" where
  "FifoMgrDeinit env st =
     Inr (st\<lparr>rs_heap := FifoMgrDestroy (rs_fifoMgr (rs st)) (rs_heap st), rs := (rs st)\<lparr>rs_fifoMgr := None\<rparr>\<rparr>)"

definition KafkaMgrInit :: "('c, 's, 'h) rs_init" where
  "KafkaMgrInit env st =
     need (rs_configMgr (rs st)) (\<lambda>cfg. need (kafkaConfig cfg) (\<lambda>kc.
       if kafkaSwitch kc = KAFKA_SWITCH_OFF then Inr (st, 0)
       else
         bindc (KafkaMgrCreate (re_kafka env) kc (rs_heap st) (rs_objs st)) (\<lambda>(m, h1, objs1).
           let st1 = st\<lparr>rs_heap := h1, rs_objs := objs1\<rparr> in
           case m of
             None \<Rightarrow> Inr (st1, - 1)
           | Some mgr \<Rightarrow> Inr (st1\<lparr>rs := (rs st1)\<lparr>rs_kafkaMgr := Some mgr\<rparr>\<rparr>, 0))))"

definition KafkaMgrDeinit :: "('c, 's, 'h) rs_deinit" where
  "KafkaMgrDeinit env st =
     bindc (KafkaMgrDestroy (rs_kafkaMgr (rs st)) (rs_heap st) (rs_objs st)) (\<lambda>(h1, objs1).
       Inr (st\<lparr>rs_heap := h1, rs_objs := objs1, rs := (rs st)\<lparr>rs_kafkaMgr := None\<rparr>\<rparr>))"

definition IMDBMgrInit :: "('c, 's, 'h) rs_init" where
  "IMDBMgrInit env st =
     need (rs_configMgr (rs st)) (\<lambda>cfg. need (imdbConfig cfg) (\<lambda>ic.
       let (m, h1) = IMDB_DataBaseMgrCreate (re_machineId env) (re_hostName env) (re_lock env) (maxTablesNum ic) (rs_heap st);
           st1 = st\<lparr>rs_heap := h1\<rparr>
       in case m of
            None \<Rightarrow> Inr (st1, - 1)
          | Some mgr \<Rightarrow>
              (let st2 = st1\<lparr>rs_timeout := IMDB_DataBaseMgrSetRecordTimeout (recordTimeout ic) (rs_timeout st1)\<rparr> in
               need (rs_mmMgr (rs st2)) (\<lambda>mms.
                 bindc (IMDBMgrDatabaseLoad (re_uh env) (maxRecordsNum ic) (measurements mms) mgr h1) (\<lambda>(mgr1, h2, ret).
                   if ret \<noteq> 0 then Inr (st2\<lparr>rs_heap := IMDB_DataBaseMgrDestroy (re_uh env) (Some mgr1) h2\<rparr>, - 1)
                   else Inr (st2\<lparr>rs := (rs st2)\<lparr>rs_imdbMgr := Some mgr1\<rparr>, rs_heap := h2\<rparr>, 0))))))"

definition IMDBMgrDeinit :: "('c, 's, 'h) rs_deinit" where
  "IMDBMgrDeinit env st =
     Inr (st\<lparr>rs_heap := IMDB_DataBaseMgrDestroy (re_uh env) (rs_imdbMgr (rs st)) (rs_heap st),
             rs := (rs st)\<lparr>rs_imdbMgr := None\<rparr>\<rparr>)"

definition EgressMgrInit :: "('c, 's, 'h) rs_init" where
  "EgressMgrInit env st =
     (let (m, h1) = EgressMgrCreate (re_efd env) (rs_heap st); st1 = st\<lparr>rs_heap := h1\<rparr> in
      case m of
        None \<Rightarrow> Inr (st1, - 1)
      | Some mgr \<Rightarrow>
          need (rs_configMgr (rs st1)) (\<lambda>cfg. need (egressConfig cfg) (\<lambda>ec.
            Inr (st1\<lparr>rs := (rs st1)\<lparr>rs_egressMgr :=
                   Some (mgr\<lparr>eg_kafkaMgr := rs_kafkaMgr (rs st1), egm_interval := eg_interval ec,
                             egm_timeRange := eg_timeRange ec\<rparr>)\<rparr>\<rparr>, 0))))"

definition EgressMgrDeinit :: "('c, 's, 'h) rs_deinit" where
  "EgressMgrDeinit env st =
     Inr (st\<lparr>rs_heap := EgressMgrDestroy (rs_egressMgr (rs st)) (rs_heap st), rs := (rs st)\<lparr>rs_egressMgr := None\<rparr>\<rparr>)"

definition IngressMgrInit :: "('c, 's, 'h) rs_init" where
  "IngressMgrInit env st =
     (let (ok, h1) = IngressMgrCreate (rs_heap st); st1 = st\<lparr>rs_heap := h1\<rparr>
      in if \<not> ok then Inr (st1, - 1) else Inr (st1\<lparr>rs := (rs st1)\<lparr>rs_ingressMgr := True\<rparr>\<rparr>, 0))"

definition IngressMgrDeinit :: "('c, 's, 'h) rs_deinit" where
  "IngressMgrDeinit env st =
     Inr (st\<lparr>rs_heap := (if rs_ingressMgr (rs st) then free (rs_heap st) else rs_heap st),
             rs := (rs st)\<lparr>rs_ingressMgr := False\<rparr>\<rparr>)"

definition WebServerInit :: "('c, 's, 'h) rs_init" where
  "WebServerInit env st =
     need (rs_configMgr (rs st)) (\<lambda>cfg. need (webServerConfig cfg) (\<lambda>wc.
       if ws_on wc = 0 then Inr (st, 0)
       else
         (let (w, h1) = WebServerCreate (ws_port wc) (rs_heap st); st1 = st\<lparr>rs_heap := h1\<rparr> in
          case w of
            None \<Rightarrow> Inr (st1, - 1)
          | Some ws \<Rightarrow>
              Inr (st1\<lparr>rs := (rs st1)\<lparr>rs_webServer := Some (ws\<lparr>wsv_imdbMgr := (rs_imdbMgr (rs st1) \<noteq> None)\<rparr>),
                     rs_imdbMgr := map_option (\<lambda>m. m\<lparr>webServerOn := 1\<rparr>) (rs_imdbMgr (rs st1))\<rparr>\<rparr>, 0))))"

definition WebServerDeinit :: "('c, 's, 'h) rs_deinit" where
  "WebServerDeinit env st =
     Inr (st\<lparr>rs_heap := fst (WebServerDestroy (rs_webServer (rs st)) (rs_heap st)),
             rs := (rs st)\<lparr>rs_webServer := None\<rparr>\<rparr>)"

subsection \<open>All of them in order\<close>

definition gSubModuleInitorTbl :: "(('c, 's, 'h) rs_init \<times> ('c, 's, 'h) rs_deinit) list" where
  "gSubModuleInitorTbl =
     [(ConfigMgrInit, ConfigMgrDeinit), (ProbeMgrInit, ProbeMgrDeinit), (ExtendProbeMgrInit, ExtendProbeMgrDeinit),
      (MeasurementMgrInit, MeasurementMgrDeinit), (FifoMgrInit, FifoMgrDeinit), (KafkaMgrInit, KafkaMgrDeinit),
      (IMDBMgrInit, IMDBMgrDeinit), (EgressMgrInit, EgressMgrDeinit), (IngressMgrInit, IngressMgrDeinit),
      (WebServerInit, WebServerDeinit)]"

fun run_inits :: "('c, 's, 'h) rs_init list \<Rightarrow> ('c, 's, 'h) rs_init" where
  "run_inits [] env st = Inr (st, 0)"
| "run_inits (f # fs) env st = bindc (f env st) (\<lambda>(st1, ret). if ret \<noteq> 0 then Inr (st1, - 1) else run_inits fs env st1)"

definition ResourceMgrInit :: "('c, 's, 'h) rs_init" where
  "ResourceMgrInit = run_inits (map fst gSubModuleInitorTbl)"

definition ResourceMgrDeleteTimer :: "'h rs_state \<Rightarrow> 'h rs_state" where
  "ResourceMgrDeleteTimer st = st\<lparr>rs := (rs st)\<lparr>rs_keeplive_timer := False\<rparr>\<rparr>"

definition ResourceMgrDeinit :: "('c, 's, 'h) rs_deinit" where
  "ResourceMgrDeinit env st = foldc (\<lambda>f. f env) (map snd gSubModuleInitorTbl) (ResourceMgrDeleteTimer st)"

subsection \<open>The blocks that a manager owns\<close>

definition cfg_ok :: "ConfigMgr \<Rightarrow> bool" where
  "cfg_ok cfg \<longleftrightarrow> (\<exists>L h. config_inv L cfg h)"

definition cfg_blocks :: "ConfigMgr \<Rightarrow> int" where
  "cfg_blocks cfg = 9 + int (length (the (probesConfig cfg))) + int (length (the (extendProbesConfig cfg)))"

definition blocks_of :: "('a \<Rightarrow> int) \<Rightarrow> 'a option \<Rightarrow> int" where
  "blocks_of f p = (case p of None \<Rightarrow> 0 | Some x \<Rightarrow> f x)"

lemma blocks_of_simps [simp]: "blocks_of f None = 0" "blocks_of f (Some x) = f x"
  by (simp_all add: blocks_of_def)

definition rs_blocks :: "'h uthash \<Rightarrow> 'h ResourceMgr \<Rightarrow> int" where
  "rs_blocks uh r =
     blocks_of cfg_blocks (rs_configMgr r) + blocks_of (mgr_blocks uh) (rs_imdbMgr r)
     + blocks_of (\<lambda>m. 2 + 3 * int (length (probes m))) (rs_probeMgr r)
     + (if rs_freed r then 0 else blocks_of (\<lambda>m. 2 + 3 * int (length (probes m))) (rs_extendProbeMgr r))
     + blocks_of (\<lambda>m. 2 + int (length (measurements m))) (rs_mmMgr r) + blocks_of (\<lambda>_. 2) (rs_fifoMgr r)
     + blocks_of (\<lambda>_. 1) (rs_kafkaMgr r) + (if rs_ingressMgr r then 1 else 0) + blocks_of (\<lambda>_. 3) (rs_egressMgr r)
     + blocks_of (\<lambda>_. 1) (rs_webServer r)"

definition rs_ledger :: "('c, 's, 'h) rs_env \<Rightarrow> 'h rs_state \<Rightarrow> int" where
  "rs_ledger env st = mlive (rs_heap st) - rs_blocks (re_uh env) (rs st)"

lemma cfg_inv_eq: "config_inv L cfg h \<longleftrightarrow> cfg_ok cfg \<and> mlive h = L + cfg_blocks cfg"
proof
  assume i: "config_inv L cfg h"
  then show "cfg_ok cfg \<and> mlive h = L + cfg_blocks cfg"
    unfolding cfg_ok_def by (intro conjI exI) (auto simp: config_inv_def cfg_blocks_def)
qed (auto simp: cfg_ok_def config_inv_def cfg_blocks_def)

lemma cfg_destroy: "cfg_ok cfg \<Longrightarrow> mlive (ConfigMgrDestroy (Some cfg) h) = mlive h - cfg_blocks cfg + 2"
  using destroy_inv [of "mlive h - cfg_blocks cfg" cfg h] cfg_inv_eq by simp

lemma ProbeMgrDestroy_live [heap_simps]: "mlive (ProbeMgrDestroy (Some m) h) = mlive h - (2 + 3 * int (length (probes m)))"
proof -
  have "mlive (foldl (\<lambda>h p. ProbeDestroy (Some p) h) h ps) = mlive h - 3 * int (length ps)" for ps
    by (induction ps arbitrary: h) (simp_all add: ProbeDestroy_def FifoDestroy_def)
  then show ?thesis by (simp add: ProbeMgrDestroy_def)
qed

lemma ExtendProbeMgrDestroy_live [heap_simps]:
  "mlive (ExtendProbeMgrDestroy (Some m) h) = mlive h - (2 + 3 * int (length (probes m)))"
proof -
  have "mlive (foldl (\<lambda>h p. ExtendProbeDestroy (Some p) h) h ps) = mlive h - 3 * int (length ps)" for ps
    by (induction ps arbitrary: h) (simp_all add: ExtendProbeDestroy_def FifoDestroy_def)
  then show ?thesis by (simp add: ExtendProbeMgrDestroy_def)
qed

lemma MeasurementMgrDestroy_live [heap_simps]:
  "mlive (MeasurementMgrDestroy (Some m) h) = mlive h - (2 + int (length (measurements m)))"
  by (simp add: MeasurementMgrDestroy_def MeasurementDestroy_all)

lemma ProbeCreate_live: "ProbeCreate efd h = (p, h') \<Longrightarrow> mlive h' = mlive h + (if p = None then 0 else 3)"
  by (auto simp: ProbeCreate_def dest!: malloc_live FifoCreate_wf(4) FifoCreate_fail_live split: prod.splits if_splits option.splits)

lemma ExtendProbeCreate_live: "ExtendProbeCreate efd h = (p, h') \<Longrightarrow> mlive h' = mlive h + (if p = None then 0 else 3)"
  by (auto simp: ExtendProbeCreate_def dest!: malloc_live FifoCreate_wf(4) FifoCreate_fail_live split: prod.splits if_splits option.splits)

lemma load_names_live:
  "load_names efd names mgr h = Inr (mgr', h', stop) \<Longrightarrow>
     (stop = None \<longrightarrow> mlive h' - 3 * int (length (probes mgr')) = mlive h - 3 * int (length (probes mgr)))
     \<and> (stop = Some 0 \<and> length (probes mgr) \<le> unat (pm_size mgr) \<longrightarrow> unat (pm_size mgr) < length (probes mgr) + length names)"
proof (induction names arbitrary: mgr h)
  case (Cons n names)
  obtain p h1 where p: "ProbeCreate efd h = (p, h1)" by force
  show ?case
  proof (cases p)
    case None
    with Cons.prems p show ?thesis by auto
  next
    case (Some pr)
    with Cons.prems p have len: "length n < MAX_PROBE_NAME_LEN" by (auto simp: copy_str_def split: if_splits)
    show ?thesis
    proof (rule prb.add_cases [of mgr "pr\<lparr>pr_name := n\<rparr>"])
      fix m1 assume m1: "ProbeMgrPut mgr (pr\<lparr>pr_name := n\<rparr>) = (m1, 0)" "length (probes mgr) \<noteq> unat (pm_size mgr)"
        "probes m1 = probes mgr @ [pr\<lparr>pr_name := n\<rparr>]" "unat (pm_size m1) = unat (pm_size mgr)"
      with Cons.prems p Some len have "load_names efd names m1 h1 = Inr (mgr', h', stop)" by (simp add: copy_str_def)
      from Cons.IH [OF this] m1 ProbeCreate_live [OF p] Some show ?thesis by auto
    next
      assume "ProbeMgrPut mgr (pr\<lparr>pr_name := n\<rparr>) = (mgr, - 1)" "\<not> True \<or> length (probes mgr) = unat (pm_size mgr)"
      with Cons.prems p Some len show ?thesis by (auto simp: copy_str_def)
    qed
  qed
qed auto

lemma load_meta_paths_length: "load_meta_paths paths n mgr = Inr mgr' \<Longrightarrow> length (probes mgr') = length (probes mgr)"
  by (induction paths arbitrary: n mgr) (auto split: if_splits)

lemma load_funcs_length: "length (fst (load_funcs dlsym ps)) = length ps"
  by (induction ps) (auto split: prod.splits)

lemma update_first_length: "update_first P f xs = Inr ys \<Longrightarrow> length ys = length xs"
  by (induction xs arbitrary: ys) (auto split: if_splits)

lemma LoadProbes_live:
  assumes "ProbeMgrLoadProbes efd names paths dl dlsym mgr h = Inr (mgr', h', 0)" "probes mgr = []"
    and "length (strtok_all (CHR '' '') names) \<le> unat (pm_size mgr)"
  shows "mlive h' = mlive h + 3 * int (length (probes mgr'))"
proof -
  from assms(1) obtain m1 h1 stop where n: "load_names efd (strtok_all (CHR '' '') names) mgr h = Inr (m1, h1, stop)"
    by (auto simp: ProbeMgrLoadProbes_def)
  note live = load_names_live [OF n]
  have "stop \<noteq> Some 0" using live assms(2,3) by auto
  with assms(1) n have st: "stop = None" by (cases stop) (auto simp: ProbeMgrLoadProbes_def)
  then have "h' = h1" "length (probes mgr') = length (probes m1)"
    using assms(1) n load_meta_paths_length load_funcs_length
    by (auto simp: ProbeMgrLoadProbes_def split: if_splits prod.splits) (metis fst_conv)
  with live st assms(2) show ?thesis by simp
qed

lemma refresh_length: "foldc refresh_probe pcs mgr = Inr mgr' \<Longrightarrow> length (probes mgr') = length (probes mgr)"
  by (rule foldc_invariant [where P = "\<lambda>m. length (probes m) = length (probes mgr)"])
    (auto simp: refresh_probe_def dest: update_first_length)

lemma load_extend_live:
  "load_extend efd cs mgr h = (mgr', h', 0) \<Longrightarrow>
     mlive h' - 3 * int (length (probes mgr')) = mlive h - 3 * int (length (probes mgr))"
proof (induction cs arbitrary: mgr h)
  case (Cons c cs)
  obtain p h1 where p: "ExtendProbeCreate efd h = (p, h1)" by force
  with Cons.prems obtain pr where pr: "p = Some pr" by (cases p) auto
  with Cons p ExtendProbeCreate_live [OF p] show ?case
    by (auto simp: ExtendProbeMgrPut_def Let_def split: if_splits)
qed simp

lemma load_metrics_live:
  "load_metrics fs meta k h = Inr (Some (meta', k'), h') \<Longrightarrow>
     mlive h' - rec_blocks meta' = mlive h - rec_blocks meta"
proof (induction fs arbitrary: meta k h)
  case (Cons f fs)
  from Cons.prems obtain m h1 where m: "metric_of_field f h = Inr (Some m, h1)"
    by (auto split: option.splits)
  then have "mlive h1 = mlive h + 1"
    by (auto simp: metric_of_field_def IMDB_MetricCreate_def dest: malloc_live split: prod.splits if_splits)
  with Cons m show ?case
    by (fastforce simp: IMDB_RecordAddMetric_def rec_blocks_def split: if_splits)
qed simp

lemma TableLoad_live:
  assumes "IMDBMgrTableLoad t mm h = Inr (t', h', 0)" "t_meta t = None"
  shows "mlive h' - table_blocks uh t' = mlive h - table_blocks uh t"
proof -
  obtain res h1 where c: "IMDB_RecordCreate (of_nat (length (mm_fields mm))) h = (res, h1)" by force
  with assms(1) obtain r r1 k h2 where r: "res = Some r" "load_metrics (mm_fields mm) r 0 h1 = Inr (Some (r1, k), h2)"
    by (fastforce simp: IMDBMgrTableLoad_def IMDB_TableSetMeta_def IMDB_TableSetRecordKeySize_def split: option.splits)
  then have "t' = t\<lparr>t_meta := Some r1, recordKeySize := k * of_nat MAX_IMDB_METRIC_VAL_LEN\<rparr>" "h' = h2"
    using assms(1) c by (auto simp: IMDBMgrTableLoad_def IMDB_TableSetMeta_def IMDB_TableSetRecordKeySize_def)
  then show ?thesis
    using load_metrics_live [OF r(2)] RecordCreate_cases(1) [OF c] r(1) assms(2) by (simp add: table_blocks_def)
qed

lemma DatabaseLoad_live:
  assumes "uthash_ok uh"
  shows "IMDBMgrDatabaseLoad uh cap mms imdb h = Inr (imdb', h', 0) \<Longrightarrow>
    mlive h' - mgr_blocks uh imdb' = mlive h - mgr_blocks uh imdb"
proof (induction mms arbitrary: imdb h)
  case (Cons mm mms)
  obtain t h1 where t: "IMDB_TableCreate uh (mm_name mm) cap h = (t, h1)" by force
  with Cons.prems obtain t0 t1 h2 imdb1 where run: "t = Some t0" "IMDBMgrTableLoad t0 mm h1 = Inr (t1, h2, 0)"
      "IMDB_DataBaseMgrAddTable imdb t1 = (imdb1, 0)" "IMDBMgrDatabaseLoad uh cap mms imdb1 h2 = Inr (imdb', h', 0)"
    by (auto split: option.splits if_splits prod.splits)
  have t0: "t_meta t0 = None" "mlive h1 = mlive h + table_blocks uh t0"
    using t run(1) uthash_laws(1) [OF assms]
    by (auto simp: IMDB_TableCreate_def table_blocks_def recs_blocks_def dest!: malloc_live split: prod.splits if_splits)
  moreover have "mgr_blocks uh imdb1 = mgr_blocks uh imdb + table_blocks uh t1"
    using run(3) by (auto simp: IMDB_DataBaseMgrAddTable_def mgr_blocks_def split: if_splits)
  ultimately show ?case using Cons.IH [OF run(4)] TableLoad_live [OF run(2) t0(1), of uh] by simp
qed simp

subsection \<open>Every initialisation keeps the ledger and sets its own field only\<close>

lemma need_Inr [simp]: "need p f = Inr r \<longleftrightarrow> (\<exists>x. p = Some x \<and> f x = Inr r)"
  by (cases p) (simp_all add: need_def)

lemma ProbeMgrCreate_live: "ProbeMgrCreate sz h = (Some mgr, h') \<Longrightarrow>
    mgr = \<lparr>pm_size = sz, probes = []\<rparr> \<and> mlive h' = mlive h + 2"
  by (auto simp: ProbeMgrCreate_def dest!: malloc_live split: prod.splits if_splits)

lemma ConfigInit_step:
  assumes "ConfigMgrInit env st = Inr (st', 0)" "rs_configMgr (rs st) = None"
  shows "\<exists>c. cfg_ok c \<and> rs st' = (rs st)\<lparr>rs_configMgr := Some c\<rparr> \<and> rs_ledger env st' = rs_ledger env st
    \<and> rs_objs st' = rs_objs st"
proof -
  obtain m h1 where c: "ConfigMgrCreate (rs_heap st) = (m, h1)" by force
  with assms(1) obtain mgr mgr1 h2 where m: "m = Some mgr" and l: "ConfigMgrLoad (re_lc env) mgr h1 (re_confPath env) = Inr (mgr1, h2, 0)"
    and st': "st' = st\<lparr>rs_heap := h2, rs := (rs st)\<lparr>rs_configMgr := Some mgr1\<rparr>\<rparr>"
    by (auto simp: ConfigMgrInit_def Let_def split: option.splits if_splits)
  from ConfigMgrLoad_inv [OF created_inv [OF c [unfolded m]], of "re_lc env" "re_confPath env"] l
  have "config_inv (mlive (rs_heap st)) mgr1 h2" by auto
  then show ?thesis
    unfolding cfg_inv_eq using assms(2) st' by (auto simp: rs_ledger_def rs_blocks_def)
qed

lemma ProbeInit_step:
  assumes "ProbeMgrInit env st = Inr (st', 0)" "rs_probeMgr (rs st) = None"
    and "length (strtok_all (CHR '' '') (re_probesList env)) \<le> 32"
  shows "\<exists>m. rs st' = (rs st)\<lparr>rs_probeMgr := Some m\<rparr> \<and> rs_ledger env st' = rs_ledger env st \<and> rs_objs st' = rs_objs st"
proof -
  obtain m :: "Probe ProbeMgr option" and h1 where c: "ProbeMgrCreate (of_nat MAX_PROBES_NUM) (rs_heap st) = (m, h1)" by force
  with assms(1) obtain mgr mgr1 h2 pcs mgr2 where m: "m = Some mgr"
    and l: "ProbeMgrLoadProbes (re_efd env) (re_probesList env) (re_probesMetaList env) (re_dlopen env) (re_dlsym env) mgr h1
      = Inr (mgr1, h2, 0)" "foldc refresh_probe pcs mgr1 = Inr mgr2"
    and st': "st' = st\<lparr>rs_heap := h2, rs := (rs st)\<lparr>rs_probeMgr := Some mgr2\<rparr>\<rparr>"
    by (auto simp: ProbeMgrInit_def Let_def split: option.splits if_splits)
  from ProbeMgrCreate_live [OF c [unfolded m]] have "probes mgr = []" "unat (pm_size mgr) = 32" "mlive h1 = mlive (rs_heap st) + 2"
    by (simp_all add: MAX_PROBES_NUM_def)
  with LoadProbes_live [OF l(1)] refresh_length [OF l(2)] assms(2,3) st' show ?thesis
    by (auto simp: rs_ledger_def rs_blocks_def)
qed

lemma ExtendInit_step:
  assumes "ExtendProbeMgrInit env st = Inr (st', 0)" "rs_extendProbeMgr (rs st) = None" "\<not> rs_freed (rs st)"
  shows "\<exists>m. rs st' = (rs st)\<lparr>rs_extendProbeMgr := Some m\<rparr> \<and> rs_ledger env st' = rs_ledger env st \<and> rs_objs st' = rs_objs st"
proof -
  obtain m h1 where c: "ExtendProbeMgrCreate (of_nat MAX_EXTEND_PROBES_NUM) (rs_heap st) = (m, h1)" by force
  with assms(1) obtain mgr where m: "m = Some mgr" by (cases m) (auto simp: ExtendProbeMgrInit_def Let_def)
  with assms(1) c obtain cfg cs where cs: "rs_configMgr (rs st) = Some cfg" "extendProbesConfig cfg = Some cs"
    by (auto simp: ExtendProbeMgrInit_def Let_def)
  obtain mgr1 h2 r where e: "load_extend (re_efd env) cs mgr h1 = (mgr1, h2, r)" by (rule prod_cases3)
  with assms(1) c m have l: "load_extend (re_efd env) cs mgr h1 = (mgr1, h2, 0)"
    and st': "st' = st\<lparr>rs_heap := h2, rs := (rs st)\<lparr>rs_extendProbeMgr := Some mgr1, rs_freed := False\<rparr>\<rparr>"
    by (simp_all add: ExtendProbeMgrInit_def Let_def cs split: if_splits)
  from c m have "probes mgr = []" "mlive h1 = mlive (rs_heap st) + 2"
    by (auto simp: ExtendProbeMgrCreate_def dest!: malloc_live ProbeMgrCreate_live split: prod.splits if_splits)
  moreover have "rs st\<lparr>rs_extendProbeMgr := Some mgr1, rs_freed := False\<rparr> = rs st\<lparr>rs_extendProbeMgr := Some mgr1\<rparr>"
    using assms(3) by (cases "rs st") simp
  ultimately show ?thesis using load_extend_live [OF l] assms(2,3) st'
    by (intro exI [of _ mgr1]) (simp add: rs_ledger_def rs_blocks_def)
qed

lemma MmInit_step:
  assumes "MeasurementMgrInit env st = Inr (st', 0)" "rs_mmMgr (rs st) = None"
  shows "\<exists>m. rs st' = (rs st)\<lparr>rs_mmMgr := Some m\<rparr> \<and> rs_ledger env st' = rs_ledger env st \<and> rs_objs st' = rs_objs st"
proof -
  from assms(1) obtain cfg ic where ic: "rs_configMgr (rs st) = Some cfg" "imdbConfig cfg = Some ic"
    by (auto simp: MeasurementMgrInit_def)
  obtain m h1 where c: "MeasurementMgrCreate (maxTablesNum ic) (maxMetricsNum ic) (rs_heap st) = (m, h1)" by force
  with assms(1) obtain mgr mgr1 h2 where m: "m = Some mgr"
    and l: "MeasurementMgrLoad (re_lc env) mgr h1 GALA_META_DIR_PATH (re_metaDir env) = Inr (mgr1, h2, 0)"
    and st': "st' = st\<lparr>rs_heap := h2, rs := (rs st)\<lparr>rs_mmMgr := Some mgr1\<rparr>\<rparr>"
    by (auto simp: ic MeasurementMgrInit_def Let_def split: option.splits if_splits)
  note ok = MgrCreate_ok [OF c [unfolded m]]
  from l obtain names where "load_dir (re_lc env) mgr h1 GALA_META_DIR_PATH names = Inr (mgr1, h2, 0)"
    by (auto simp: MeasurementMgrLoad_def split: option.splits)
  with load_dir_loads [OF ok(2)] have "loads (re_lc env) (concat (map (file_settings (re_lc env)) (meta_paths GALA_META_DIR_PATH names))) mgr h1 (mgr1, h2, 0)"
    by (simp add: dir_settings_def)
  then have "mlive h2 - int (length (measurements mgr1)) = mlive h1 - int (length (measurements mgr))"
    by (auto simp: loads_def)
  with ok assms(2) st' show ?thesis by (auto simp: rs_ledger_def rs_blocks_def)
qed

lemma FifoInit_step:
  assumes "FifoMgrInit env st = Inr (st', 0)" "rs_fifoMgr (rs st) = None"
  shows "\<exists>m. rs st' = (rs st)\<lparr>rs_fifoMgr := Some m\<rparr> \<and> rs_ledger env st' = rs_ledger env st \<and> rs_objs st' = rs_objs st"
proof -
  obtain m :: "cstr Fifo FifoMgr option" and h1 where c: "FifoMgrCreate MAX_FIFO_NUM (rs_heap st) = (m, h1)" by force
  with assms(1) obtain mgr where m: "m = Some mgr" and st': "st' = st\<lparr>rs_heap := h1, rs := (rs st)\<lparr>rs_fifoMgr := Some mgr\<rparr>\<rparr>"
    by (cases m) (auto simp: FifoMgrInit_def Let_def)
  from c m have "mlive h1 = mlive (rs_heap st) + 2"
    by (auto simp: FifoMgrCreate_def dest!: malloc_live split: prod.splits if_splits)
  with assms(2) st' show ?thesis by (auto simp: rs_ledger_def rs_blocks_def)
qed

lemma KafkaInit_step:
  assumes "KafkaMgrInit env st = Inr (st', 0)" "rs_kafkaMgr (rs st) = None"
  shows "(rs st' = rs st \<or> (\<exists>m. rs st' = (rs st)\<lparr>rs_kafkaMgr := Some m\<rparr> \<and> conf_owned m = (\<not> new_takes_conf (re_kafka env))))
    \<and> rs_ledger env st' = rs_ledger env st"
proof -
  from assms(1) obtain cfg kc where kc: "rs_configMgr (rs st) = Some cfg" "kafkaConfig cfg = Some kc"
    by (auto simp: KafkaMgrInit_def)
  show ?thesis
  proof (cases "kafkaSwitch kc = KAFKA_SWITCH_OFF")
    case False
    with assms(1) obtain mgr h1 objs1 where c: "KafkaMgrCreate (re_kafka env) kc (rs_heap st) (rs_objs st) = Inr (Some mgr, h1, objs1)"
      and st': "st' = st\<lparr>rs_heap := h1, rs_objs := objs1, rs := (rs st)\<lparr>rs_kafkaMgr := Some mgr\<rparr>\<rparr>"
      by (auto simp: kc KafkaMgrInit_def Let_def split: option.splits)
    from c show ?thesis
      by (cases rule: KafkaMgrCreate_cases) (use assms(2) st' in \<open>auto simp: rs_ledger_def rs_blocks_def\<close>)
  qed (use assms(1) kc in \<open>simp add: KafkaMgrInit_def\<close>)
qed

lemma ImdbInit_step:
  fixes env :: "('c, 's, 'h) rs_env" and st st' :: "'h rs_state"
  assumes "IMDBMgrInit env st = Inr (st', 0)" "rs_imdbMgr (rs st) = None" "uthash_ok (re_uh env)"
  shows "\<exists>m. rs st' = (rs st)\<lparr>rs_imdbMgr := Some m\<rparr> \<and> rs_ledger env st' = rs_ledger env st \<and> rs_objs st' = rs_objs st"
proof -
  from assms(1) obtain cfg ic where ic: "rs_configMgr (rs st) = Some cfg" "imdbConfig cfg = Some ic"
    by (auto simp: IMDBMgrInit_def)
  obtain m :: "'h IMDB_DataBaseMgr option" and h1
    where c: "IMDB_DataBaseMgrCreate (re_machineId env) (re_hostName env) (re_lock env) (maxTablesNum ic) (rs_heap st) = (m, h1)"
    by force
  with assms(1) obtain mgr mms mgr1 h2 where m: "m = Some mgr"
    and l: "IMDBMgrDatabaseLoad (re_uh env) (maxRecordsNum ic) mms mgr h1 = Inr (mgr1, h2, 0)"
    and st': "rs st' = (rs st)\<lparr>rs_imdbMgr := Some mgr1\<rparr>" "rs_heap st' = h2" "rs_objs st' = rs_objs st"
    by (auto simp: ic IMDBMgrInit_def Let_def split: option.splits if_splits)
  from c m have "mlive h1 = mlive (rs_heap st) + mgr_blocks (re_uh env) mgr"
    by (auto simp: IMDB_DataBaseMgrCreate_def mgr_blocks_def dest!: malloc_live split: prod.splits if_splits option.splits)
  with DatabaseLoad_live [OF assms(3) l] assms(2) st' show ?thesis by (auto simp: rs_ledger_def rs_blocks_def)
qed

lemma EgressInit_step:
  assumes "EgressMgrInit env st = Inr (st', 0)" "rs_egressMgr (rs st) = None"
  shows "\<exists>m. rs st' = (rs st)\<lparr>rs_egressMgr := Some m\<rparr> \<and> rs_ledger env st' = rs_ledger env st \<and> rs_objs st' = rs_objs st"
proof -
  obtain m h1 where c: "EgressMgrCreate (re_efd env) (rs_heap st) = (m, h1)" by force
  with assms(1) obtain mgr mgr' where m: "m = Some mgr" and st': "st' = st\<lparr>rs_heap := h1, rs := (rs st)\<lparr>rs_egressMgr := Some mgr'\<rparr>\<rparr>"
    by (auto simp: EgressMgrInit_def Let_def split: option.splits)
  from c m have "mlive h1 = mlive (rs_heap st) + 3"
    by (auto simp: EgressMgrCreate_def dest!: malloc_live FifoCreate_wf(4) split: prod.splits if_splits option.splits)
  with assms(2) st' show ?thesis by (auto simp: rs_ledger_def rs_blocks_def)
qed

lemma IngressInit_step:
  assumes "IngressMgrInit env st = Inr (st', 0)" "\<not> rs_ingressMgr (rs st)"
  shows "rs st' = (rs st)\<lparr>rs_ingressMgr := True\<rparr> \<and> rs_ledger env st' = rs_ledger env st \<and> rs_objs st' = rs_objs st"
proof -
  obtain ok h1 where c: "malloc (rs_heap st) = (ok, h1)" by force
  with assms(1) have m: "ok" and st': "st' = st\<lparr>rs_heap := h1, rs := (rs st)\<lparr>rs_ingressMgr := True\<rparr>\<rparr>"
    by (cases ok; simp add: IngressMgrInit_def IngressMgrCreate_def)+
  from c m have "mlive h1 = mlive (rs_heap st) + 1" by (simp add: malloc_live)
  with assms(2) st' show ?thesis by (simp add: rs_ledger_def rs_blocks_def)
qed

lemma WebInit_step:
  fixes env :: "('c, 's, 'h) rs_env" and st st' :: "'h rs_state"
  assumes "WebServerInit env st = Inr (st', 0)" "rs_webServer (rs st) = None"
  shows "(rs st' = rs st \<or> (\<exists>w. rs st' = (rs st)\<lparr>rs_webServer := Some w, rs_imdbMgr := map_option (\<lambda>m. m\<lparr>webServerOn := 1\<rparr>) (rs_imdbMgr (rs st))\<rparr>))
    \<and> rs_ledger env st' = rs_ledger env st \<and> rs_objs st' = rs_objs st"
proof -
  from assms(1) obtain cfg wc where wc: "rs_configMgr (rs st) = Some cfg" "webServerConfig cfg = Some wc"
    by (auto simp: WebServerInit_def)
  have same: "blocks_of (mgr_blocks uh) (map_option (\<lambda>m. m\<lparr>webServerOn := 1\<rparr>) p) = blocks_of (mgr_blocks uh) p"
    for uh and p :: "'h IMDB_DataBaseMgr option"
    by (cases p) (simp_all add: mgr_blocks_def)
  show ?thesis
  proof (cases "ws_on wc = 0")
    case False
    obtain w h1 where c: "WebServerCreate (ws_port wc) (rs_heap st) = (w, h1)" by force
    with assms(1) False obtain ws where w: "w = Some ws" by (cases w) (auto simp: wc WebServerInit_def)
    let ?ws = "ws\<lparr>wsv_imdbMgr := rs_imdbMgr (rs st) \<noteq> None\<rparr>"
    from assms(1) False c w have st': "st' = st\<lparr>rs_heap := h1, rs := (rs st)\<lparr>rs_webServer := Some ?ws,
        rs_imdbMgr := map_option (\<lambda>m. m\<lparr>webServerOn := 1\<rparr>) (rs_imdbMgr (rs st))\<rparr>\<rparr>"
      by (simp add: wc WebServerInit_def)
    from c w have "mlive h1 = mlive (rs_heap st) + 1"
      by (auto simp: WebServerCreate_def dest!: malloc_live split: prod.splits if_splits)
    then have "rs_ledger env st' = rs_ledger env st" using assms(2) st' by (simp add: rs_ledger_def rs_blocks_def same)
    with st' show ?thesis by (intro conjI disjI2 exI [of _ ?ws]) simp_all
  qed (use assms(1) wc in \<open>simp add: WebServerInit_def\<close>)
qed

subsection \<open>The state after the initialisation, and undoing it\<close>

text \<open>A finished initialisation: every manager is there, except that Kafka and the web server depend on
  the configuration, and every live block is one a manager owns.\<close>

definition initialised :: "('c, 's, 'h) rs_env \<Rightarrow> int \<Rightarrow> 'h rs_state \<Rightarrow> bool" where
  "initialised env L st \<longleftrightarrow>
     (\<exists>cfg. rs_configMgr (rs st) = Some cfg \<and> cfg_ok cfg) \<and> rs_imdbMgr (rs st) \<noteq> None \<and> rs_probeMgr (rs st) \<noteq> None
     \<and> rs_extendProbeMgr (rs st) \<noteq> None \<and> \<not> rs_freed (rs st) \<and> rs_mmMgr (rs st) \<noteq> None \<and> rs_fifoMgr (rs st) \<noteq> None
     \<and> (\<forall>m. rs_kafkaMgr (rs st) = Some m \<longrightarrow> conf_owned m = (\<not> new_takes_conf (re_kafka env)))
     \<and> rs_ingressMgr (rs st) \<and> rs_egressMgr (rs st) \<noteq> None \<and> \<not> rs_keeplive_timer (rs st)
     \<and> rs_ledger env st = L"

lemma run_inits_Cons: "run_inits (f # fs) env st = Inr (st', 0) \<longleftrightarrow>
    (\<exists>st1. f env st = Inr (st1, 0) \<and> run_inits fs env st1 = Inr (st', 0))"
  by (cases "f env st") (auto split: if_splits)

lemma Init_initialised:
  assumes "ResourceMgrInit env st = Inr (st', 0)" "rs st = null_resource" "uthash_ok (re_uh env)"
    and "length (strtok_all (CHR '' '') (re_probesList env)) \<le> 32"
  shows "initialised env (mlive (rs_heap st)) st'"
proof -
  from assms(1) obtain s1 s2 s3 s4 s5 s6 s7 s8 s9 where run:
    "ConfigMgrInit env st = Inr (s1, 0)" "ProbeMgrInit env s1 = Inr (s2, 0)" "ExtendProbeMgrInit env s2 = Inr (s3, 0)"
    "MeasurementMgrInit env s3 = Inr (s4, 0)" "FifoMgrInit env s4 = Inr (s5, 0)" "KafkaMgrInit env s5 = Inr (s6, 0)"
    "IMDBMgrInit env s6 = Inr (s7, 0)" "EgressMgrInit env s7 = Inr (s8, 0)" "IngressMgrInit env s8 = Inr (s9, 0)"
    "WebServerInit env s9 = Inr (st', 0)"
    unfolding ResourceMgrInit_def gSubModuleInitorTbl_def list.map fst_conv run_inits_Cons run_inits.simps(1) by blast
  from assms(2) have 0: "rs_ledger env st = mlive (rs_heap st)"
    by (simp add: rs_ledger_def rs_blocks_def null_resource_def)
  from ConfigInit_step [OF run(1)] assms(2) obtain cfg where 1: "cfg_ok cfg" "rs s1 = null_resource\<lparr>rs_configMgr := Some cfg\<rparr>"
    "rs_ledger env s1 = mlive (rs_heap st)" by (auto simp: 0 null_resource_def)
  from ProbeInit_step [OF run(2) _ assms(4)] 1 obtain pm where 2: "rs s2 = (rs s1)\<lparr>rs_probeMgr := Some pm\<rparr>"
    "rs_ledger env s2 = mlive (rs_heap st)" by (auto simp: null_resource_def)
  from ExtendInit_step [OF run(3)] 1 2 obtain em where 3: "rs s3 = (rs s2)\<lparr>rs_extendProbeMgr := Some em\<rparr>"
    "rs_ledger env s3 = mlive (rs_heap st)" by (auto simp: null_resource_def)
  from MmInit_step [OF run(4)] 1 2 3 obtain mm where 4: "rs s4 = (rs s3)\<lparr>rs_mmMgr := Some mm\<rparr>"
    "rs_ledger env s4 = mlive (rs_heap st)" by (auto simp: null_resource_def)
  from FifoInit_step [OF run(5)] 1 2 3 4 obtain fm where 5: "rs s5 = (rs s4)\<lparr>rs_fifoMgr := Some fm\<rparr>"
    "rs_ledger env s5 = mlive (rs_heap st)" by (auto simp: null_resource_def)
  from KafkaInit_step [OF run(6)] 1 2 3 4 5 obtain km where 6: "rs s6 = (rs s5)\<lparr>rs_kafkaMgr := km\<rparr>"
    "\<forall>m. km = Some m \<longrightarrow> conf_owned m = (\<not> new_takes_conf (re_kafka env))" "rs_ledger env s6 = mlive (rs_heap st)"
    by (auto simp: null_resource_def)
  from ImdbInit_step [OF run(7) _ assms(3)] 1 2 3 4 5 6 obtain im where 7: "rs s7 = (rs s6)\<lparr>rs_imdbMgr := Some im\<rparr>"
    "rs_ledger env s7 = mlive (rs_heap st)" by (auto simp: null_resource_def)
  from EgressInit_step [OF run(8)] 1 2 3 4 5 6 7 obtain eg where 8: "rs s8 = (rs s7)\<lparr>rs_egressMgr := Some eg\<rparr>"
    "rs_ledger env s8 = mlive (rs_heap st)" by (auto simp: null_resource_def)
  from IngressInit_step [OF run(9)] 1 2 3 4 5 6 7 8 have 9: "rs s9 = (rs s8)\<lparr>rs_ingressMgr := True\<rparr>"
    "rs_ledger env s9 = mlive (rs_heap st)" by (auto simp: null_resource_def)
  from WebInit_step [OF run(10)] 1 2 3 4 5 6 7 8 9 show ?thesis
    by (auto simp: initialised_def null_resource_def)
qed

text \<open>What undoing leaves: two blocks of the configuration, and a pointer to the freed block.\<close>

lemma Deinit_initialised:
  assumes "initialised env L st"
  shows "if (\<exists>m. rs_kafkaMgr (rs st) = Some m) \<and> new_takes_conf (re_kafka env) then ResourceMgrDeinit env st = Inl DoubleFree
    else \<exists>st2. ResourceMgrDeinit env st = Inr st2 \<and> mlive (rs_heap st2) = L + 2
       \<and> rs st2 = null_resource\<lparr>rs_extendProbeMgr := rs_extendProbeMgr (rs st), rs_freed := True\<rparr>"
proof -
  from assms obtain cfg im pm em mm fm eg where f: "rs_configMgr (rs st) = Some cfg" "cfg_ok cfg" "rs_imdbMgr (rs st) = Some im"
    "rs_probeMgr (rs st) = Some pm" "rs_extendProbeMgr (rs st) = Some em" "\<not> rs_freed (rs st)" "rs_mmMgr (rs st) = Some mm"
    "rs_fifoMgr (rs st) = Some fm" "rs_ingressMgr (rs st)" "rs_egressMgr (rs st) = Some eg" "\<not> rs_keeplive_timer (rs st)"
    "rs_ledger env st = L" and k: "\<And>m. rs_kafkaMgr (rs st) = Some m \<Longrightarrow> conf_owned m = (\<not> new_takes_conf (re_kafka env))"
    by (auto simp: initialised_def)
  note defs = ResourceMgrDeinit_def gSubModuleInitorTbl_def ResourceMgrDeleteTimer_def ConfigMgrDeinit_def ProbeMgrDeinit_def
    ExtendProbeMgrDeinit_def MeasurementMgrDeinit_def FifoMgrDeinit_def KafkaMgrDeinit_def IMDBMgrDeinit_def
    EgressMgrDeinit_def IngressMgrDeinit_def WebServerDeinit_def
  have live: "mlive (rs_heap st) = L + rs_blocks (re_uh env) (rs st)" using f(12) by (simp add: rs_ledger_def)
  show ?thesis
  proof (cases "rs_kafkaMgr (rs st)")
    case None
    then show ?thesis
      using f live by (cases "rs st") (simp add: Let_def defs null_resource_def KafkaMgrDestroy_def heap_simps cfg_destroy rs_blocks_def
          FifoMgrDestroy_def EgressMgrDestroy_def WebServerDestroy_def FifoDestroy_def split: option.split)
  next
    case (Some m)
    show ?thesis
    proof (cases "new_takes_conf (re_kafka env)")
      case True
      then show ?thesis using f k [OF Some] Some by (simp add: Let_def defs KafkaMgrDestroy_def rd_kafka_conf_destroy_def)
    next
      case False
      then show ?thesis
        using f live k [OF Some] Some
        by (cases "rs st") (simp add: Let_def defs null_resource_def KafkaMgrDestroy_def rd_kafka_conf_destroy_def heap_simps cfg_destroy rs_blocks_def
            FifoMgrDestroy_def EgressMgrDestroy_def WebServerDestroy_def FifoDestroy_def split: option.split)
    qed
  qed
qed

subsection \<open>The life of the resource manager\<close>

text \<open>A configuration without Kafka, one meta file and no built-in probe.\<close>

definition example_env2 :: "(setting, setting, IMDB_Record list) rs_env" where
  "example_env2 = \<lparr>re_uh = list_uthash,
     re_lc = tree_config [(''g.conf'', example_file), (''/opt/gala-gopher/meta/a'', snd (hd Meta.example_meta))],
     re_confPath = ''g.conf'', re_metaDir = Some [''.'', ''a''], re_efd = 5, re_probesList = [], re_probesMetaList = [],
     re_dlopen = True, re_dlsym = (\<lambda>_. True), re_kafka = example_lib True, re_machineId = Some ''id'',
     re_hostName = Some ''h'', re_lock = True\<rparr>"

definition example_rs :: "IMDB_Record list rs_state" where
  "example_rs = \<lparr>rs = null_resource, rs_heap = \<lparr>mscript = [], mlive = 0\<rparr>, rs_objs = \<lparr>confs = 0, rks = 0, rkts = 0\<rparr>, rs_timeout = 0\<rparr>"

lemma example_init:
  "case ResourceMgrInit example_env2 example_rs of Inr (st, r) \<Rightarrow> r = 0 \<and> rs_kafkaMgr (rs st) = None | Inl e \<Rightarrow> False"
  by code_simp

text \<open>C27: From an empty manager, an initialisation that returns 0 has set up all sub-modules and lost
  no block. Undoing it gives back every block but two (the sections of ingress and egress), whichever
  sub-modules are switched on, but it leaves the pointer to the extended probes, so that undoing it
  again frees that block twice; with Kafka on, and a library that takes over the configuration, the
  first undoing already frees that configuration twice.\<close>
theorem ResourceMgr_lifecycle:
  assumes "ResourceMgrInit env st = Inr (st1, 0)" "rs st = null_resource" "uthash_ok (re_uh env)"
    and "length (strtok_all (CHR '' '') (re_probesList env)) \<le> 32"
  shows "mlive (rs_heap st1) = mlive (rs_heap st) + rs_blocks (re_uh env) (rs st1)
    \<and> (if (\<exists>m. rs_kafkaMgr (rs st1) = Some m) \<and> new_takes_conf (re_kafka env)
       then ResourceMgrDeinit env st1 = Inl DoubleFree
       else \<exists>st2. ResourceMgrDeinit env st1 = Inr st2 \<and> mlive (rs_heap st2) = mlive (rs_heap st) + 2
         \<and> (\<exists>freed. rs st2 = null_resource\<lparr>rs_extendProbeMgr := Some freed, rs_freed := True\<rparr>)
         \<and> ResourceMgrDeinit env st2 = Inl DoubleFree)"
proof -
  note init = Init_initialised [OF assms]
  have again: "ResourceMgrDeinit env st2 = Inl DoubleFree"
    if "rs st2 = null_resource\<lparr>rs_extendProbeMgr := Some m, rs_freed := True\<rparr>" for st2 m
    using that
    by (simp add: ResourceMgrDeinit_def gSubModuleInitorTbl_def ResourceMgrDeleteTimer_def ConfigMgrDeinit_def
        ProbeMgrDeinit_def ExtendProbeMgrDeinit_def null_resource_def)
  from init obtain m where m: "rs_extendProbeMgr (rs st1) = Some m" and live: "rs_ledger env st1 = mlive (rs_heap st)"
    by (auto simp: initialised_def)
  show ?thesis
    using Deinit_initialised [OF init] again live m by (auto simp: rs_ledger_def split: if_splits)
qed

theorem ResourceMgr_lifecycle_witness:
  "\<exists>st1 st2. ResourceMgrInit example_env2 example_rs = Inr (st1, 0) \<and> ResourceMgrDeinit example_env2 st1 = Inr st2
     \<and> mlive (rs_heap st2) = 2 \<and> ResourceMgrDeinit example_env2 st2 = Inl DoubleFree"
proof -
  from example_init obtain st1 where 1: "ResourceMgrInit example_env2 example_rs = Inr (st1, 0)" "rs_kafkaMgr (rs st1) = None"
    by (auto split: sum.splits)
  have "length (strtok_all (CHR '' '') []) \<le> 32" by code_simp
  then have "uthash_ok (re_uh example_env2)" "length (strtok_all (CHR '' '') (re_probesList example_env2)) \<le> 32"
    by (simp_all add: example_env2_def list_uthash_ok)
  from ResourceMgr_lifecycle [OF 1(1) _ this] 1 show ?thesis by (auto simp: example_rs_def)
qed

end
