(* ===== verification/Daemon.thy ===== *)
theory Daemon
  imports Resource
begin

section \<open>The daemon\<close>

text \<open>
  \<open>daemon/daemon.c\<close> and \<open>daemon/main.c\<close>: the threads that the daemon starts and waits for, the timer
  that starts dead probes again, and the main function. A thread is known by its start routine and its
  argument; the system is given by the answers to the calls, those of \<open>pthread_create\<close> by their number.
\<close>

datatype thread = TIngress | TEgress | TProbe nat | TExtend nat | TCmd

record daemon_env =
  de_create :: "nat \<Rightarrow> int"
  de_web :: bool
  de_popen :: "cstr \<Rightarrow> cstr option option"
  de_sigaction :: int
  de_timer_create :: "int \<times> bool"
  de_timer_settime :: int

text \<open>\<open>dm_threads\<close> lists the threads in the order of their creation, \<open>dm_commands\<close> the shell commands.\<close>

record 'h daemon =
  dm_rs :: "'h ResourceMgr"
  dm_threads :: "thread list"
  dm_commands :: "cstr list"

definition MAX_THREAD_NAME_LEN :: nat where "MAX_THREAD_NAME_LEN = 128"
definition SYS_FS_BPF :: cstr where "SYS_FS_BPF = ''/sys/fs/bpf''"

subsection \<open>The start routines of the probes\<close>

text \<open>The name of the thread, and the function it calls with its parameters.\<close>

definition DaemonRunSingleProbe :: "Probe \<Rightarrow> cstr \<times> (cstr \<times> probe_params) c" where
  "DaemonRunSingleProbe p =
     (fst (snprintf (MAX_THREAD_NAME_LEN - 1) [] (''[PROBE]'' @ pr_name p)),
      case pr_func p of None \<Rightarrow> Inl NullDeref | Some f \<Rightarrow> Inr (f, pr_params p))"

definition DaemonRunSingleExtendProbe ::
    "(cstr \<Rightarrow> popen_res list) \<Rightarrow> ExtendProbe \<Rightarrow> bool list \<Rightarrow> heap
     \<Rightarrow> cstr \<times> (cstr Fifo \<times> data_str \<times> heap \<times> int) c option" where
  "DaemonRunSingleExtendProbe popen probe writes h =
     (fst (snprintf (MAX_THREAD_NAME_LEN - 1) [] (''[EPROBE]'' @ xp_name probe)), RunExtendProbe popen probe writes h)"

subsection \<open>Before the threads start\<close>

text \<open>The command is run with \<open>popen\<close>: no stream, a stream without a line, or a first line.\<close>

definition DaemonCheckProbeNeedStart :: "daemon_env \<Rightarrow> cstr \<Rightarrow> ProbeStartCheckType \<Rightarrow> int" where
  "DaemonCheckProbeNeedStart env check_cmd chk =
     (if chk \<noteq> PROBE_CHK_CNT then 0
      else
        (case de_popen env check_cmd of
           None \<Rightarrow> 0
         | Some line \<Rightarrow>
             (let cnt = (case line of None \<Rightarrow> 0 | Some data \<Rightarrow> atoi (take (MAX_COMMAND_LEN - 1) data))
              in if cnt > 0 then 1 else 0)))"

fun strstr :: "cstr \<Rightarrow> cstr \<Rightarrow> bool" where
  "strstr s t = (take (length t) s = t \<or> (case s of [] \<Rightarrow> False | _ # s' \<Rightarrow> strstr s' t))"

declare strstr.simps [simp del]

definition CleanData :: "'h daemon \<Rightarrow> 'h daemon" where
  "CleanData st =
     (case Option.bind (rs_configMgr (dm_rs st)) globalConfig of
        None \<Rightarrow> st
      | Some g \<Rightarrow>
          if \<not> strstr (bpfPinPath g) SYS_FS_BPF then st
          else st\<lparr>dm_commands := dm_commands st
                 @ [fst (snprintf MAX_COMMAND_LEN [] (''/usr/bin/rm -rf '' @ bpfPinPath g @ ''/*''))]\<rparr>)"

subsection \<open>Starting the threads\<close>

definition pthread_create :: "daemon_env \<Rightarrow> thread \<Rightarrow> thread list \<Rightarrow> thread list \<times> int" where
  "pthread_create env t ts = (let ret = de_create env (length ts) in (if ret = 0 then ts @ [t] else ts, ret))"

fun start_probes :: "daemon_env \<Rightarrow> nat \<Rightarrow> Probe list \<Rightarrow> thread list \<Rightarrow> thread list \<times> int" where
  "start_probes env i [] ts = (ts, 0)"
| "start_probes env i (p # ps) ts =
     (if pr_switch p \<noteq> PROBE_SWITCH_ON then start_probes env (Suc i) ps ts
      else
        (let (ts1, ret) = pthread_create env (TProbe i) ts
         in if ret \<noteq> 0 then (ts1, - 1) else start_probes env (Suc i) ps ts1))"

fun start_extends :: "daemon_env \<Rightarrow> nat \<Rightarrow> ExtendProbe list \<Rightarrow> thread list \<Rightarrow> ExtendProbe list \<times> thread list \<times> int" where
  "start_extends env i [] ts = ([], ts, 0)"
| "start_extends env i (p # ps) ts =
     (if probeSwitch p = PROBE_SWITCH_OFF
         \<or> probeSwitch p = PROBE_SWITCH_AUTO \<and> DaemonCheckProbeNeedStart env (startChkCmd p) (chkType p) \<noteq> 1
      then (let (ps', ts', ret) = start_extends env (Suc i) ps ts in (p # ps', ts', ret))
      else
        (let (ts1, ret) = pthread_create env (TExtend i) ts
         in if ret \<noteq> 0 then (p # ps, ts1, - 1)
            else (let (ps', ts', ret') = start_extends env (Suc i) ps ts1 in (p\<lparr>is_running := True\<rparr> # ps', ts', ret'))))"

text \<open>The timer: whether there is one afterwards, and the result. Whether its id differs from 0 is given.\<close>

definition DaemonCreateTimer :: "daemon_env \<Rightarrow> bool \<Rightarrow> bool \<times> int" where
  "DaemonCreateTimer env timer =
     (if de_sigaction env \<noteq> 0 then (False, de_sigaction env)
      else
        (let (ret, some_id) = de_timer_create env in
         if ret \<noteq> 0 then (False, ret)
         else if de_timer_settime env \<noteq> 0 then (False, de_timer_settime env)
         else (some_id, 0)))"

definition start_web :: "daemon_env \<Rightarrow> 'h ResourceMgr \<Rightarrow> 'h ResourceMgr \<times> int" where
  "start_web env r =
     (case rs_webServer r of
        None \<Rightarrow> (r, 0)
      | Some w \<Rightarrow> (let (w1, ret) = WebServerStartDaemon (de_web env) w in (r\<lparr>rs_webServer := Some w1\<rparr>, ret)))"

definition DaemonRun :: "daemon_env \<Rightarrow> 'h daemon \<Rightarrow> ('h daemon \<times> int) c" where
  "DaemonRun env st0 =
     (let st = CleanData st0; r = dm_rs st in
      if \<not> rs_ingressMgr r then Inl NullDeref
      else
        (let (ts1, ret1) = pthread_create env TIngress (dm_threads st) in
         if ret1 \<noteq> 0 then Inr (st, - 1)
         else
           need (rs_egressMgr r) (\<lambda>_.
             let (ts2, ret2) = pthread_create env TEgress ts1 in
             if ret2 \<noteq> 0 then Inr (st\<lparr>dm_threads := ts1\<rparr>, - 1)
             else
               (let (r1, ret3) = start_web env r; st1 = st\<lparr>dm_threads := ts2, dm_rs := r1\<rparr> in
                if ret3 \<noteq> 0 then Inr (st1, - 1)
                else
                  need (rs_probeMgr r1) (\<lambda>pm.
                    let (ts3, ret4) = start_probes env 0 (probes pm) ts2 in
                    if ret4 \<noteq> 0 then Inr (st1\<lparr>dm_threads := ts3\<rparr>, - 1)
                    else
                      need (rs_extendProbeMgr r1) (\<lambda>em.
                        let (ps, ts4, ret5) = start_extends env 0 (probes em) ts3;
                            st2 = st1\<lparr>dm_threads := ts4,
                                      dm_rs := r1\<lparr>rs_extendProbeMgr := Some (em\<lparr>probes := ps\<rparr>)\<rparr>\<rparr>
                        in if ret5 \<noteq> 0 then Inr (st2, - 1)
                           else
                             (let (ts5, ret6) = pthread_create env TCmd ts4; st3 = st2\<lparr>dm_threads := ts5\<rparr> in
                              if ret6 \<noteq> 0 then Inr (st3, - 1)
                              else
                                (let (timer, ret7) = DaemonCreateTimer env (rs_keeplive_timer (dm_rs st3));
                                     st4 = st3\<lparr>dm_rs := (dm_rs st3)\<lparr>rs_keeplive_timer := timer\<rparr>\<rparr>
                                 in Inr (st4, if ret7 \<noteq> 0 then - 1 else 0)))))))))"

subsection \<open>Waiting for the threads and starting them again\<close>

text \<open>The thread ids of a manager are 0 until its thread is created.\<close>

definition pthread_join :: "thread \<Rightarrow> thread list \<Rightarrow> unit c" where
  "pthread_join t ts = (if t \<in> set ts then Inr () else Inl BadThread)"

fun join_all :: "thread list \<Rightarrow> thread list \<Rightarrow> unit c" where
  "join_all [] ts = Inr ()"
| "join_all (t # us) ts = bindc (pthread_join t ts) (\<lambda>_. join_all us ts)"

definition DaemonWaitDone :: "'h daemon \<Rightarrow> int c" where
  "DaemonWaitDone st =
     (let ts = dm_threads st; r = dm_rs st in
      if \<not> rs_ingressMgr r then Inl NullDeref
      else
        bindc (pthread_join TIngress ts) (\<lambda>_.
        need (rs_egressMgr r) (\<lambda>_.
        bindc (pthread_join TEgress ts) (\<lambda>_.
        need (rs_probeMgr r) (\<lambda>pm.
        bindc (join_all (map TProbe [0..<length (probes pm)]) ts) (\<lambda>_.
        need (rs_extendProbeMgr r) (\<lambda>em.
        bindc (join_all (map TExtend [0..<length (probes em)]) ts) (\<lambda>_.
        bindc (pthread_join TCmd ts) (\<lambda>_. Inr 0)))))))))"

text \<open>
  The handler of the timer's signal. \<open>kp_dead\<close> tells for which probe \<open>pthread_kill\<close> finds no thread, \<open>kp_joins\<close>
  lists the probes for whose thread a handler is waiting in \<open>pthread_join\<close>, which it does in the thread that
  took the signal. \<open>pthread_create\<close> leaves the thread id undefined when it fails.
\<close>

record keeper =
  kp_threads :: "thread list"
  kp_dead :: "nat \<Rightarrow> bool"
  kp_joins :: "nat list"

fun keeplive :: "daemon_env \<Rightarrow> nat \<Rightarrow> ExtendProbe list \<Rightarrow> keeper \<Rightarrow> keeper c" where
  "keeplive env i [] k = Inr k"
| "keeplive env i (p # ps) k =
     (if \<not> is_running p then keeplive env (Suc i) ps k
      else if kp_dead k i then
        (let (ts, ret) = pthread_create env (TExtend i) (kp_threads k) in
         if ret \<noteq> 0 then Inl BadThread
         else Inr (k\<lparr>kp_threads := ts, kp_dead := (kp_dead k)(i := False), kp_joins := kp_joins k @ [i]\<rparr>))
      else keeplive env (Suc i) ps k)"

definition DaemonKeeplive :: "daemon_env \<Rightarrow> 'h daemon \<Rightarrow> keeper \<Rightarrow> keeper c" where
  "DaemonKeeplive env st k = need (rs_extendProbeMgr (dm_rs st)) (\<lambda>em. keeplive env 0 (probes em) k)"

text \<open>
  What happens to the threads: the timer's signal, taken by a thread that is not waiting in a handler, or the end
  of the thread of a probe, which ends the wait of its handler. A handler gets to its wait before the next signal.
\<close>

datatype keep_event = Signal | Ends nat

fun keep_step :: "daemon_env \<Rightarrow> 'h daemon \<Rightarrow> keep_event \<Rightarrow> keeper \<Rightarrow> keeper c" where
  "keep_step env st Signal k = DaemonKeeplive env st k"
| "keep_step env st (Ends i) k =
     Inr (k\<lparr>kp_dead := (kp_dead k)(i := True), kp_joins := filter (\<lambda>j. j \<noteq> i) (kp_joins k)\<rparr>)"

subsection \<open>The main function\<close>

text \<open>The options as \<open>getopt_long\<close> returns them, until its -1.\<close>

definition GALA_CONF_PATH_DEFAULT :: cstr where "GALA_CONF_PATH_DEFAULT = ''/opt/gala-gopher/gala-gopher.conf''"
definition GOPHER_CMD_MAX :: nat where "GOPHER_CMD_MAX = 3"
definition GOPHER_CMD_MIN :: nat where "GOPHER_CMD_MIN = 1"

definition ParseConfigPath :: "(cstr \<Rightarrow> bool) \<Rightarrow> cstr \<Rightarrow> cstr option \<Rightarrow> heap \<Rightarrow> cstr option \<times> heap \<times> int" where
  "ParseConfigPath accessible path gpath h =
     (if \<not> accessible path then (gpath, h, - 1)
      else (let (ok, h1) = malloc h in if \<not> ok then (None, h1, - 1) else (Some path, h1, 0)))"

fun cmd_options :: "(cstr \<Rightarrow> bool) \<Rightarrow> (char \<times> cstr) list \<Rightarrow> cstr option \<Rightarrow> heap \<Rightarrow> int \<Rightarrow> cstr option \<times> heap \<times> int" where
  "cmd_options accessible [] gpath h ret = (gpath, h, ret)"
| "cmd_options accessible ((cmd, optarg) # os) gpath h ret =
     (if cmd = CHR ''h'' then cmd_options accessible os gpath h ret
      else if cmd = CHR ''c'' then
        (let (gpath1, h1, ret1) = ParseConfigPath accessible optarg gpath h in cmd_options accessible os gpath1 h1 ret1)
      else (gpath, h, - 1))"

definition CmdProcessing :: "(cstr \<Rightarrow> bool) \<Rightarrow> nat \<Rightarrow> (char \<times> cstr) list \<Rightarrow> heap \<Rightarrow> cstr option \<times> heap \<times> int" where
  "CmdProcessing accessible argc opts h =
     (if argc > GOPHER_CMD_MAX then (None, h, - 1)
      else if argc = GOPHER_CMD_MIN then ParseConfigPath accessible GALA_CONF_PATH_DEFAULT None h
      else cmd_options accessible opts None h 0)"

text \<open>How far \<open>main\<close> came; it returns 0 in any case.\<close>

datatype 'h run = BadCommand heap | NoManager heap | InitFailed "'h rs_state" | RunFailed "'h daemon" | Finished "'h daemon" heap

definition gopher_main ::
    "(cstr \<Rightarrow> bool) \<Rightarrow> ('c, 's, 'h) rs_env \<Rightarrow> daemon_env \<Rightarrow> nat \<Rightarrow> (char \<times> cstr) list \<Rightarrow> heap \<Rightarrow> 'h run c" where
  "gopher_main accessible env denv argc opts h =
     (let (gpath, h1, ret) = CmdProcessing accessible argc opts h in
      if ret \<noteq> 0 then Inr (BadCommand h1)
      else
        (let (mgr, h2) = ResourceMgrCreate h1 in
         case mgr of
           None \<Rightarrow> Inr (NoManager h2)
         | Some r \<Rightarrow>
             need gpath (\<lambda>path.
               bindc (ResourceMgrInit (env\<lparr>re_confPath := path\<rparr>)
                   \<lparr>rs = r, rs_heap = h2, rs_objs = \<lparr>confs = 0, rks = 0, rkts = 0\<rparr>, rs_timeout = 60\<rparr>) (\<lambda>(st, ret1).
                 if ret1 \<noteq> 0 then Inr (InitFailed st)
                 else
                   bindc (DaemonRun denv \<lparr>dm_rs = rs st, dm_threads = [], dm_commands = []\<rparr>) (\<lambda>(dm, ret2).
                     if ret2 \<noteq> 0 then Inr (RunFailed dm)
                     else
                       bindc (DaemonWaitDone dm) (\<lambda>_.
                         bindc (ResourceMgrDeinit env (st\<lparr>rs := dm_rs dm\<rparr>)) (\<lambda>st1.
                           Inr (Finished (dm\<lparr>dm_rs := rs st1\<rparr>) (ResourceMgrDestroy (Some (rs st1)) (Some path) (rs_heap st1))))))))))"

subsection \<open>The threads in the order of the plan\<close>

text \<open>The numbers of the probes that satisfy a condition, and the threads a daemon means to start.\<close>

fun picks :: "('a \<Rightarrow> bool) \<Rightarrow> nat \<Rightarrow> 'a list \<Rightarrow> nat list" where
  "picks P i [] = []"
| "picks P i (p # ps) = (if P p then i # picks P (Suc i) ps else picks P (Suc i) ps)"

definition needs_start :: "daemon_env \<Rightarrow> ExtendProbe \<Rightarrow> bool" where
  "needs_start env p \<longleftrightarrow> probeSwitch p = PROBE_SWITCH_ON
     \<or> probeSwitch p = PROBE_SWITCH_AUTO \<and> DaemonCheckProbeNeedStart env (startChkCmd p) (chkType p) = 1"

definition switched_on :: "Probe \<Rightarrow> bool" where
  "switched_on p \<longleftrightarrow> pr_switch p = PROBE_SWITCH_ON"

definition thread_plan :: "daemon_env \<Rightarrow> Probe list \<Rightarrow> ExtendProbe list \<Rightarrow> thread list" where
  "thread_plan env ps es = [TIngress, TEgress] @ map TProbe (picks switched_on 0 ps)
     @ map TExtend (picks (needs_start env) 0 es) @ [TCmd]"

text \<open>Creating threads one after another until one cannot be created.\<close>

fun launch :: "daemon_env \<Rightarrow> thread list \<Rightarrow> thread list \<Rightarrow> thread list \<times> int" where
  "launch env [] ts = (ts, 0)"
| "launch env (t # us) ts =
     (let (ts1, ret) = pthread_create env t ts in if ret \<noteq> 0 then (ts1, - 1) else launch env us ts1)"

text \<open>The probes whose thread is in the list are marked as running.\<close>

fun mark :: "thread list \<Rightarrow> nat \<Rightarrow> ExtendProbe list \<Rightarrow> ExtendProbe list" where
  "mark ts i [] = []"
| "mark ts i (p # ps) = (if TExtend i \<in> set ts then p\<lparr>is_running := True\<rparr> else p) # mark ts (Suc i) ps"

lemma in_picks: "i \<in> set (picks P k ps) \<longleftrightarrow> k \<le> i \<and> i < k + length ps \<and> P (ps ! (i - k))"
proof (induction ps arbitrary: i k)
  case (Cons p ps)
  show ?case by (cases "i = k") (auto simp: Cons nth_Cons' Suc_diff_Suc)
qed simp

lemma mark_length [simp]: "length (mark ts i ps) = length ps"
  by (induction ps arbitrary: i) auto

lemma mark_nth: "j < length ps \<Longrightarrow>
    mark ts i ps ! j = (if TExtend (i + j) \<in> set ts then (ps ! j)\<lparr>is_running := True\<rparr> else ps ! j)"
  by (induction ps arbitrary: i j) (auto simp: nth_Cons')

lemma mark_none: "(\<And>j. i \<le> j \<Longrightarrow> TExtend j \<notin> set ts) \<Longrightarrow> mark ts i ps = ps"
  by (rule nth_equalityI) (simp_all add: mark_nth)

lemma launch_append: "launch env (us @ vs) ts =
    (let (ts1, ret) = launch env us ts in if ret \<noteq> 0 then (ts1, ret) else launch env vs ts1)"
  by (induction us arbitrary: ts) (auto split: prod.splits)

lemma launch_take:
  "\<exists>k \<le> length us. launch env us ts = (ts @ take k us, if k = length us then 0 else - 1)
     \<and> (\<forall>j < k. de_create env (length ts + j) = 0) \<and> (k < length us \<longrightarrow> de_create env (length ts + k) \<noteq> 0)"
proof (induction us arbitrary: ts)
  case (Cons t us)
  show ?case
  proof (cases "de_create env (length ts) = 0")
    case True
    obtain k where k: "k \<le> length us" "launch env us (ts @ [t]) = (ts @ t # take k us, if k = length us then 0 else - 1)"
      "\<forall>j < k. de_create env (length (ts @ [t]) + j) = 0" "k < length us \<longrightarrow> de_create env (length (ts @ [t]) + k) \<noteq> 0"
      using Cons [of "ts @ [t]"] by auto
    have "\<forall>j < Suc k. de_create env (length ts + j) = 0"
      using True k(3) by (auto simp: less_Suc_eq_0_disj)
    with True k show ?thesis by (intro exI [of _ "Suc k"]) (simp add: pthread_create_def Let_def)
  qed (auto simp: pthread_create_def Let_def)
qed simp

lemma start_probes_launch: "start_probes env i ps ts = launch env (map TProbe (picks switched_on i ps)) ts"
  by (induction ps arbitrary: i ts) (auto simp: switched_on_def split: prod.splits)

lemma start_extends_launch:
  "(\<And>j. i \<le> j \<Longrightarrow> TExtend j \<notin> set ts) \<Longrightarrow>
     start_extends env i ps ts =
       (let (ts', ret) = launch env (map TExtend (picks (needs_start env) i ps)) ts in (mark ts' i ps, ts', ret))"
proof (induction ps arbitrary: i ts)
  case (Cons p ps)
  let ?us = "\<lambda>i. map TExtend (picks (needs_start env) i ps)"
  have after: "set ts \<subseteq> set ts' \<and> (TExtend i \<in> set ts' \<longrightarrow> TExtend i \<in> set ts)" if "launch env (?us (Suc i)) ts = (ts', r)" for ts ts' r
    using launch_take [of "?us (Suc i)" env ts] that by (auto dest!: in_set_takeD simp: in_picks)
  show ?case
  proof (cases "needs_start env p")
    case False
    then have skip: "probeSwitch p = PROBE_SWITCH_OFF
        \<or> probeSwitch p = PROBE_SWITCH_AUTO \<and> DaemonCheckProbeNeedStart env (startChkCmd p) (chkType p) \<noteq> 1"
      by (cases "probeSwitch p") (auto simp: needs_start_def)
    obtain ts' r where l: "launch env (?us (Suc i)) ts = (ts', r)" by force
    have "start_extends env (Suc i) ps ts = (mark ts' (Suc i) ps, ts', r)"
      using Cons.IH [of "Suc i" ts] Cons.prems l by simp
    with skip False l after [OF l] Cons.prems show ?thesis by auto
  next
    case True
    then have start: "\<not> (probeSwitch p = PROBE_SWITCH_OFF
        \<or> probeSwitch p = PROBE_SWITCH_AUTO \<and> DaemonCheckProbeNeedStart env (startChkCmd p) (chkType p) \<noteq> 1)"
      by (auto simp: needs_start_def)
    show ?thesis
    proof (cases "de_create env (length ts) = 0")
      case created: True
      obtain ts' r where l: "launch env (?us (Suc i)) (ts @ [TExtend i]) = (ts', r)" by force
      have "start_extends env (Suc i) ps (ts @ [TExtend i]) = (mark ts' (Suc i) ps, ts', r)"
        using Cons.IH [of "Suc i" "ts @ [TExtend i]"] Cons.prems l by simp
      with start True created l after [OF l] show ?thesis by (auto simp: pthread_create_def Let_def)
    next
      case False
      with start True Cons.prems mark_none [of i ts "p # ps"] show ?thesis
        by (auto simp: pthread_create_def Let_def)
    qed
  qed
qed simp

text \<open>\<open>DaemonRun\<close> as one launch of the plan, interrupted by the web server and ended by the timer.\<close>

definition web_fails :: "daemon_env \<Rightarrow> 'h ResourceMgr \<Rightarrow> bool" where
  "web_fails env r \<longleftrightarrow> rs_webServer r \<noteq> None \<and> \<not> de_web env"

definition timer_ok :: "daemon_env \<Rightarrow> bool" where
  "timer_ok env \<longleftrightarrow> de_sigaction env = 0 \<and> fst (de_timer_create env) = 0 \<and> de_timer_settime env = 0"

lemma start_web_cases: "start_web env r = (r1, ret) \<Longrightarrow>
    (ret \<noteq> 0 \<longleftrightarrow> web_fails env r) \<and> rs_ingressMgr r1 = rs_ingressMgr r \<and> rs_egressMgr r1 = rs_egressMgr r
    \<and> rs_probeMgr r1 = rs_probeMgr r \<and> rs_extendProbeMgr r1 = rs_extendProbeMgr r"
  by (auto simp: start_web_def web_fails_def WebServerStartDaemon_def split: option.splits if_splits)

lemma CreateTimer_0: "snd (DaemonCreateTimer env t) = 0 \<longleftrightarrow> timer_ok env"
  by (auto simp: DaemonCreateTimer_def timer_ok_def split: prod.splits)

lemma CleanData_same [simp]: "dm_rs (CleanData st) = dm_rs st" "dm_threads (CleanData st) = dm_threads st"
  by (simp_all add: CleanData_def split: option.split)

lemma DaemonRun_launch:
  fixes env :: daemon_env
  assumes "rs_ingressMgr (dm_rs st)" "rs_egressMgr (dm_rs st) \<noteq> None" "rs_probeMgr (dm_rs st) = Some pm"
    and "rs_extendProbeMgr (dm_rs st) = Some em" "dm_threads st = []"
  defines "us \<equiv> thread_plan env (probes pm) (probes em)"
  defines "n \<equiv> (if web_fails env (dm_rs st) then 2 else length us)"
  shows "\<exists>st' ret em'. DaemonRun env st = Inr (st', ret)
    \<and> dm_threads st' = fst (launch env (take n us) [])
    \<and> ret = (if snd (launch env (take n us) []) = 0 \<and> n = length us \<and> timer_ok env then 0 else - 1)
    \<and> rs_ingressMgr (dm_rs st') \<and> rs_egressMgr (dm_rs st') \<noteq> None \<and> rs_probeMgr (dm_rs st') = Some pm
    \<and> rs_extendProbeMgr (dm_rs st') = Some em' \<and> probes em' = mark (dm_threads st') 0 (probes em)"
proof -
  let ?P = "map TProbe (picks switched_on 0 (probes pm))" and ?E = "map TExtend (picks (needs_start env) 0 (probes em))"
  have us: "us = TIngress # TEgress # ?P @ ?E @ [TCmd]" by (simp add: us_def thread_plan_def)
  from assms(2) obtain eg where "rs_egressMgr (dm_rs st) = Some eg" by blast
  note mgrs = assms(1,3-5) this
  have empty: "mark ts 0 (probes em) = probes em" if "\<And>j. TExtend j \<notin> set ts" for ts
    using that by (intro mark_none) simp
  show ?thesis
  proof (cases "de_create env 0 = 0 \<and> de_create env 1 = 0")
    case False
    then show ?thesis
      using mgrs empty
      by (auto simp: DaemonRun_def Let_def pthread_create_def us n_def numeral_2_eq_2 need_def)
  next
    case created: True
    obtain r1 wret where w: "start_web env (dm_rs st) = (r1, wret)" by force
    note wc = start_web_cases [OF w]
    have two: "launch env (TIngress # TEgress # us') [] = launch env us' [TIngress, TEgress]" for us'
      using created by (simp add: pthread_create_def)
    show ?thesis
    proof (cases "web_fails env (dm_rs st)")
      case True
      then show ?thesis
        using mgrs empty created w wc
        by (auto simp: DaemonRun_def Let_def pthread_create_def us n_def numeral_2_eq_2 need_def)
    next
      case web: False
      obtain ts3 r3 where p: "launch env ?P [TIngress, TEgress] = (ts3, r3)" by force
      have no: "TExtend j \<notin> set ts3" for j
        using launch_take [of ?P env "[TIngress, TEgress]"] p by (auto dest!: in_set_takeD)
      obtain ts4 r4 where e: "launch env ?E ts3 = (ts4, r4)" by force
      have ext: "start_extends env 0 (probes em) ts3 = (mark ts4 0 (probes em), ts4, r4)"
        using no start_extends_launch [of 0 ts3 env "probes em"] e by simp
      have all: "launch env us [] = (if r3 \<noteq> 0 then (ts3, r3) else if r4 \<noteq> 0 then (ts4, r4) else launch env [TCmd] ts4)"
        unfolding us two launch_append by (simp add: p e)
      have noext: "mark ts3 0 (probes em) = probes em" using no by (rule empty)
      have cmd: "mark (ts4 @ [TCmd]) 0 (probes em) = mark ts4 0 (probes em)"
        by (rule nth_equalityI) (simp_all add: mark_nth)
      note run = DaemonRun_def Let_def pthread_create_def need_def start_probes_launch p ext w
      obtain timer tret where t: "DaemonCreateTimer env (rs_keeplive_timer r1) = (timer, tret)" by force
      then have tok: "tret = 0 \<longleftrightarrow> timer_ok env" using CreateTimer_0 [of env "rs_keeplive_timer r1"] by simp
      consider "r3 \<noteq> 0" | "r3 = 0" "r4 \<noteq> 0" | "r3 = 0" "r4 = 0" "de_create env (length ts4) \<noteq> 0"
        | "r3 = 0" "r4 = 0" "de_create env (length ts4) = 0" by blast
      then show ?thesis
      proof cases
        case 1
        with mgrs created wc web all noext show ?thesis by (simp add: run n_def)
      next
        case 2
        with mgrs created wc web all show ?thesis by (simp add: run n_def)
      next
        case 3
        with mgrs created wc web all show ?thesis by (simp add: run n_def)
      next
        case 4
        with mgrs created wc web all t tok cmd show ?thesis by (simp add: run n_def)
      qed
    qed
  qed
qed

subsection \<open>Properties\<close>

lemma nth_picks: "i \<in> set (picks P 0 ps) \<longleftrightarrow> i < length ps \<and> P (ps ! i)"
  by (simp add: in_picks)

lemma join_all_cases: "join_all us ts = (if set us \<subseteq> set ts then Inr () else Inl BadThread)"
  by (induction us) (auto simp: pthread_join_def)

lemma all_picked: "(\<forall>i < length ps. i \<in> set (picks P 0 ps)) \<longleftrightarrow> list_all P ps"
  by (auto simp: nth_picks list_all_length)

lemma DaemonWait_plan:
  assumes "rs_ingressMgr (dm_rs st)" "rs_egressMgr (dm_rs st) \<noteq> None" "rs_probeMgr (dm_rs st) = Some pm"
    and "rs_extendProbeMgr (dm_rs st) = Some em" "length (probes em) = length es"
    and "dm_threads st = thread_plan env (probes pm) es"
  shows "DaemonWaitDone st = (if list_all switched_on (probes pm) \<and> list_all (needs_start env) es then Inr 0 else Inl BadThread)"
proof -
  have "TProbe ` {0..<length (probes pm)} \<subseteq> set (dm_threads st) \<longleftrightarrow> list_all switched_on (probes pm)"
    unfolding all_picked [symmetric] assms(6) image_subset_iff by (auto simp: thread_plan_def)
  moreover have "TExtend ` {0..<length es} \<subseteq> set (dm_threads st) \<longleftrightarrow> list_all (needs_start env) es"
    unfolding all_picked [symmetric] assms(6) image_subset_iff by (auto simp: thread_plan_def)
  moreover have "{TIngress, TEgress, TCmd} \<subseteq> set (dm_threads st)" using assms(6) by (auto simp: thread_plan_def)
  ultimately show ?thesis
    using assms(1-5) by (auto simp: DaemonWaitDone_def Let_def need_def join_all_cases pthread_join_def)
qed

text \<open>C29: The daemon starts its threads in the order of a plan: ingress, egress, the probes that are
  switched on, the extended probes that are on or whose check command prints a positive number, and the
  command server. It stops at the first thread that cannot be created, or at the web server, and then
  returns -1 with the threads before it running; it returns 0 when all of them and the timer are there.
  Exactly the extended probes that were started are marked as running. Waiting for the threads after
  a complete start works only if no probe was left out: otherwise it joins a thread that never was.\<close>
theorem DaemonRun_threads:
  assumes "rs_ingressMgr (dm_rs st)" "rs_egressMgr (dm_rs st) \<noteq> None" "rs_probeMgr (dm_rs st) = Some pm"
    and "rs_extendProbeMgr (dm_rs st) = Some em" "dm_threads st = []" "list_all (\<lambda>p. \<not> is_running p) (probes em)"
  shows "\<exists>st' ret k em'. DaemonRun env st = Inr (st', ret)
    \<and> dm_threads st' = take k (thread_plan env (probes pm) (probes em)) \<and> k \<le> length (thread_plan env (probes pm) (probes em))
    \<and> ret = (if k = length (thread_plan env (probes pm) (probes em)) \<and> timer_ok env then 0 else - 1)
    \<and> list_all (\<lambda>j. de_create env j = 0) [0..<k]
    \<and> (k = length (thread_plan env (probes pm) (probes em)) \<or> de_create env k \<noteq> 0 \<or> k = 2 \<and> web_fails env (dm_rs st))
    \<and> rs_extendProbeMgr (dm_rs st') = Some em'
    \<and> map is_running (probes em') = map (\<lambda>i. TExtend i \<in> set (dm_threads st')) [0..<length (probes em)]
    \<and> (ret = - 1 \<or> DaemonWaitDone st' =
         (if list_all switched_on (probes pm) \<and> list_all (needs_start env) (probes em) then Inr 0 else Inl BadThread))"
proof -
  define us where "us = thread_plan env (probes pm) (probes em)"
  define n where "n = (if web_fails env (dm_rs st) then 2 else length us)"
  have two: "2 < length us" by (simp add: us_def thread_plan_def)
  obtain st' ret em' where run: "DaemonRun env st = Inr (st', ret)" "dm_threads st' = fst (launch env (take n us) [])"
    "ret = (if snd (launch env (take n us) []) = 0 \<and> n = length us \<and> timer_ok env then 0 else - 1)"
    "rs_ingressMgr (dm_rs st')" "rs_egressMgr (dm_rs st') \<noteq> None" "rs_probeMgr (dm_rs st') = Some pm"
    "rs_extendProbeMgr (dm_rs st') = Some em'" "probes em' = mark (dm_threads st') 0 (probes em)"
    using DaemonRun_launch [OF assms(1-5), of env] unfolding us_def n_def by blast
  obtain k where k: "k \<le> length (take n us)" "launch env (take n us) [] = (take k (take n us), if k = length (take n us) then 0 else - 1)"
    "\<forall>j < k. de_create env j = 0" "k < length (take n us) \<longrightarrow> de_create env k \<noteq> 0"
    using launch_take [of "take n us" env "[]", unfolded append_Nil list.size(3) add_0] by blast
  have n: "n \<le> length us" "length (take n us) = n" using two by (simp_all add: n_def)
  have threads: "dm_threads st' = take k us" using k(1,2) n run(2) by simp
  have ret: "ret = (if k = length us \<and> timer_ok env then 0 else - 1)"
    using run(3) k(1,2) n by auto
  have stop: "k = length us \<or> de_create env k \<noteq> 0 \<or> k = 2 \<and> web_fails env (dm_rs st)"
    using k(1,4) n by (auto simp: n_def split: if_splits)
  have flags: "map is_running (probes em') = map (\<lambda>i. TExtend i \<in> set (dm_threads st')) [0..<length (probes em)]"
    using assms(6) by (intro nth_equalityI) (auto simp: run(8) mark_nth list_all_length)
  have wait: "ret = - 1 \<or> DaemonWaitDone st' =
      (if list_all switched_on (probes pm) \<and> list_all (needs_start env) (probes em) then Inr 0 else Inl BadThread)"
    using ret threads DaemonWait_plan [OF run(4-7), of "probes em" env] by (auto simp: us_def run(8) split: if_splits)
  show ?thesis
    using run(1,7) threads ret stop flags wait k(1,3) n unfolding us_def
    by (intro exI [of _ st'] exI [of _ ret] exI [of _ k] exI [of _ em'] conjI) (auto simp: list_all_iff)
qed

text \<open>Two built-in probes, one of them switched off, and an extended probe whose check counts to 1.\<close>

definition example_daemon :: "unit daemon" where
  "example_daemon = \<lparr>dm_rs = null_resource\<lparr>rs_ingressMgr := True,
      rs_egressMgr := Some \<lparr>eg_kafkaMgr = None, egm_interval = 0, egm_timeRange = 0, eg_fifo = small_fifo, eg_epoll_fd = 0\<rparr>,
      rs_probeMgr := Some \<lparr>pm_size = 32, probes = [new_probe 1 ''event'', (new_probe 1 ''virt'')\<lparr>pr_switch := PROBE_SWITCH_ON\<rparr>]\<rparr>,
      rs_extendProbeMgr := Some \<lparr>pm_size = 32, probes = [example_ext\<lparr>probeSwitch := PROBE_SWITCH_AUTO, is_running := False\<rparr>]\<rparr>\<rparr>,
    dm_threads = [], dm_commands = []\<rparr>"

definition example_answers :: daemon_env where
  "example_answers = \<lparr>de_create = (\<lambda>n. if n < 3 then 0 else 11), de_web = True, de_popen = (\<lambda>_. Some (Some ''1'')),
     de_sigaction = 0, de_timer_create = (0, True), de_timer_settime = 0\<rparr>"

theorem DaemonRun_threads_witness:
  "\<exists>st'. DaemonRun example_answers example_daemon = Inr (st', - 1) \<and> dm_threads st' = [TIngress, TEgress, TProbe 1]"
proof -
  let ?ps = "[new_probe 1 ''event'', (new_probe 1 ''virt'')\<lparr>pr_switch := PROBE_SWITCH_ON\<rparr>]"
  let ?es = "[example_ext\<lparr>probeSwitch := PROBE_SWITCH_AUTO, is_running := False\<rparr>]"
  have "atoi ''1'' = 1" by code_simp
  then have plan: "thread_plan example_answers ?ps ?es = [TIngress, TEgress, TProbe 1, TExtend 0, TCmd]"
    by (simp add: thread_plan_def switched_on_def needs_start_def new_probe_def example_ext_def DaemonCheckProbeNeedStart_def
        example_answers_def MAX_COMMAND_LEN_def)
  have prems: "rs_ingressMgr (dm_rs example_daemon)" "rs_egressMgr (dm_rs example_daemon) \<noteq> None"
    "rs_probeMgr (dm_rs example_daemon) = Some \<lparr>pm_size = 32, probes = ?ps\<rparr>"
    "rs_extendProbeMgr (dm_rs example_daemon) = Some \<lparr>pm_size = 32, probes = ?es\<rparr>" "dm_threads example_daemon = []"
    "list_all (\<lambda>p. \<not> is_running p) (probes \<lparr>pm_size = 32, probes = ?es\<rparr>)"
    by (simp_all add: example_daemon_def)
  have web: "\<not> web_fails example_answers (dm_rs example_daemon)" by (simp add: web_fails_def example_answers_def)
  let ?us = "[TIngress, TEgress, TProbe 1, TExtend 0, TCmd]"
  from DaemonRun_threads [OF prems, of example_answers, unfolded ProbeMgr.select_convs plan] obtain st' ret k
    where r: "DaemonRun example_answers example_daemon = Inr (st', ret)" "dm_threads st' = take k ?us"
      "ret = (if k = length ?us \<and> timer_ok example_answers then 0 else - 1)"
      "list_all (\<lambda>j. de_create example_answers j = 0) [0..<k]"
      "k = length ?us \<or> de_create example_answers k \<noteq> 0 \<or> k = 2 \<and> web_fails example_answers (dm_rs example_daemon)"
    by blast
  have "list_all (\<lambda>j. j < 3) [0..<k]" "k = 5 \<or> 3 \<le> k"
    using r(4,5) web by (auto simp: example_answers_def list_all_iff split: if_splits)
  then have "k = 3" by (cases k) (auto simp: list_all_iff)
  with r show ?thesis by (simp add: numeral_3_eq_3)
qed

text \<open>The probes that have a dead thread, in the order in which the handler finds them.\<close>

definition dead_probes :: "keeper \<Rightarrow> nat \<Rightarrow> ExtendProbe list \<Rightarrow> nat list" where
  "dead_probes k i ps = filter (\<lambda>j. is_running (ps ! (j - i)) \<and> kp_dead k j) [i..<i + length ps]"

lemma dead_probes_Cons: "dead_probes k i (p # ps) = (if is_running p \<and> kp_dead k i then [i] else []) @ dead_probes k (Suc i) ps"
proof -
  have "[i..<i + length (p # ps)] = i # [Suc i..<Suc i + length ps]"
    using upt_conv_Cons [of i "i + length (p # ps)"] by simp
  moreover have "filter (\<lambda>j. is_running ((p # ps) ! (j - i)) \<and> kp_dead k j) [Suc i..<Suc i + length ps]
      = filter (\<lambda>j. is_running (ps ! (j - Suc i)) \<and> kp_dead k j) [Suc i..<Suc i + length ps]"
    by (rule filter_cong) (auto simp: nth_Cons' Suc_diff_Suc)
  ultimately show ?thesis by (simp add: dead_probes_def)
qed

definition restarted :: "nat \<Rightarrow> keeper \<Rightarrow> keeper" where
  "restarted i k = k\<lparr>kp_threads := kp_threads k @ [TExtend i], kp_dead := (kp_dead k)(i := False), kp_joins := kp_joins k @ [i]\<rparr>"

lemma keeplive_first:
  "(\<And>n. de_create env n = 0) \<Longrightarrow>
     keeplive env i ps k = Inr (case dead_probes k i ps of [] \<Rightarrow> k | j # js \<Rightarrow> restarted j k)"
proof (induction ps arbitrary: i)
  case Nil
  then show ?case by (simp add: dead_probes_def)
next
  case (Cons p ps)
  then show ?case
    by (auto simp: dead_probes_Cons restarted_def pthread_create_def Let_def)
qed

lemma dead_probes_restarted:
  assumes "dead_probes k 0 ps = j # js"
  shows "dead_probes (restarted j k) 0 ps = js"
proof -
  have "distinct (dead_probes k 0 ps)" by (simp add: dead_probes_def)
  then have j: "filter (\<lambda>i. i \<noteq> j) (dead_probes k 0 ps) = js" using assms by (auto simp: filter_id_conv)
  show ?thesis unfolding j [symmetric] by (simp add: dead_probes_def restarted_def conj_commute cong: conj_cong)
qed

text \<open>A handler waits only while the probe that it started again lives.\<close>

definition joins_ok :: "keeper \<Rightarrow> bool" where
  "joins_ok k \<longleftrightarrow> distinct (kp_joins k) \<and> (\<forall>i \<in> set (kp_joins k). \<not> kp_dead k i \<and> TExtend i \<in> set (kp_threads k))"

lemma keeplive_joins: "joins_ok k \<Longrightarrow> keeplive env i ps k = Inr k' \<Longrightarrow> joins_ok k'"
proof (induction ps arbitrary: i)
  case (Cons p ps)
  then show ?case
    by (auto simp: joins_ok_def pthread_create_def Let_def split: if_splits)
qed simp

lemma keep_step_joins:
  assumes "joins_ok k" "keep_step env st ev k = Inr k'"
  shows "joins_ok k'"
proof (cases ev)
  case Signal
  with assms show ?thesis by (auto simp: DaemonKeeplive_def need_def intro: keeplive_joins split: option.splits)
qed (use assms in \<open>auto simp: joins_ok_def\<close>)

text \<open>C30: At each signal the handler starts one probe again, the first whose thread is dead, and waits for it. When
  threads can be created and no other probe dies in the meantime, \<open>n\<close> signals start the first \<open>n\<close> dead probes again,
  one each and in order, so that after as many signals as there are dead probes all of them have a thread. And
  whatever signals arrive and whichever threads end, no two handlers wait for the same probe and each waits for a
  living one: the thread that took the signal is held for as long as the probe that it started again runs.\<close>
theorem DaemonKeeplive_restarts:
  assumes "rs_extendProbeMgr (dm_rs st) = Some em" "\<And>n. de_create env n = 0" "joins_ok k"
  shows "(\<exists>k'. foldc (keep_step env st) (replicate n Signal) k = Inr k'
      \<and> kp_threads k' = kp_threads k @ map TExtend (take n (dead_probes k 0 (probes em)))
      \<and> kp_joins k' = kp_joins k @ take n (dead_probes k 0 (probes em))
      \<and> dead_probes k' 0 (probes em) = drop n (dead_probes k 0 (probes em)))
    \<and> (\<exists>k'. foldc (keep_step env st) evs k = Inr k' \<and> joins_ok k')"
proof
  have sig: "keep_step env st Signal k = Inr (case dead_probes k 0 (probes em) of [] \<Rightarrow> k | j # js \<Rightarrow> restarted j k)" for k
    using assms(1) keeplive_first [OF assms(2)] by (simp add: DaemonKeeplive_def need_def)
  show "\<exists>k'. foldc (keep_step env st) (replicate n Signal) k = Inr k'
      \<and> kp_threads k' = kp_threads k @ map TExtend (take n (dead_probes k 0 (probes em)))
      \<and> kp_joins k' = kp_joins k @ take n (dead_probes k 0 (probes em))
      \<and> dead_probes k' 0 (probes em) = drop n (dead_probes k 0 (probes em))"
  proof (induction n arbitrary: k)
    case (Suc n)
    show ?case
    proof (cases "dead_probes k 0 (probes em)")
      case Nil
      with Suc.IH [of k] show ?thesis by (simp add: sig del: keep_step.simps)
    next
      case (Cons j js)
      with Suc.IH [of "restarted j k"] dead_probes_restarted [OF Cons] show ?thesis
        by (simp add: sig del: keep_step.simps) (simp add: restarted_def)
    qed
  qed simp
  have all: "\<exists>k'. keep_step env st ev k = Inr k'" for ev k using sig [of k] by (cases ev) simp_all
  show "\<exists>k'. foldc (keep_step env st) evs k = Inr k' \<and> joins_ok k'"
    using assms(3)
  proof (induction evs arbitrary: k)
    case (Cons ev evs)
    from all obtain k1 where "keep_step env st ev k = Inr k1" by blast
    with Cons.IH [of k1] keep_step_joins [OF Cons.prems this] show ?case by (simp del: keep_step.simps)
  qed simp
qed

definition two_extends :: "unit daemon" where
  "two_extends = example_daemon\<lparr>dm_rs := null_resource\<lparr>rs_extendProbeMgr :=
     Some \<lparr>pm_size = 32, probes = replicate 2 (example_ext\<lparr>is_running := True\<rparr>)\<rparr>\<rparr>\<rparr>"

theorem DaemonKeeplive_restarts_witness:
  "\<exists>k'. foldc (keep_step (example_answers\<lparr>de_create := \<lambda>_. 0\<rparr>) two_extends) [Signal, Signal]
       \<lparr>kp_threads = [TExtend 0, TExtend 1], kp_dead = \<lambda>_. True, kp_joins = []\<rparr> = Inr k'
     \<and> kp_threads k' = [TExtend 0, TExtend 1, TExtend 0, TExtend 1] \<and> kp_joins k' = [0, 1]"
proof -
  let ?em = "\<lparr>pm_size = 32, probes = replicate 2 (example_ext\<lparr>is_running := True\<rparr>)\<rparr>"
  let ?k = "\<lparr>kp_threads = [TExtend 0, TExtend 1], kp_dead = \<lambda>_. True, kp_joins = []\<rparr>"
  have em: "rs_extendProbeMgr (dm_rs two_extends) = Some ?em" by (simp add: two_extends_def)
  have dead: "dead_probes ?k 0 (probes ?em) = [0, 1]" by (simp add: dead_probes_def numeral_2_eq_2)
  have "joins_ok ?k" by (simp add: joins_ok_def)
  from DaemonKeeplive_restarts [OF em, of "example_answers\<lparr>de_create := \<lambda>_. 0\<rparr>", OF _ this, of 2 "[]", unfolded dead]
  show ?thesis by (auto simp: numeral_2_eq_2)
qed

end
