(* ===== verification/Cmd.thy ===== *)
theory Cmd
  imports Prelude
begin

section \<open>The command server and its client\<close>

text \<open>
  \<open>cmd/server.c\<close>, \<open>cmd/client.c\<close> and \<open>cmd/base_info.h\<close>: the thread of the daemon that answers requests on
  a socket, and the program \<open>gopher-ctl\<close>. A request is the bytes of a \<open>struct GopherCmdRequest\<close>, the type
  at offset 0, the key at 4 and the value at 36. The system is given by its answers.
\<close>

type_synonym bytes = "char list"

abbreviation NUL :: char where "NUL \<equiv> CHR 0x00"

definition GOPHER_OK :: int where "GOPHER_OK = 0"
definition GOPHER_ERR :: int where "GOPHER_ERR = - 1"
definition GOPHER_CMD_KEY1 :: cstr where "GOPHER_CMD_KEY1 = ''show''"
definition GOPHER_CMD_KEY1_VALUE1 :: cstr where "GOPHER_CMD_KEY1_VALUE1 = ''config_path''"
definition g_cmdShowItemTbl :: "cstr list" where "g_cmdShowItemTbl = [GOPHER_CMD_KEY1_VALUE1]"
definition REQUEST_STATUS_FAILED1 :: cstr where "REQUEST_STATUS_FAILED1 = ''Failed to get the request.''"
definition REQUEST_STATUS_FAILED2 :: cstr where "REQUEST_STATUS_FAILED2 = ''Failed to process the request.''"
definition RESULT_INFO_LEN_MAX :: nat where "RESULT_INFO_LEN_MAX = 1024"
definition GOPHER_CMD_LINE_MIN :: nat where "GOPHER_CMD_LINE_MIN = 2"
definition GOPHER_CMD_LINE_MAX :: nat where "GOPHER_CMD_LINE_MAX = 3"
definition GOPHER_CMD_KEY_LEN_MAX :: nat where "GOPHER_CMD_KEY_LEN_MAX = 32"
definition GOPHER_CMD_VALUE_LEN_MAX :: nat where "GOPHER_CMD_VALUE_LEN_MAX = 32"

datatype GopherCmdType = GOPHER_GET_CONFIG_PATH | GOPHER_SET_PROBE_UP | GOPHER_SET_PROBE_DOWN

text \<open>The layout of the request: sizes and offsets, and the bytes of an enum value.\<close>

definition key_at :: nat where "key_at = 4"
definition value_at :: nat where "value_at = key_at + GOPHER_CMD_KEY_LEN_MAX"
definition request_size :: nat where "request_size = value_at + GOPHER_CMD_VALUE_LEN_MAX"

fun cmd_type_bytes :: "GopherCmdType \<Rightarrow> bytes" where
  "cmd_type_bytes GOPHER_GET_CONFIG_PATH = [NUL, NUL, NUL, NUL]"
| "cmd_type_bytes GOPHER_SET_PROBE_UP = [CHR 0x01, NUL, NUL, NUL]"
| "cmd_type_bytes GOPHER_SET_PROBE_DOWN = [CHR 0x02, NUL, NUL, NUL]"

text \<open>\<open>memcpy\<close> into a buffer, and \<open>strcmp\<close> of a string in it with a literal.\<close>

definition put_bytes :: "nat \<Rightarrow> bytes \<Rightarrow> bytes \<Rightarrow> bytes" where
  "put_bytes i bs buf = take i buf @ bs @ drop (i + length bs) buf"

definition strcmp_at :: "nat \<Rightarrow> bytes \<Rightarrow> cstr \<Rightarrow> bool" where
  "strcmp_at i buf s \<longleftrightarrow> take (length s + 1) (drop i buf) = s @ [NUL]"

subsection \<open>The server\<close>

text \<open>What the calls for one client answer: \<open>accept\<close>, the bytes of \<open>read\<close> if there are any, \<open>write\<close>.\<close>

record client_calls =
  cl_accept :: bool
  cl_read :: "bytes option"
  cl_write :: bool

record server_setup =
  ss_dir :: bool
  ss_mkdir :: int
  ss_sock_exists :: bool
  ss_unlink :: int
  ss_socket :: int
  ss_bind :: int
  ss_listen :: int

definition SetRunDir :: "server_setup \<Rightarrow> int" where
  "SetRunDir s = (if \<not> ss_dir s then ss_mkdir s else 0)"

text \<open>The second component says whether the socket is open afterwards.\<close>

definition CmdServerCreate :: "server_setup \<Rightarrow> int \<times> bool" where
  "CmdServerCreate s =
     (if ss_sock_exists s \<and> ss_unlink s < 0 then (GOPHER_ERR, False)
      else if ss_socket s < 0 then (GOPHER_ERR, False)
      else if ss_bind s < 0 then (GOPHER_ERR, False)
      else if ss_listen s < 0 then (GOPHER_ERR, False)
      else (GOPHER_OK, True))"

text \<open>The bytes that were read replace the first ones of the request, which is never cleared.\<close>

definition getRequest :: "bytes option \<Rightarrow> bytes \<Rightarrow> bytes \<times> int" where
  "getRequest r buf =
     (case r of
        None \<Rightarrow> (buf, GOPHER_ERR)
      | Some bs \<Rightarrow> (put_bytes 0 (take request_size bs) buf, GOPHER_OK))"

text \<open>The result block has been zeroed, so what is copied into it is the string it holds.\<close>

definition GetConfig :: "cstr option \<Rightarrow> bytes \<Rightarrow> (cstr \<times> int) c" where
  "GetConfig gpath request =
     (if strcmp_at key_at request GOPHER_CMD_KEY1 then
        (if strcmp_at value_at request GOPHER_CMD_KEY1_VALUE1 then
           (case gpath of
              None \<Rightarrow> Inl NullDeref
            | Some p \<Rightarrow> if length p > RESULT_INFO_LEN_MAX then Inl OutOfBounds else Inr (p, 0))
         else Inr ([], - 1))
      else Inr ([], - 1))"

definition RequestProcess :: "cstr option \<Rightarrow> bytes \<Rightarrow> (cstr \<times> int) c" where
  "RequestProcess gpath request =
     (if take 4 request = cmd_type_bytes GOPHER_GET_CONFIG_PATH then GetConfig gpath request
      else Inr ([], GOPHER_ERR))"

text \<open>The answer to a client and the request as it is afterwards. \<open>strlen\<close> of a full block reads past it.\<close>

definition request_answer :: "cstr option \<Rightarrow> bytes option \<Rightarrow> bytes \<Rightarrow> (cstr \<times> bytes) c" where
  "request_answer gpath r request =
     (let (request1, ret) = getRequest r request in
      bindc (if ret < 0 then Inr REQUEST_STATUS_FAILED1
             else bindc (RequestProcess gpath request1) (\<lambda>(result, ret1).
                    Inr (if ret1 < 0 then REQUEST_STATUS_FAILED2 else result)))
        (\<lambda>result. if length result \<ge> RESULT_INFO_LEN_MAX then Inl OutOfBounds else Inr (result, request1)))"

text \<open>How the loop of the server can stand: it waits in \<open>accept\<close>, has returned, or went wrong. The
  block of the results is freed in every round and used again in the next.\<close>

datatype server_end = Waiting | Returned | Undefined ub

fun serve :: "cstr option \<Rightarrow> bytes \<Rightarrow> bool \<Rightarrow> client_calls list \<Rightarrow> cstr list \<times> server_end" where
  "serve gpath request freed cs =
     (if freed then ([], Undefined UseAfterFree)
      else
        (case cs of
           [] \<Rightarrow> ([], Waiting)
         | cl # cls \<Rightarrow>
             if \<not> cl_accept cl then serve gpath request True cls
             else
               (case request_answer gpath (cl_read cl) request of
                  Inl e \<Rightarrow> ([], Undefined e)
                | Inr (result, request1) \<Rightarrow>
                    if \<not> cl_write cl then ([], Returned)
                    else (let (out, end_state) = serve gpath request1 True cls in (result # out, end_state)))))"

declare serve.simps [simp del]

definition CmdServer :: "server_setup \<Rightarrow> cstr option \<Rightarrow> bytes \<Rightarrow> client_calls list \<Rightarrow> heap \<Rightarrow> cstr list \<times> server_end" where
  "CmdServer s gpath request cs h =
     (if SetRunDir s \<noteq> GOPHER_OK then ([], Returned)
      else if fst (CmdServerCreate s) \<noteq> GOPHER_OK then ([], Returned)
      else (let (ok, h1) = malloc h in if \<not> ok then ([], Returned) else serve gpath request False cs))"

subsection \<open>The client\<close>

definition CheckShowItem :: "cstr \<Rightarrow> int" where
  "CheckShowItem showItem = (if list_ex (\<lambda>s. s = showItem) g_cmdShowItemTbl then 0 else - 1)"

text \<open>The options as \<open>getopt_long\<close> returns them, until its -1.\<close>

fun request_options :: "(char \<times> cstr) list \<Rightarrow> bytes \<Rightarrow> bytes \<times> int" where
  "request_options [] request = (request, GOPHER_OK)"
| "request_options ((cmd, optarg) # os) request =
     (if cmd = CHR ''s'' then
        (let request1 = put_bytes key_at GOPHER_CMD_KEY1
               (put_bytes 0 (cmd_type_bytes GOPHER_GET_CONFIG_PATH) request)
         in if CheckShowItem optarg = 0 then request_options os (put_bytes value_at optarg request1)
            else (request1, GOPHER_ERR))
      else (request, GOPHER_ERR))"

definition CmdRequestParse :: "cstr list \<Rightarrow> (char \<times> cstr) list \<Rightarrow> bytes \<Rightarrow> bytes \<times> int" where
  "CmdRequestParse argv opts request =
     (if length argv < GOPHER_CMD_LINE_MIN \<or> length argv > GOPHER_CMD_LINE_MAX
         \<or> length argv = GOPHER_CMD_LINE_MIN \<and> argv ! 1 \<noteq> ''-h'' \<and> argv ! 1 \<noteq> ''--help''
      then (request, GOPHER_ERR)
      else request_options opts request)"

text \<open>
  \<open>main\<close>: the request is allocated with the bytes that are there. \<open>exchange\<close> is what the server sends back
  for the bytes that are written to it, if the read works. The results are the line that is printed, if any,
  and the heap.
\<close>

definition ctl_main :: "(bytes \<Rightarrow> cstr option) \<Rightarrow> bool \<Rightarrow> bool \<Rightarrow> cstr list \<Rightarrow> (char \<times> cstr) list \<Rightarrow> bytes \<Rightarrow> heap \<Rightarrow> cstr option \<times> heap" where
  "ctl_main exchange connect sent argv opts garbage h =
     (let (ok, h1) = malloc h in
      if \<not> ok then (None, h1)
      else
        (let (request, ret) = CmdRequestParse argv opts garbage in
         if ret < 0 then (None, free h1)
         else if \<not> connect then (None, h1)
         else if \<not> sent then (None, free h1)
         else
           (let (ok2, h2) = malloc h1 in
            if \<not> ok2 then (None, free h2)
            else
              (case exchange request of
                 None \<Rightarrow> (None, free (free h2))
               | Some s \<Rightarrow> (Some (take RESULT_INFO_LEN_MAX s), free (free h2))))))"

subsection \<open>Properties\<close>

lemma put_length: "i + length bs \<le> length buf \<Longrightarrow> length (put_bytes i bs buf) = length buf"
  by (simp add: put_bytes_def)

lemma put_other: "i + length bs \<le> length buf \<Longrightarrow> j < i \<or> i + length bs \<le> j \<Longrightarrow> j < length buf \<Longrightarrow>
    put_bytes i bs buf ! j = buf ! j"
  by (auto simp: put_bytes_def nth_append)

lemma put_take: "i + length bs \<le> length buf \<Longrightarrow> take (length bs) (drop i (put_bytes i bs buf)) = bs"
  by (simp add: put_bytes_def)

lemma put_before: "i + length bs \<le> length buf \<Longrightarrow> j + n \<le> i \<Longrightarrow> take n (drop j (put_bytes i bs buf)) = take n (drop j buf)"
  by (rule nth_equalityI) (auto simp: put_bytes_def nth_append)

lemma strcmp_at_put:
  assumes "i + length s < length buf"
  shows "strcmp_at i (put_bytes i s buf) s \<longleftrightarrow> buf ! (i + length s) = NUL"
proof -
  have "drop (i + length s) (put_bytes i s buf) = drop (i + length s) buf" using assms by (simp add: put_bytes_def)
  then have "take (length s + 1) (drop i (put_bytes i s buf)) = s @ [buf ! (i + length s)]"
    using assms put_take [of i s buf]
    by (simp add: take_add [of "length s" 1, simplified] drop_drop add.commute Cons_nth_drop_Suc [symmetric])
  then show ?thesis by (simp add: strcmp_at_def)
qed

definition show_options :: "(char \<times> cstr) list" where
  "show_options = [(CHR ''s'', GOPHER_CMD_KEY1_VALUE1)]"

definition show_argv :: "cstr list" where
  "show_argv = [''gopher-ctl'', ''-s'', ''config_path'']"

text \<open>The bytes after the key and after the value of a request, which the client does not write.\<close>

definition ends_written :: "bytes \<Rightarrow> bool" where
  "ends_written garbage \<longleftrightarrow> garbage ! 8 = NUL \<and> garbage ! 47 = NUL"

lemmas cmd_consts = key_at_def value_at_def request_size_def GOPHER_CMD_KEY1_def GOPHER_CMD_KEY1_VALUE1_def
  GOPHER_CMD_KEY_LEN_MAX_def GOPHER_CMD_VALUE_LEN_MAX_def GOPHER_OK_def GOPHER_ERR_def

lemma show_request:
  assumes "length g = request_size"
  obtains r where "CmdRequestParse show_argv show_options g = (r, 0)" "length r = request_size"
    "take 4 r = cmd_type_bytes GOPHER_GET_CONFIG_PATH"
    "strcmp_at key_at r GOPHER_CMD_KEY1 \<longleftrightarrow> g ! 8 = NUL"
    "strcmp_at value_at r GOPHER_CMD_KEY1_VALUE1 \<longleftrightarrow> g ! 47 = NUL"
proof -
  let ?t = "put_bytes 0 (cmd_type_bytes GOPHER_GET_CONFIG_PATH) g"
  let ?k = "put_bytes key_at GOPHER_CMD_KEY1 ?t"
  let ?r = "put_bytes value_at GOPHER_CMD_KEY1_VALUE1 ?k"
  have "CmdRequestParse show_argv show_options g = (?r, 0)"
    by (simp add: CmdRequestParse_def show_argv_def show_options_def CheckShowItem_def g_cmdShowItemTbl_def GOPHER_OK_def
        GOPHER_CMD_LINE_MIN_def GOPHER_CMD_LINE_MAX_def)
  moreover have len: "length ?t = 68" "length ?k = 68" "length ?r = 68" "length g = 68"
    using assms by (simp_all add: put_length cmd_consts)
  moreover have "take 4 ?r = cmd_type_bytes GOPHER_GET_CONFIG_PATH"
    using put_before [of value_at GOPHER_CMD_KEY1_VALUE1 ?k 0 4] put_before [of key_at GOPHER_CMD_KEY1 ?t 0 4]
      put_take [of 0 "cmd_type_bytes GOPHER_GET_CONFIG_PATH" g] len
    by (simp add: cmd_consts eval_nat_numeral)
  moreover have "strcmp_at key_at ?r GOPHER_CMD_KEY1 \<longleftrightarrow> g ! 8 = NUL"
  proof -
    have "strcmp_at key_at ?r GOPHER_CMD_KEY1 = strcmp_at key_at ?k GOPHER_CMD_KEY1"
      using put_before [of value_at GOPHER_CMD_KEY1_VALUE1 ?k key_at "length GOPHER_CMD_KEY1 + 1"] len by (simp add: strcmp_at_def cmd_consts)
    also have "\<dots> \<longleftrightarrow> ?t ! 8 = NUL"
      using strcmp_at_put [of key_at GOPHER_CMD_KEY1 ?t] len by (simp add: cmd_consts)
    finally show ?thesis using put_other [of 0 "cmd_type_bytes GOPHER_GET_CONFIG_PATH" g 8] len by simp
  qed
  moreover have "strcmp_at value_at ?r GOPHER_CMD_KEY1_VALUE1 \<longleftrightarrow> g ! 47 = NUL"
    using strcmp_at_put [of value_at GOPHER_CMD_KEY1_VALUE1 ?k] put_other [of key_at GOPHER_CMD_KEY1 ?t 47]
      put_other [of 0 "cmd_type_bytes GOPHER_GET_CONFIG_PATH" g 47] len
    by (simp add: cmd_consts)
  ultimately show ?thesis using that assms by (simp add: cmd_consts)
qed

definition client_of :: "bytes \<Rightarrow> client_calls" where
  "client_of r = \<lparr>cl_accept = True, cl_read = Some r, cl_write = True\<rparr>"

text \<open>C31: The command \<open>gopher-ctl -s config_path\<close> prints the path of the configuration if the two bytes of
  the client's fresh block after the key and after the value are zero by chance, and the message
  of a failed request otherwise: the block is not cleared. The server answers its first client so, whatever
  clients come after it, and then uses the block it has freed.\<close>
theorem gopher_show_roundtrip:
  assumes "length garbage = request_size" "length stale = request_size" "length p < RESULT_INFO_LEN_MAX"
    and "SetRunDir s = 0" "fst (CmdServerCreate s) = 0" "mscript h = []" "mscript h' = []"
  shows "fst (ctl_main (\<lambda>r. List.find (\<lambda>_. True) (fst (CmdServer s (Some p) stale (client_of r # cs) h))) True True
        show_argv show_options garbage h')
      = Some (if ends_written garbage then p else REQUEST_STATUS_FAILED2)
    \<and> CmdServer s (Some p) stale (client_of (fst (CmdRequestParse show_argv show_options garbage)) # cs) h
      = ([if ends_written garbage then p else REQUEST_STATUS_FAILED2], Undefined UseAfterFree)"
proof -
  obtain r where r: "CmdRequestParse show_argv show_options garbage = (r, 0)" "length r = request_size"
    "take 4 r = cmd_type_bytes GOPHER_GET_CONFIG_PATH"
    "strcmp_at key_at r GOPHER_CMD_KEY1 \<longleftrightarrow> garbage ! 8 = NUL"
    "strcmp_at value_at r GOPHER_CMD_KEY1_VALUE1 \<longleftrightarrow> garbage ! 47 = NUL"
    using show_request [OF assms(1)] by blast
  have "getRequest (Some r) stale = (r, 0)" using r(2) assms(2) by (simp add: getRequest_def put_bytes_def GOPHER_OK_def)
  then have "request_answer (Some p) (Some r) stale = Inr (if ends_written garbage then p else REQUEST_STATUS_FAILED2, r)"
    using r(3-5) assms(3)
    by (auto simp: request_answer_def RequestProcess_def GetConfig_def ends_written_def REQUEST_STATUS_FAILED2_def RESULT_INFO_LEN_MAX_def)
  moreover have "serve (Some p) request True cs = ([], Undefined UseAfterFree)" for request
    by (subst serve.simps) simp
  ultimately have "serve (Some p) stale False (client_of r # cs)
      = ([if ends_written garbage then p else REQUEST_STATUS_FAILED2], Undefined UseAfterFree)"
    by (subst serve.simps) (simp add: client_of_def)
  then have server: "CmdServer s (Some p) stale (client_of r # cs) h
      = ([if ends_written garbage then p else REQUEST_STATUS_FAILED2], Undefined UseAfterFree)"
    using assms(4-6) by (simp add: CmdServer_def GOPHER_OK_def)
  then show ?thesis
    using r(1) assms(3,7) by (simp add: ctl_main_def RESULT_INFO_LEN_MAX_def REQUEST_STATUS_FAILED2_def)
qed

definition example_setup :: server_setup where
  "example_setup = \<lparr>ss_dir = True, ss_mkdir = 0, ss_sock_exists = False, ss_unlink = 0, ss_socket = 4, ss_bind = 0, ss_listen = 0\<rparr>"

theorem gopher_show_roundtrip_witness:
  "CmdServer example_setup (Some ''/g.conf'') (replicate 68 NUL)
       [client_of (fst (CmdRequestParse show_argv show_options (replicate 68 (CHR ''x''))))] heap0
     = ([''Failed to process the request.''], Undefined UseAfterFree)
   \<and> fst (ctl_main (\<lambda>r. List.find (\<lambda>_. True) (fst (CmdServer example_setup (Some ''/g.conf'') (replicate 68 NUL) [client_of r] heap0)))
       True True show_argv show_options (replicate 68 NUL) heap0) = Some ''/g.conf''"
  using gopher_show_roundtrip [of "replicate 68 (CHR ''x'')" "replicate 68 NUL" "''/g.conf''" example_setup heap0 heap0 "[]"]
    gopher_show_roundtrip [of "replicate 68 NUL" "replicate 68 NUL" "''/g.conf''" example_setup heap0 heap0 "[]"]
  by (simp add: cmd_consts RESULT_INFO_LEN_MAX_def SetRunDir_def CmdServerCreate_def example_setup_def ends_written_def
      REQUEST_STATUS_FAILED2_def)

end
