(* ===== verification/Event.thy ===== *)
theory Event
  imports ExtendProbe
begin

section \<open>Events\<close>

text \<open>
  \<open>common/event.c\<close>, the function with which the probes that are programs of their own report an event,
  and \<open>probes/event.probe/event.c\<close>, the built-in probe that reports failed commands from the system log.
  The text of \<open>asctime\<close> and of the formatted message, and what the shell commands print, are given.
\<close>

abbreviation NL :: char where "NL \<equiv> CHR 0x0A"

subsection \<open>Reporting an event of a probe\<close>

datatype evt_sec_e = EVT_SEC_INFO | EVT_SEC_WARN | EVT_SEC_ERROR | EVT_SEC_FATAL

fun secs :: "evt_sec_e \<Rightarrow> int \<times> cstr" where
  "secs EVT_SEC_INFO = (9, ''INFO'')"
| "secs EVT_SEC_WARN = (13, ''WARN'')"
| "secs EVT_SEC_ERROR = (17, ''ERROR'')"
| "secs EVT_SEC_FATAL = (21, ''FATAL'')"

definition EVT_BODY_LEN :: nat where "EVT_BODY_LEN = 128"

definition get_local_time :: "nat \<Rightarrow> cstr \<Rightarrow> cstr" where
  "get_local_time buf_len asctime = fst (snprintf buf_len [] asctime)"

text \<open>Three outputs one after another into the same buffer.\<close>

definition event_body :: "cstr \<Rightarrow> cstr \<Rightarrow> evt_sec_e \<Rightarrow> cstr \<Rightarrow> cstr" where
  "event_body asctime entityId sec msg =
     (let b0 = get_local_time EVT_BODY_LEN asctime;
          b1 = b0 @ fst (snprintf (EVT_BODY_LEN - length b0) [] ('' '' @ snd (secs sec) @ '' Entity('' @ entityId @ '') ''))
      in b1 @ fst (snprintf (EVT_BODY_LEN - length b1) [] msg))"

definition report_logs :: "cstr \<Rightarrow> cstr \<Rightarrow> cstr \<Rightarrow> cstr \<Rightarrow> evt_sec_e \<Rightarrow> cstr \<Rightarrow> cstr" where
  "report_logs asctime tblName entityId metrics sec msg =
     ''|event|'' @ tblName @ ''|'' @ entityId @ ''|'' @ metrics @ ''|'' @ snd (secs sec) @ ''|''
     @ show_int (fst (secs sec)) @ ''|'' @ event_body asctime entityId sec msg @ ''|'' @ [NL]"

subsection \<open>The probe of the system log\<close>

definition LEN_BUF :: nat where "LEN_BUF = 64"
definition LEN_CMD :: nat where "LEN_CMD = 128"
definition LEN_LINE :: nat where "LEN_LINE = 1024"
definition TIME_INTERVAL :: u64 where "TIME_INTERVAL = 1000"
definition LOG_MESSAGES :: cstr where "LOG_MESSAGES = ''/var/log/messages''"
definition EVENT_LEVEL_ERROR :: cstr where "EVENT_LEVEL_ERROR = ''ERROR''"

text \<open>The two commands and their texts.\<close>

datatype shell = CountLines cstr | AbnormalLines u32 u32 cstr

definition shell_text :: "shell \<Rightarrow> cstr" where
  "shell_text c =
     (case c of
        CountLines file \<Rightarrow> ''/usr/bin/wc -l '' @ file @ '' | awk '' @ [CHR 0x27] @ ''{print $1}'' @ [CHR 0x27]
      | AbnormalLines a b file \<Rightarrow>
          ''/usr/bin/sed -n '' @ [CHR 0x27] @ show_nat (unat a) @ '','' @ show_nat (unat b) @ ''p'' @ [CHR 0x27] @ '' ''
          @ file @ '' |grep '' @ [CHR 0x27] @ ''code='' @ [CHR 0x5C] @ ''[[1-9][0-9]*'' @ [CHR 0x5C] @ '']'' @ [CHR 0x27])"

record event_data =
  ev_timestamp :: u64
  ev_level :: cstr
  ev_body :: cstr

definition PrintEventOutput :: "event_data \<Rightarrow> cstr" where
  "PrintEventOutput event =
     ''|event|'' @ show_nat (unat (ev_timestamp event)) @ ''|'' @ ev_level event @ ''|'' @ ev_body event @ ''|'' @ [NL]"

text \<open>The variable \<open>count\<close> is not initialised, \<open>count0\<close> is what it holds.\<close>

definition GetFileLineNum :: "(shell \<Rightarrow> cstr option) \<Rightarrow> cstr \<Rightarrow> int" where
  "GetFileLineNum popen count0 =
     (case popen (CountLines LOG_MESSAGES) of
        None \<Rightarrow> - 1
      | Some out \<Rightarrow> atoi (case fgets_chunks LEN_BUF out of [] \<Rightarrow> count0 | piece # _ \<Rightarrow> piece))"

definition MakeEvent :: "u64 \<Rightarrow> cstr \<Rightarrow> event_data c" where
  "MakeEvent now log =
     (if length log \<ge> MAX_DATA_STR_LEN then Inl OutOfBounds
      else Inr \<lparr>ev_timestamp = now * TIME_INTERVAL * TIME_INTERVAL * TIME_INTERVAL, ev_level = EVENT_LEVEL_ERROR, ev_body = log\<rparr>)"

text \<open>One round of the loop, with what \<open>line\<close> holds after \<open>fgets\<close>; \<open>None\<close> for an empty string.\<close>

definition line_event :: "u64 \<Rightarrow> cstr \<Rightarrow> event_data option c" where
  "line_event now line =
     (let s = c_string line in
      if length s > 0 then
        bindc (MakeEvent now (if last s = NL then butlast s else s)) (\<lambda>e. Inr (Some e))
      else Inr None)"

fun line_events :: "u64 \<Rightarrow> cstr list \<Rightarrow> event_data list c" where
  "line_events now [] = Inr []"
| "line_events now (l # ls) =
     bindc (line_event now l) (\<lambda>e. bindc (line_events now ls) (\<lambda>es. Inr ((case e of None \<Rightarrow> [] | Some x \<Rightarrow> [x]) @ es)))"

text \<open>
  The first call of \<open>fgets\<close> finds the end of the stream when there is no output, and leaves the variable
  \<open>line\<close> as it is, \<open>line0\<close>; the last call of the loop leaves it empty.
\<close>

definition stream_lines :: "cstr \<Rightarrow> cstr \<Rightarrow> cstr list" where
  "stream_lines line0 out = (case fgets_chunks LEN_LINE out of [] \<Rightarrow> [line0] | ls \<Rightarrow> ls)"

text \<open>The results: the next line number, the events, the return value.\<close>

definition FilterLogEvent ::
    "(shell \<Rightarrow> cstr option) \<Rightarrow> u64 \<Rightarrow> cstr \<Rightarrow> cstr \<Rightarrow> int \<Rightarrow> (int \<times> event_data list \<times> int) c" where
  "FilterLogEvent popen now count0 line0 g_nextLineNum =
     (let lineNum = GetFileLineNum popen count0 in
      if lineNum < 1 then Inr (g_nextLineNum, [], - 1)
      else
        (let g1 = (if g_nextLineNum = 0 then lineNum else g_nextLineNum) in
         if g1 - lineNum = 1 then Inr (g1, [], 0)
         else
           (let g2 = (if g1 - lineNum > 1 then 1 else g1) in
            case popen (AbnormalLines (word_of_int g2) (word_of_int lineNum) LOG_MESSAGES) of
              None \<Rightarrow> Inr (g2, [], - 1)
            | Some out \<Rightarrow> bindc (line_events now (stream_lines line0 out)) (\<lambda>es. Inr (lineNum + 1, es, 0)))))"

definition event_main ::
    "(shell \<Rightarrow> cstr option) \<Rightarrow> u64 \<Rightarrow> cstr \<Rightarrow> cstr \<Rightarrow> int \<Rightarrow> (int \<times> event_data list \<times> int) c" where
  "event_main popen now count0 line0 g =
     bindc (FilterLogEvent popen now count0 line0 g) (\<lambda>(g1, es, ret). Inr (g1, es, if ret \<noteq> 0 then - 1 else 0))"

text \<open>
  The call for each period: the log grows by some lines before every call, which has its time and finds something
  in the uninitialised \<open>line\<close>. The log does not grow between the two commands of a call.
\<close>

record log_tick =
  lt_now :: u64
  lt_line0 :: cstr
  lt_new :: "cstr list"

fun log_ticks ::
    "(cstr list \<Rightarrow> shell \<Rightarrow> cstr option) \<Rightarrow> cstr \<Rightarrow> cstr list \<Rightarrow> log_tick list \<Rightarrow> int \<Rightarrow> event_data list c" where
  "log_ticks sh count0 L [] g = Inr []"
| "log_ticks sh count0 L (t # ts) g =
     bindc (event_main (sh (L @ lt_new t)) (lt_now t) count0 (lt_line0 t) g) (\<lambda>(g1, es, ret).
       bindc (log_ticks sh count0 (L @ lt_new t) ts g1) (\<lambda>es1. Inr (es @ es1)))"

subsection \<open>A reported event on its way\<close>

text \<open>Parts of an event that fit into a line and do not end it.\<close>

definition part_ok :: "nat \<Rightarrow> cstr \<Rightarrow> bool" where
  "part_ok n s \<longleftrightarrow> length s \<le> n \<and> NL \<notin> set s \<and> CHR 0x00 \<notin> set s \<and> CHR ''|'' \<notin> set s"

definition event_line :: "cstr \<Rightarrow> cstr \<Rightarrow> cstr \<Rightarrow> cstr \<Rightarrow> evt_sec_e \<Rightarrow> cstr" where
  "event_line date tblName entityId metrics sec =
     ''|event|'' @ tblName @ ''|'' @ entityId @ ''|'' @ metrics @ ''|'' @ snd (secs sec) @ ''|'' @ show_int (fst (secs sec)) @ ''|'' @ date"

definition event_tail :: "cstr \<Rightarrow> cstr \<Rightarrow> evt_sec_e \<Rightarrow> cstr \<Rightarrow> cstr" where
  "event_tail date entityId sec msg = drop (length date + 1) (event_body (date @ [NL]) entityId sec msg) @ ''|''"

lemma sec_texts: "show_int (fst (secs sec)) \<in> {''9'', ''13'', ''17'', ''21''}" "snd (secs sec) \<in> {''INFO'', ''WARN'', ''ERROR'', ''FATAL''}"
  by (cases sec, simp_all add: show_int_def show_nat.simps digit_chars)+

lemma report_two_lines:
  assumes "length date \<le> 126"
  shows "report_logs (date @ [NL]) tbl ent mts sec msg = lines_text [event_line date tbl ent mts sec, event_tail date ent sec msg]"
proof -
  have "take 127 (date @ [NL]) = date @ [NL]" using assms by simp
  then have "event_body (date @ [NL]) ent sec msg
      = date @ [NL] @ drop (length date + 1) (event_body (date @ [NL]) ent sec msg)"
    by (simp add: event_body_def get_local_time_def snprintf_def EVT_BODY_LEN_def Let_def)
  then show ?thesis
    unfolding report_logs_def event_line_def event_tail_def lines_text_def by simp
qed

lemma event_tail_cases:
  assumes "length date \<le> 124" "NL \<notin> set ent" "CHR 0x00 \<notin> set ent" "NL \<notin> set msg" "CHR 0x00 \<notin> set msg"
  shows "line_ok (event_tail date ent sec msg)" "\<not> starts (\<lambda>ch. ch = CHR ''|'') (event_tail date ent sec msg)"
proof -
  define d where "d = '' '' @ snd (secs sec) @ '' Entity('' @ ent @ '') ''"
  define b where "b = take (126 - length date) d"
  have d: "NL \<notin> set d" "CHR 0x00 \<notin> set d" "d \<noteq> []" "hd d = CHR '' ''"
    using assms(2,3) sec_texts(2) [of sec] by (auto simp: d_def)
  have "event_body (date @ [NL]) ent sec msg = date @ [NL] @ b @ take (127 - (length date + 1 + length b)) msg"
    using assms(1) unfolding event_body_def d_def [symmetric] get_local_time_def
    by (auto simp: snprintf_def EVT_BODY_LEN_def Let_def b_def)
  then have t: "event_tail date ent sec msg = b @ take (126 - length date - length b) msg @ ''|''"
    by (simp add: event_tail_def)
  have "length b \<le> 126" by (simp add: b_def)
  moreover have "NL \<notin> set b" "CHR 0x00 \<notin> set b" using d by (auto simp: b_def dest: in_set_takeD)
  ultimately show "line_ok (event_tail date ent sec msg)"
    using assms(4,5) by (auto simp: t line_ok_def MAX_DATA_STR_LEN_def dest: in_set_takeD)
  have "b \<noteq> []" "hd b = CHR '' ''" using d assms(1) by (auto simp: b_def hd_take)
  then show "\<not> starts (\<lambda>ch. ch = CHR ''|'') (event_tail date ent sec msg)"
    by (cases b) (auto simp: t starts_def)
qed

lemma event_line_cases:
  assumes "part_ok 124 date" "part_ok 500 tbl" "part_ok 500 ent" "part_ok 500 mts"
  shows "line_ok (event_line date tbl ent mts sec)" "starts (\<lambda>ch. ch = CHR ''|'') (event_line date tbl ent mts sec)"
    "split_on (CHR ''|'') (event_line date tbl ent mts sec)
      = [[], ''event'', tbl, ent, mts, snd (secs sec), show_int (fst (secs sec)), date]"
proof -
  note t = sec_texts [of sec]
  show "line_ok (event_line date tbl ent mts sec)"
    using assms t by (auto simp: event_line_def line_ok_def part_ok_def MAX_DATA_STR_LEN_def)
  show "starts (\<lambda>ch. ch = CHR ''|'') (event_line date tbl ent mts sec)" by (simp add: event_line_def starts_def)
  have free: "CHR ''|'' \<notin> set (snd (secs sec))" "CHR ''|'' \<notin> set (show_int (fst (secs sec)))" using t by auto
  show "split_on (CHR ''|'') (event_line date tbl ent mts sec)
      = [[], ''event'', tbl, ent, mts, snd (secs sec), show_int (fst (secs sec)), date]"
    using assms free by (simp add: event_line_def part_ok_def str_simps)
qed

subsection \<open>The lines of the log\<close>

text \<open>
  What the shell commands print for a log \<open>L\<close> in which the lines \<open>abn\<close> tells are those \<open>grep\<close> selects: \<open>sed\<close> numbers the
  lines from 1 and prints from line \<open>a\<close> up to line \<open>b\<close>, and line \<open>a\<close> alone if \<open>b\<close> is before it.
\<close>

definition sed_lines :: "nat \<Rightarrow> nat \<Rightarrow> 'a list \<Rightarrow> 'a list" where
  "sed_lines a b L = take (max a b + 1 - a) (drop (a - 1) L)"

definition tools_ok :: "(cstr list \<Rightarrow> shell \<Rightarrow> cstr option) \<Rightarrow> (cstr \<Rightarrow> bool) \<Rightarrow> bool" where
  "tools_ok sh abn \<longleftrightarrow>
     (\<forall>L. sh L (CountLines LOG_MESSAGES) = Some (show_nat (length L) @ [NL])
        \<and> (\<forall>a b. 1 \<le> unat a \<longrightarrow> sh L (AbnormalLines a b LOG_MESSAGES)
              = Some (lines_text (filter abn (sed_lines (unat a) (unat b) L)))))"

definition log_line_ok :: "cstr \<Rightarrow> bool" where
  "log_line_ok l \<longleftrightarrow> NL \<notin> set l \<and> CHR 0x00 \<notin> set l \<and> length l < LEN_LINE - 1"

definition log_event :: "u64 \<Rightarrow> cstr \<Rightarrow> event_data" where
  "log_event now l = \<lparr>ev_timestamp = now * TIME_INTERVAL * TIME_INTERVAL * TIME_INTERVAL, ev_level = EVENT_LEVEL_ERROR, ev_body = l\<rparr>"

lemma log_chunks: "list_all log_line_ok ls \<Longrightarrow> fgets_chunks LEN_LINE (lines_text ls) = map (\<lambda>l. l @ [NL]) ls"
proof (induction ls)
  case (Cons l ls)
  then have "fgets_chunks LEN_LINE (l @ [NL] @ lines_text ls) = (l @ [NL]) # fgets_chunks LEN_LINE (lines_text ls)"
    by (intro fgets_line) (auto simp: log_line_ok_def)
  with Cons show ?case by (simp add: lines_text_def)
qed (simp add: lines_text_def fgets_chunks.simps)

lemma log_line_event: "log_line_ok l \<Longrightarrow> line_event now (l @ [NL]) = Inr (Some (log_event now l))"
proof -
  assume ok: "log_line_ok l"
  then have "c_string (l @ [NL]) = l @ [NL]" by (auto simp: c_string_def log_line_ok_def takeWhile_eq_all_conv)
  with ok show ?thesis
    by (simp add: line_event_def MakeEvent_def log_event_def log_line_ok_def LEN_LINE_def MAX_DATA_STR_LEN_def)
qed

lemma log_line_events: "list_all log_line_ok ls \<Longrightarrow> line_events now (map (\<lambda>l. l @ [NL]) ls) = Inr (map (log_event now) ls)"
  by (induction ls) (simp_all add: log_line_event)

text \<open>What a call reports for the lines \<open>ls\<close> that are selected: if there are none, what \<open>line\<close> held before.\<close>

definition bodies :: "cstr \<Rightarrow> cstr list \<Rightarrow> cstr list" where
  "bodies line0 ls =
     (if ls \<noteq> [] then ls
      else (let s = c_string line0 in if s = [] then [] else [if last s = NL then butlast s else s]))"

lemma stream_events:
  assumes "list_all log_line_ok ls" "length (c_string line0) < LEN_LINE"
  shows "line_events now (stream_lines line0 (lines_text ls)) = Inr (map (log_event now) (bodies line0 ls))"
proof (cases ls)
  case Nil
  with assms show ?thesis
    by (auto simp: stream_lines_def lines_text_def fgets_chunks.simps line_event_def bodies_def Let_def MakeEvent_def log_event_def
        LEN_LINE_def MAX_DATA_STR_LEN_def)
next
  case (Cons l ls')
  with assms show ?thesis
    using log_chunks [of ls] log_line_events [of ls now] by (simp add: stream_lines_def bodies_def)
qed

lemma atoi_line: assumes "n < 2 ^ 31" shows "atoi (show_nat n @ [NL]) = int n"
proof -
  obtain ch cs where s: "show_nat n = ch # cs" by (cases "show_nat n") auto
  with show_nat_digits [of n] have d: "is_digit ch" by auto
  have "takeWhile is_digit (show_nat n @ [NL]) = show_nat n"
    using show_nat_digits by (subst takeWhile_append2) (auto simp: is_digit_def)
  then have tw: "takeWhile is_digit (cs @ [NL]) = cs" "takeWhile is_digit cs = cs"
    using s d takeWhile_digits_show [of n] by simp_all
  have "strtol (show_nat n @ [NL]) = strtol (show_nat n)"
    using s d digit_not_space [OF d] digit_not_sign [OF d] by (simp add: strtol_def Let_def tw del: takeWhile_append)
  then show ?thesis using atoi_show_nat [OF assms] by (simp add: atoi_def)
qed

lemma line_count:
  assumes "tools_ok sh abn" "length L < 2 ^ 31"
  shows "GetFileLineNum (sh L) count0 = int (length L)"
proof -
  have "length (show_nat (length L)) \<le> 10" using assms(2) by (intro show_nat_length) simp_all
  moreover have "NL \<notin> set (show_nat (length L))" using show_nat_digits [of "length L"] by (auto simp: is_digit_def)
  ultimately have "fgets_chunks LEN_BUF (show_nat (length L) @ [NL] @ []) = (show_nat (length L) @ [NL]) # fgets_chunks LEN_BUF []"
    by (intro fgets_line) (simp_all add: LEN_BUF_def)
  then show ?thesis using assms atoi_line by (simp add: GetFileLineNum_def tools_ok_def)
qed

text \<open>One call, when the lines before the next line number have been read.\<close>

lemma filter_tick:
  assumes "tools_ok sh abn" "list_all log_line_ok L" "length L < 2 ^ 31 - 1" "1 \<le> g" "g \<le> length L + 1" "L \<noteq> []"
    and "length (c_string line0) < LEN_LINE"
  shows "FilterLogEvent (sh L) now count0 line0 (int g)
    = Inr (int (length L) + 1,
        map (log_event now) (if g = length L + 1 then [] else bodies line0 (filter abn (drop (g - 1) L))), 0)"
proof -
  have n: "GetFileLineNum (sh L) count0 = int (length L)" "1 \<le> length L"
    using assms line_count [OF assms(1)] by (auto simp: Suc_le_eq)
  show ?thesis
  proof (cases "g = length L + 1")
    case False
    let ?ls = "filter abn (drop (g - 1) L)"
    have "unat (of_nat g :: u32) = g" "unat (of_nat (length L) :: u32) = length L"
      using assms(3,5) by (simp_all add: unat_u32)
    then have "sh L (AbnormalLines (word_of_int (int g)) (word_of_int (int (length L))) LOG_MESSAGES) = Some (lines_text ?ls)"
      using assms(1,4,5) False by (simp add: tools_ok_def sed_lines_def max_def)
    moreover have "list_all log_line_ok ?ls" using assms(2) by (auto simp: list_all_iff dest: in_set_dropD)
    ultimately show ?thesis
      using False assms(4-7) n stream_events [of ?ls line0 now] by (simp add: FilterLogEvent_def Let_def)
  qed (use assms(4,6) n in \<open>simp add: FilterLogEvent_def Let_def\<close>)
qed

text \<open>The reports of the calls: none when the log has not grown.\<close>

definition tick_bodies :: "(cstr \<Rightarrow> bool) \<Rightarrow> log_tick \<Rightarrow> cstr list" where
  "tick_bodies abn t = (if lt_new t = [] then [] else bodies (lt_line0 t) (filter abn (lt_new t)))"

definition tick_ok :: "log_tick \<Rightarrow> bool" where
  "tick_ok t \<longleftrightarrow> list_all log_line_ok (lt_new t) \<and> length (c_string (lt_line0 t)) < LEN_LINE"

lemma log_ticks_run:
  assumes "tools_ok sh abn"
  shows "list_all log_line_ok L \<Longrightarrow> list_all tick_ok ts \<Longrightarrow> length (L @ concat (map lt_new ts)) < 2 ^ 31 - 1 \<Longrightarrow> L \<noteq> [] \<Longrightarrow>
    \<exists>es. log_ticks sh count0 L ts (int (length L) + 1) = Inr es \<and> map ev_body es = concat (map (tick_bodies abn) ts)
       \<and> list_all (\<lambda>e. ev_level e = EVENT_LEVEL_ERROR) es"
proof (induction ts arbitrary: L)
  case (Cons t ts)
  let ?L = "L @ lt_new t"
  have t: "list_all log_line_ok ?L" "length (c_string (lt_line0 t)) < LEN_LINE"
    using Cons.prems by (auto simp: tick_ok_def)
  have "FilterLogEvent (sh ?L) (lt_now t) count0 (lt_line0 t) (int (length L + 1))
      = Inr (int (length ?L) + 1, map (log_event (lt_now t)) (tick_bodies abn t), 0)"
    using Cons.prems t filter_tick [OF assms t(1) _ _ _ _ t(2), of "length L + 1" "lt_now t" count0]
    by (simp add: tick_bodies_def)
  moreover obtain es where "log_ticks sh count0 ?L ts (int (length ?L) + 1) = Inr es"
      "map ev_body es = concat (map (tick_bodies abn) ts)" "list_all (\<lambda>e. ev_level e = EVENT_LEVEL_ERROR) es"
    using Cons.IH [of ?L] Cons.prems t by auto
  ultimately show ?case by (auto simp: event_main_def log_event_def comp_def list_all_iff add.commute)
qed simp

subsection \<open>Properties\<close>

text \<open>C32: The text that \<open>report_logs\<close> prints has the newline of \<open>asctime\<close> in its last field. Read from the pipe of
  an extended probe it is two lines: the first is queued as an event whose body is the date
  alone, the second, with the severity, the entity and the message, is dropped.\<close>
theorem report_logs_loses_message:
  assumes "part_ok 24 date" "part_ok 500 tbl" "part_ok 500 ent" "part_ok 500 mts" "NL \<notin> set msg" "CHR 0x00 \<notin> set msg"
    and "fifo_wf (xp_fifo probe)" "0 < fifo_room (xp_fifo probe)" "mscript h = []"
    and "popen (ext_command probe) = replicate k PBad @ [PText (report_logs (date @ [NL]) tbl ent mts sec msg)]"
  shows "\<exists>fifo h' line. RunExtendProbe popen probe [] h = Some (Inr (fifo, NoStr, h', 0))
    \<and> fifo_content fifo = fifo_content (xp_fifo probe) @ [Some line]
    \<and> split_on (CHR ''|'') line = [[], ''event'', tbl, ent, mts, snd (secs sec), show_int (fst (secs sec)), date]"
proof -
  let ?ls = "[event_line date tbl ent mts sec, event_tail date ent sec msg]"
  have date: "part_ok 124 date" "length date \<le> 124" using assms(1) by (simp_all add: part_ok_def)
  note line = event_line_cases [OF date(1) assms(2-4), of sec]
  note tail = event_tail_cases [OF date(2) _ _ assms(5,6), of ent sec]
  have "list_all line_ok ?ls" "probe_lines ?ls = [event_line date tbl ent mts sec]"
    using line tail assms(3) by (simp_all add: part_ok_def probe_lines_def)
  then show ?thesis
    using RunExtendProbe_run [of ?ls probe h popen k] report_two_lines [of date tbl ent mts sec msg] assms(7-10) date line(3)
    by (auto simp: Suc_le_eq)
qed

theorem report_logs_loses_message_witness:
  "\<exists>fifo h'. RunExtendProbe (\<lambda>_. [PText (report_logs (''Tue Mar  1 12:00:00 2022'' @ [NL]) ''tcp'' ''1_2'' ''rtt'' EVT_SEC_WARN ''slow'')])
      example_ext [] heap0 = Some (Inr (fifo, NoStr, h', 0))
    \<and> (\<exists>line. fifo_content fifo = [Some line])"
  using report_logs_loses_message [of "''Tue Mar  1 12:00:00 2022''" "''tcp''" "''1_2''" "''rtt''" "''slow''" example_ext heap0
      "\<lambda>_. [PText (report_logs (''Tue Mar  1 12:00:00 2022'' @ [NL]) ''tcp'' ''1_2'' ''rtt'' EVT_SEC_WARN ''slow'')]" 0 EVT_SEC_WARN]
  by (auto simp: part_ok_def example_ext_def small_fifo_ok)

text \<open>C33: As the log grows, and never shrinks, the probe reports the lines that \<open>grep\<close> selects in order and each in
  the call that follows its arrival, from the line that was the last one at its first call on. A call for
  which the log has grown by lines of which none is selected reports instead what the uninitialised
  buffer \<open>line\<close> held before, unless that is an empty string: so the reports are exactly the selected lines only
  if the buffer happens to be empty at each of these calls. Lines are shorter than 1023 characters.\<close>
theorem log_lines_reported:
  assumes "tools_ok sh abn" "list_all log_line_ok L" "list_all tick_ok (t # ts)"
    and "length (L @ concat (map lt_new (t # ts))) < 2 ^ 31 - 1" "L @ lt_new t \<noteq> []"
  shows "\<exists>es. log_ticks sh count0 L (t # ts) 0 = Inr es
    \<and> map ev_body es = bodies (lt_line0 t) (filter abn [last (L @ lt_new t)]) @ concat (map (tick_bodies abn) ts)
    \<and> (list_all (\<lambda>t. c_string (lt_line0 t) = []) (t # ts) \<longrightarrow>
         map ev_body es = filter abn (last (L @ lt_new t) # concat (map lt_new ts)))
    \<and> list_all (\<lambda>e. ev_level e = EVENT_LEVEL_ERROR) es"
proof -
  let ?L = "L @ lt_new t"
  have n: "1 \<le> length ?L" using assms(5) by (simp add: Suc_le_eq)
  have t: "list_all log_line_ok ?L" "length (c_string (lt_line0 t)) < LEN_LINE" "length ?L < 2 ^ 31 - 1"
    using assms(2-4) by (auto simp: tick_ok_def)
  have "drop (length ?L - 1) ?L = [last ?L]"
    using assms(5) by (metis append_butlast_last_id append_eq_conv_conj length_butlast)
  then have "FilterLogEvent (sh ?L) (lt_now t) count0 (lt_line0 t) (int (length ?L))
      = Inr (int (length ?L) + 1, map (log_event (lt_now t)) (bodies (lt_line0 t) (filter abn [last ?L])), 0)"
    using assms(5) n t(3) filter_tick [OF assms(1) t(1) t(3) n _ assms(5) t(2), of "lt_now t" count0] by simp
  moreover have "FilterLogEvent (sh ?L) (lt_now t) count0 (lt_line0 t) 0
      = FilterLogEvent (sh ?L) (lt_now t) count0 (lt_line0 t) (int (length ?L))"
    using line_count [OF assms(1), of ?L count0] t(3) assms(5) by (simp add: FilterLogEvent_def Let_def)
  ultimately have first: "FilterLogEvent (sh ?L) (lt_now t) count0 (lt_line0 t) 0
      = Inr (int (length ?L) + 1, map (log_event (lt_now t)) (bodies (lt_line0 t) (filter abn [last ?L])), 0)" by (simp only:)
  obtain es where es: "log_ticks sh count0 ?L ts (int (length ?L) + 1) = Inr es"
      "map ev_body es = concat (map (tick_bodies abn) ts)" "list_all (\<lambda>e. ev_level e = EVENT_LEVEL_ERROR) es"
    using log_ticks_run [OF assms(1) t(1), of ts count0] assms(3-5) by auto
  have clean: "bodies l ls = ls" if "c_string l = []" for l ls using that by (simp add: bodies_def)
  have "concat (map (tick_bodies abn) ts) = filter abn (concat (map lt_new ts))"
    if "list_all (\<lambda>t. c_string (lt_line0 t) = []) ts"
    using that by (induction ts) (auto simp: tick_bodies_def clean)
  moreover have "list_all (\<lambda>e. ev_level e = EVENT_LEVEL_ERROR) (map (log_event now) ls)" "map ev_body (map (log_event now) ls) = ls"
    for now ls by (simp_all add: log_event_def list_all_iff comp_def)
  ultimately show ?thesis using first es by (auto simp: event_main_def clean simp del: map_map list.map)
qed

definition example_shell :: "cstr list \<Rightarrow> shell \<Rightarrow> cstr option" where
  "example_shell L c =
     (case c of
        CountLines f \<Rightarrow> Some (show_nat (length L) @ [NL])
      | AbnormalLines a b f \<Rightarrow> Some (lines_text (filter (\<lambda>l. take 1 l = ''x'') (sed_lines (unat a) (unat b) L))))"

text \<open>The second call finds the last line of the first one in the buffer and reports it.\<close>

theorem log_lines_reported_witness:
  "\<exists>es. log_ticks example_shell [] [''a'']
       [\<lparr>lt_now = 1, lt_line0 = [], lt_new = [''x1'']\<rparr>, \<lparr>lt_now = 2, lt_line0 = ''x1'', lt_new = [''b'']\<rparr>,
        \<lparr>lt_now = 3, lt_line0 = [], lt_new = [''x2'', ''x3'']\<rparr>, \<lparr>lt_now = 4, lt_line0 = ''x3'', lt_new = []\<rparr>] 0 = Inr es
     \<and> map ev_body es = [''x1'', ''x1'', ''x2'', ''x3'']"
proof -
  let ?t = "\<lparr>lt_now = 1, lt_line0 = [], lt_new = [''x1'']\<rparr>"
  let ?ts = "[\<lparr>lt_now = 2, lt_line0 = ''x1'', lt_new = [''b'']\<rparr>, \<lparr>lt_now = 3, lt_line0 = [], lt_new = [''x2'', ''x3'']\<rparr>,
      \<lparr>lt_now = 4, lt_line0 = ''x3'', lt_new = []\<rparr>]"
  have tools: "tools_ok example_shell (\<lambda>l. take 1 l = ''x'')" by (simp add: tools_ok_def example_shell_def)
  have "list_all log_line_ok [''a'']" "list_all tick_ok (?t # ?ts)"
    by (simp_all add: tick_ok_def log_line_ok_def LEN_LINE_def c_string_def)
  from log_lines_reported [OF tools this] show ?thesis
    by (fastforce simp: bodies_def tick_bodies_def c_string_def Let_def simp del: log_ticks.simps)
qed

end
