(* ===== verification/BpfMap.thy ===== *)
theory BpfMap
  imports Interfaces
begin

section \<open>The maps of the kernel probes\<close>

text \<open>
  A BPF hash map is the partial function that \<open>bpf_map_lookup_elem\<close> reads. Whether the kernel takes an
  update is its answer, a parameter of every model that updates a map. The locale states what bpf(2)
  documents of the answers: an entry that is present can always be written, and a map that holds
  \<open>max_entries\<close> entries refuses a new key. The parameters of a probed function wait for its return in a
  map of their own, \<open>__share_map_match.h\<close>.
\<close>

subsection \<open>Lookup, update and delete\<close>

type_synonym ('k, 'v) kernel_answer = "('k \<rightharpoonup> 'v) \<Rightarrow> 'k \<Rightarrow> int"

definition bpf_map_update_elem :: "('k, 'v) kernel_answer \<Rightarrow> ('k \<rightharpoonup> 'v) \<Rightarrow> 'k \<Rightarrow> 'v \<Rightarrow> ('k \<rightharpoonup> 'v) \<times> int" where
  "bpf_map_update_elem answer m k v = (if answer m k = 0 then (m(k \<mapsto> v), 0) else (m, answer m k))"

definition bpf_map_delete_elem :: "('k \<rightharpoonup> 'v) \<Rightarrow> 'k \<Rightarrow> ('k \<rightharpoonup> 'v) \<times> int" where
  "bpf_map_delete_elem m k = (case m k of None \<Rightarrow> (m, - 2) | Some _ \<Rightarrow> (m(k := None), 0))"

lemma delete_lookup [simp]: "fst (bpf_map_delete_elem m k) = m(k := None)"
  by (auto simp: bpf_map_delete_elem_def split: option.splits)

lemma update_cases:
  obtains (taken) "bpf_map_update_elem answer m k v = (m(k \<mapsto> v), 0)" "answer m k = 0"
    | (refused) r where "bpf_map_update_elem answer m k v = (m, r)" "r \<noteq> 0" "r = answer m k"
  by (cases "answer m k = 0") (auto simp: bpf_map_update_elem_def)

locale bpf_hash =
  fixes answer :: "('k, 'v) kernel_answer"
    and max_entries :: nat
  assumes answer_present: "m k = Some v \<Longrightarrow> answer m k = 0"
    and answer_full: "finite (dom m) \<Longrightarrow> card (dom m) = max_entries \<Longrightarrow> m k = None \<Longrightarrow> answer m k < 0"
begin

lemma update_present: "m k = Some v' \<Longrightarrow> bpf_map_update_elem answer m k v = (m(k \<mapsto> v), 0)"
  by (simp add: bpf_map_update_elem_def answer_present)

lemma update_full:
  "finite (dom m) \<Longrightarrow> card (dom m) = max_entries \<Longrightarrow> m k = None
     \<Longrightarrow> bpf_map_update_elem answer m k v = (m, answer m k) \<and> answer m k < 0"
  using answer_full [of m k] by (simp add: bpf_map_update_elem_def)

lemma update_bounded:
  assumes "finite (dom m)" "card (dom m) \<le> max_entries"
  shows "finite (dom (fst (bpf_map_update_elem answer m k v)))
     \<and> card (dom (fst (bpf_map_update_elem answer m k v))) \<le> max_entries"
proof (cases "m k")
  case None
  then have "k \<notin> dom m" by auto
  with None assms answer_full [of m k] show ?thesis
    by (cases "card (dom m) = max_entries") (auto simp: bpf_map_update_elem_def)
next
  case (Some v')
  with assms show ?thesis by (simp add: update_present insert_absorb domI)
qed

end

text \<open>The answers of a kernel that refuses a new key only when the map is full.\<close>

definition hash_answer :: "nat \<Rightarrow> ('k, 'v) kernel_answer" where
  "hash_answer n m k = (if m k = None \<and> n \<le> card (dom m) then - 7 else 0)"

interpretation kernel_map: bpf_hash "hash_answer n" n for n
  by unfold_locales (auto simp: hash_answer_def)

lemma hash_answer_small [simp]: "card (dom m) < n \<Longrightarrow> hash_answer n m k = 0"
  by (simp add: hash_answer_def)

subsection \<open>The parameters of a probed function\<close>

definition PROBE_MATCH_MAP_MAX_ENTRIES :: nat where "PROBE_MATCH_MAP_MAX_ENTRIES = 1000"

datatype ctx_caller_t = CTX_USER | CTX_KERNEL

type_synonym probe_key = "u32 \<times> u64"
type_synonym probe_val = "u64 list"
type_synonym match_map = "probe_key \<rightharpoonup> probe_val"

text \<open>The task and the processor the handler runs on, and the frame pointer.\<close>

definition get_probe_key :: "u32 \<Rightarrow> u32 \<Rightarrow> u64 \<Rightarrow> ctx_caller_t \<Rightarrow> probe_key" where
  "get_probe_key pid cpu bp caller_type = (if caller_type = CTX_USER \<and> pid \<noteq> 0 then pid else cpu, bp)"

definition get_probe_val :: "u64 \<Rightarrow> u64 \<Rightarrow> u64 \<Rightarrow> u64 \<Rightarrow> u64 \<Rightarrow> u64 \<Rightarrow> probe_val" where
  "get_probe_val p1 p2 p3 p4 p5 p6 = [p1, p2, p3, p4, p5, p6]"

definition do_push_match_map ::
  "(probe_key, probe_val) kernel_answer \<Rightarrow> probe_key \<Rightarrow> probe_val \<Rightarrow> match_map \<Rightarrow> match_map \<times> int" where
  "do_push_match_map answer key val m = bpf_map_update_elem answer m key val"

definition do_pop_match_map_entry :: "probe_key \<Rightarrow> match_map \<Rightarrow> match_map \<times> (int + probe_val)" where
  "do_pop_match_map_entry key m =
     (case m key of
        None \<Rightarrow> (m, Inl (- 1))
      | Some val \<Rightarrow>
          (let (m', ret) = bpf_map_delete_elem m key in (m', if ret \<ge> 0 then Inr val else Inl ret)))"

text \<open>A function that is entered and left on one processor gets back its own parameters.\<close>

lemma pop_after_push:
  assumes "do_push_match_map answer key val m = (m', 0)"
  shows "do_pop_match_map_entry key m' = (m(key := None), Inr val)"
  using assms
  by (auto simp: do_push_match_map_def do_pop_match_map_entry_def bpf_map_update_elem_def
        bpf_map_delete_elem_def split: if_splits)

lemma pop_other:
  assumes "do_push_match_map answer key' val' m = (m', r)" and "key \<noteq> key'"
  shows "snd (do_pop_match_map_entry key m') = snd (do_pop_match_map_entry key m)"
  using assms
  by (auto simp: do_push_match_map_def do_pop_match_map_entry_def bpf_map_update_elem_def
        bpf_map_delete_elem_def split: if_splits option.splits)

end
