(* ===== verification/TcpBpf.thy ===== *)
theory TcpBpf
  imports BpfMap
begin

section \<open>The handlers of the TCP probe in the kernel\<close>

text \<open>
  \<open>tcpprobe/tcpprobe.bpf.c\<close> and \<open>tcpprobe.h\<close>: the handlers that run when the kernel enters or leaves the
  functions of its TCP implementation. They keep the sockets they know (\<open>sock_map\<close>), the statistics of
  the links (\<open>tcp_link_map\<close>) and hand records over to the user program (\<open>output\<close>). The memory of the
  kernel, the clock, the task and the processor of a handler are given with every event; a handler is
  one step. The fields of a \<open>struct sock\<close> are those the handlers read, at their width in the kernel.
\<close>

subsection \<open>The data\<close>

definition LINK_ROLE_SERVER :: u32 where "LINK_ROLE_SERVER = 0"
definition LINK_ROLE_CLIENT :: u32 where "LINK_ROLE_CLIENT = 1"
definition TCP_FD_PER_PROC_MAX :: nat where "TCP_FD_PER_PROC_MAX = 10"
definition TCP_LINK_MAX :: nat where "TCP_LINK_MAX = 10 * 1024"
definition TCP_TUPLE_MAX :: nat where "TCP_TUPLE_MAX = 10 * 1024"
definition TCP_PERIOD :: u64 where "TCP_PERIOD = 30 * 1000000000"
definition AF_INET :: u16 where "AF_INET = 2"
definition USEC_PER_SEC :: u64 where "USEC_PER_SEC = 1000000"
definition HZ :: u64 where "HZ = 100"

text \<open>The states of a connection and the kinds of chronograph, enumerations of the kernel.\<close>

definition TCP_ESTABLISHED :: u16 where "TCP_ESTABLISHED = 1"
definition TCP_SYN_SENT :: u16 where "TCP_SYN_SENT = 2"
definition TCP_SYN_RECV :: u16 where "TCP_SYN_RECV = 3"
definition TCP_FIN_WAIT1 :: u16 where "TCP_FIN_WAIT1 = 4"
definition TCP_CLOSE :: u16 where "TCP_CLOSE = 7"
definition TCP_CLOSE_WAIT :: u16 where "TCP_CLOSE_WAIT = 8"
definition TCP_CHRONO_BUSY :: nat where "TCP_CHRONO_BUSY = 1"
definition TCP_CHRONO_RWND_LIMITED :: nat where "TCP_CHRONO_RWND_LIMITED = 2"
definition TCP_CHRONO_SNDBUF_LIMITED :: nat where "TCP_CHRONO_SNDBUF_LIMITED = 3"
definition TCP_CHRONO_MAX :: nat where "TCP_CHRONO_MAX = 4"

record tcp_fd_info =
  fds :: "u32 list"
  fd_role :: "u8 list"
  fd_cnt :: u32

record tcp_sock_info =
  i_role :: u32
  i_syn_srtt :: u32
  i_tgid :: u32

record tcp_health =
  total_retrans :: u32
  backlog_drops :: u32
  sk_drops :: u32
  lost_out :: u32
  sacked_out :: u32
  filter_drops :: u32
  tmout :: u32
  sndbuf_limit :: u32
  attempt_fails :: u32
  rmem_scheduls :: u32
  tcp_oom :: u32
  send_rsts :: u32
  receive_rsts :: u32
  sk_err :: u32
  sk_err_soft :: u32

record tcp_state =
  rx :: u64
  tx :: u64
  tcpi_rto :: u32
  tcpi_ato :: u32
  tcpi_srtt :: u32
  tcpi_snd_ssthresh :: u32
  tcpi_rcv_ssthresh :: u32
  tcpi_snd_cwnd :: u32
  tcpi_advmss :: u32
  tcpi_reordering :: u32
  tcpi_rcv_rtt :: u32
  tcpi_rcv_space :: u32
  tcpi_notsent_bytes :: u32
  tcpi_notack_bytes :: u32
  tcpi_snd_wnd :: u32
  tcpi_rcv_wnd :: u32
  tcpi_delivery_rate :: u64
  tcpi_busy_time :: u32
  tcpi_rwnd_limited :: u32
  tcpi_sndbuf_limited :: u32
  tcpi_pacing_rate :: u32
  tcpi_max_pacing_rate :: u32
  tcpi_sk_err_que_size :: u32
  tcpi_sk_rcv_que_size :: u32
  tcpi_sk_wri_que_size :: u32
  tcpi_sk_backlog_size :: u32
  tcpi_sk_omem_size :: u32
  tcpi_sk_forward_size :: u32
  tcpi_sk_wmem_size :: u32

text \<open>
  The two unions of the addresses are 16 bytes read as a little-endian number, so an IPv4 address
  stands in the low half-words of a union that is zero elsewhere.
\<close>

record tcp_link_s =
  l_tgid :: u32
  l_c_ip :: "128 word"
  l_s_ip :: "128 word"
  l_s_port :: u16
  l_c_port :: u16
  l_family :: u16
  l_c_flag :: u16
  l_role :: u32

record tcp_metrics_s =
  m_ts :: u64
  m_link :: tcp_link_s
  m_syn_srtt_last :: u32
  m_health :: tcp_health
  m_info :: tcp_state

record tcp_args_s =
  a_period :: u64
  a_cport_flag :: u32
  a_filter_by_task :: u32
  a_filter_by_tgid :: u32

definition zero_health :: tcp_health where
  "zero_health = \<lparr>total_retrans = 0, backlog_drops = 0, sk_drops = 0, lost_out = 0, sacked_out = 0,
     filter_drops = 0, tmout = 0, sndbuf_limit = 0, attempt_fails = 0, rmem_scheduls = 0, tcp_oom = 0,
     send_rsts = 0, receive_rsts = 0, sk_err = 0, sk_err_soft = 0\<rparr>"

definition zero_state :: tcp_state where
  "zero_state = \<lparr>rx = 0, tx = 0, tcpi_rto = 0, tcpi_ato = 0, tcpi_srtt = 0, tcpi_snd_ssthresh = 0,
     tcpi_rcv_ssthresh = 0, tcpi_snd_cwnd = 0, tcpi_advmss = 0, tcpi_reordering = 0, tcpi_rcv_rtt = 0,
     tcpi_rcv_space = 0, tcpi_notsent_bytes = 0, tcpi_notack_bytes = 0, tcpi_snd_wnd = 0,
     tcpi_rcv_wnd = 0, tcpi_delivery_rate = 0, tcpi_busy_time = 0, tcpi_rwnd_limited = 0,
     tcpi_sndbuf_limited = 0, tcpi_pacing_rate = 0, tcpi_max_pacing_rate = 0,
     tcpi_sk_err_que_size = 0, tcpi_sk_rcv_que_size = 0, tcpi_sk_wri_que_size = 0,
     tcpi_sk_backlog_size = 0, tcpi_sk_omem_size = 0, tcpi_sk_forward_size = 0, tcpi_sk_wmem_size = 0\<rparr>"

text \<open>
  What the kernel holds about a socket. The IPv6 addresses are read with \<open>bpf_probe_read_user\<close>:
  \<open>None\<close> is a read that fails and leaves zeros.
\<close>

record sock =
  sk_family :: u16
  sk_state :: u8
  sk_rcv_saddr :: u32
  sk_daddr :: u32
  sk_v6_rcv_saddr :: "128 word option"
  sk_v6_daddr :: "128 word option"
  sk_num :: u16
  sk_dport :: u16
  sk_drops_counter :: u32
  sk_pacing_rate :: u64
  sk_max_pacing_rate :: u64
  sk_error_queue_qlen :: u32
  sk_receive_queue_qlen :: u32
  sk_write_queue_qlen :: u32
  sk_backlog_len :: u32
  sk_omem_alloc :: u32
  sk_forward_alloc :: u32
  sk_wmem_alloc :: u32
  icsk_rto :: u32
  icsk_ack_ato :: u32
  srtt_us :: u32
  snd_ssthresh :: u32
  rcv_ssthresh :: u32
  snd_cwnd :: u32
  advmss :: u16
  reordering :: u32
  rcv_rtt_us :: u32
  rcvq_space :: u32
  write_seq :: u32
  snd_nxt :: u32
  snd_wnd :: u32
  snd_una :: u32
  rcv_wnd :: u32
  chrono_start :: u32
  chrono_stat :: "u32 list"
  chrono_type_byte :: u8
  rate_delivered :: u32
  rate_interval_us :: u32
  mss_cache :: u32
  tk_lost_out :: u32
  tk_sacked_out :: u32

text \<open>The open files of a task: the mode of the inode and, for a socket, its \<open>sock\<close>.\<close>

record kfile =
  f_mode :: u16
  f_sk :: u64

record task =
  max_fds :: u32
  fd_table :: "u32 \<Rightarrow> kfile option"

text \<open>What is given with an event; the clock is read at up to three places of a handler.\<close>

record kenv =
  ke_sock :: "u64 \<Rightarrow> sock"
  ke_task :: task
  ke_tgid :: u32
  ke_pid :: u32
  ke_cpu :: u32
  ke_t_create :: u64
  ke_t_busy :: u64
  ke_t_report :: u64
  ke_link_answer :: "(tcp_link_s, tcp_metrics_s) kernel_answer"
  ke_sock_answer :: "(u64, tcp_sock_info) kernel_answer"
  ke_match_answer :: "(probe_key, probe_val) kernel_answer"

record kstate =
  tcp_link_map :: "tcp_link_s \<rightharpoonup> tcp_metrics_s"
  sock_map :: "u64 \<rightharpoonup> tcp_sock_info"
  args_map :: "u32 \<rightharpoonup> tcp_args_s"
  tcp_fd_map :: "u32 \<rightharpoonup> tcp_fd_info"
  task_map :: "u32 \<rightharpoonup> unit"
  probe_match_map :: match_map
  k_output :: "tcp_metrics_s list"


subsection \<open>Sockets, arguments and keys\<close>

definition ntohs :: "u16 \<Rightarrow> u16" where
  "ntohs x = push_bit 8 x OR drop_bit 8 x"

text \<open>The macros \<open>max\<close> and \<open>min_zero\<close>.\<close>

definition max_of :: "'a::len word \<Rightarrow> 'a word \<Rightarrow> 'a word" where
  "max_of x y = (if x > y then x else y)"

definition min_zero :: "'a::len word \<Rightarrow> 'a word \<Rightarrow> 'a word" where
  "min_zero x y = (if x = 0 then y else if x < y then x else y)"

definition sock_get_by_fd :: "u32 \<Rightarrow> task \<Rightarrow> u64" where
  "sock_get_by_fd fd task =
     (if fd \<ge> max_fds task then 0
      else (case fd_table task fd of
              None \<Rightarrow> 0
            | Some f \<Rightarrow> if f_mode f AND 0xF000 \<noteq> 0xC000 then 0 else f_sk f))"

definition get_cport_flag :: "kstate \<Rightarrow> u16" where
  "get_cport_flag st = (case args_map st 0 of None \<Rightarrow> 0 | Some args \<Rightarrow> ucast (a_cport_flag args))"

definition is_task_exist :: "u32 \<Rightarrow> kstate \<Rightarrow> bool" where
  "is_task_exist pid st = (task_map st pid \<noteq> None)"

definition is_valid_tgid :: "u32 \<Rightarrow> kstate \<Rightarrow> bool" where
  "is_valid_tgid tgid st =
     (case args_map st 0 of
        None \<Rightarrow> True
      | Some args \<Rightarrow>
          if a_filter_by_task args \<noteq> 0 then is_task_exist tgid st
          else if a_filter_by_tgid args \<noteq> 0 then a_filter_by_tgid args = tgid
          else True)"

definition get_period :: "kstate \<Rightarrow> u64" where
  "get_period st = (case args_map st 0 of None \<Rightarrow> TCP_PERIOD | Some args \<Rightarrow> a_period args)"

definition zero_link :: tcp_link_s where
  "zero_link = \<lparr>l_tgid = 0, l_c_ip = 0, l_s_ip = 0, l_s_port = 0, l_c_port = 0, l_family = 0,
     l_c_flag = 0, l_role = 0\<rparr>"

text \<open>The address of one end: of an IPv4 socket, or what the read of 16 bytes gave.\<close>

definition end_addr :: "u16 \<Rightarrow> u32 \<Rightarrow> 128 word option \<Rightarrow> 128 word" where
  "end_addr family v4 v6 = (if family = AF_INET then ucast v4 else case v6 of None \<Rightarrow> 0 | Some a \<Rightarrow> a)"

definition fill_link :: "sock \<Rightarrow> u16 \<Rightarrow> tcp_sock_info \<Rightarrow> tcp_link_s" where
  "fill_link s flag info =
     (let rcv = end_addr (sk_family s) (sk_rcv_saddr s) (sk_v6_rcv_saddr s);
          peer = end_addr (sk_family s) (sk_daddr s) (sk_v6_daddr s);
          link = (if i_role info = LINK_ROLE_CLIENT
                  then zero_link\<lparr>l_c_ip := rcv, l_s_ip := peer, l_s_port := ntohs (sk_dport s),
                         l_c_port := (if flag = 1 then ntohs (sk_num s) else 0)\<rparr>
                  else zero_link\<lparr>l_s_ip := rcv, l_c_ip := peer, l_s_port := sk_num s,
                         l_c_port := (if flag = 1 then ntohs (sk_dport s) else 0)\<rparr>)
      in link\<lparr>l_c_flag := flag, l_family := sk_family s, l_role := i_role info, l_tgid := i_tgid info\<rparr>)"

text \<open>The key of a socket's link, with the \<open>syn_srtt\<close> of the socket; \<open>None\<close> is the return value -1.\<close>

definition get_tcp_link_key :: "kenv \<Rightarrow> u64 \<Rightarrow> kstate \<Rightarrow> (tcp_link_s \<times> u32) option" where
  "get_tcp_link_key env sk st =
     (if sk = 0 then None
      else (case sock_map st sk of
              None \<Rightarrow> None
            | Some info \<Rightarrow>
                if i_tgid info = 0 then None
                else if \<not> is_valid_tgid (i_tgid info) st then None
                else
                  Some (fill_link (ke_sock env sk) (get_cport_flag st) info, i_syn_srtt info)))"

subsection \<open>Links and their statistics\<close>

definition create_tcp_link :: "kenv \<Rightarrow> tcp_link_s \<Rightarrow> u32 \<Rightarrow> kstate \<Rightarrow> kstate \<times> int" where
  "create_tcp_link env link syn_srtt st =
     (let metrics = \<lparr>m_ts = ke_t_create env, m_link = link, m_syn_srtt_last = syn_srtt,
                     m_health = zero_health, m_info = zero_state\<rparr>;
          (m, ret) = bpf_map_update_elem (ke_link_answer env) (tcp_link_map st) link metrics
      in (st\<lparr>tcp_link_map := m\<rparr>, ret))"

text \<open>The flag of the key is tested before \<open>get_tcp_link_key\<close> sets it.\<close>

definition delete_tcp_link :: "kenv \<Rightarrow> u64 \<Rightarrow> kstate \<Rightarrow> kstate \<times> int" where
  "delete_tcp_link env sk st =
     (if l_c_flag zero_link = 0 then (st, 0)
      else (case get_tcp_link_key env sk st of
              None \<Rightarrow> (st, - 1)
            | Some (link, _) \<Rightarrow>
                (let (m, ret) = bpf_map_delete_elem (tcp_link_map st) link in (st\<lparr>tcp_link_map := m\<rparr>, ret))))"

text \<open>
  The entry of a socket's link, created when it is new. The pointer into the map is the key; the second
  component of the result says whether the entry is new.
\<close>

definition get_tcp_metrics :: "kenv \<Rightarrow> u64 \<Rightarrow> kstate \<Rightarrow> kstate \<times> (tcp_link_s \<times> bool) option" where
  "get_tcp_metrics env sk st =
     (case get_tcp_link_key env sk st of
        None \<Rightarrow> (st, None)
      | Some (link, syn_srtt) \<Rightarrow>
          (case tcp_link_map st link of
             Some metrics \<Rightarrow>
               ((if l_role link = LINK_ROLE_SERVER
                 then st\<lparr>tcp_link_map := (tcp_link_map st)(link \<mapsto> metrics\<lparr>m_syn_srtt_last := syn_srtt\<rparr>)\<rparr>
                 else st), Some (link, False))
           | None \<Rightarrow>
               (let (st', ret) = create_tcp_link env link syn_srtt st in
                if ret \<noteq> 0 then (st', None) else (st', Some (link, True)))))"

definition create_sock_obj :: "kenv \<Rightarrow> u32 \<Rightarrow> u64 \<Rightarrow> tcp_sock_info \<Rightarrow> kstate \<Rightarrow> kstate \<times> int" where
  "create_sock_obj env tgid sk info st =
     (let (m, ret) = bpf_map_update_elem (ke_sock_answer env) (sock_map st) sk (info\<lparr>i_tgid := tgid\<rparr>)
      in (st\<lparr>sock_map := m\<rparr>, ret))"

definition delete_sock_obj :: "u64 \<Rightarrow> kstate \<Rightarrow> kstate" where
  "delete_sock_obj sk st = st\<lparr>sock_map := fst (bpf_map_delete_elem (sock_map st) sk)\<rparr>"

text \<open>The field is written through the pointer the lookup returned, before the update.\<close>

definition update_sock_obj :: "kenv \<Rightarrow> u64 \<Rightarrow> u32 \<Rightarrow> kstate \<Rightarrow> kstate" where
  "update_sock_obj env sk tgid st =
     (case sock_map st sk of
        None \<Rightarrow> st
      | Some info \<Rightarrow>
          (let m = (sock_map st)(sk \<mapsto> info\<lparr>i_tgid := tgid\<rparr>) in
           st\<lparr>sock_map := fst (bpf_map_update_elem (ke_sock_answer env) m sk (info\<lparr>i_tgid := tgid\<rparr>))\<rparr>))"

text \<open>A function applied to the entry a pointer leads to.\<close>

definition on_metrics :: "tcp_link_s \<Rightarrow> (tcp_metrics_s \<Rightarrow> tcp_metrics_s) \<Rightarrow> kstate \<Rightarrow> kstate" where
  "on_metrics link f st = st\<lparr>tcp_link_map := (tcp_link_map st)(link := map_option f (tcp_link_map st link))\<rparr>"

definition perf_output :: "tcp_metrics_s \<Rightarrow> kstate \<Rightarrow> kstate" where
  "perf_output metrics st = st\<lparr>k_output := k_output st @ [metrics]\<rparr>"

definition report :: "kenv \<Rightarrow> tcp_link_s \<Rightarrow> bool \<Rightarrow> kstate \<Rightarrow> kstate" where
  "report env link new_entry st =
     (case tcp_link_map st link of
        None \<Rightarrow> st
      | Some metrics \<Rightarrow>
          (let ts = ke_t_report env; period = get_period st in
           if \<not> new_entry \<and> ts > m_ts metrics \<and> ts - m_ts metrics < period then st
           else
             (let metrics' = (if new_entry then metrics else metrics\<lparr>m_ts := ts\<rparr>) in
              on_metrics link (\<lambda>_. metrics'\<lparr>m_health := zero_health, m_info := zero_state\<rparr>)
                (perf_output metrics' st))))"

subsection \<open>The sockets that exist when the probe starts\<close>

definition load_fd :: "kenv \<Rightarrow> u32 \<Rightarrow> u32 \<Rightarrow> tcp_sock_info \<Rightarrow> kstate \<Rightarrow> kstate" where
  "load_fd env tgid fd info st =
     (if fd = 0 then st
      else
        (let sk = sock_get_by_fd fd (ke_task env) in
         if sk = 0 then st else fst (create_sock_obj env tgid sk info st)))"

definition load_tcp_fd :: "kenv \<Rightarrow> u32 \<Rightarrow> kstate \<Rightarrow> kstate" where
  "load_tcp_fd env tgid st =
     (case tcp_fd_map st tgid of
        None \<Rightarrow> st
      | Some tcp_fd_s \<Rightarrow>
          (let st' = foldl (\<lambda>s (fd, role).
                       load_fd env tgid fd \<lparr>i_role = ucast role, i_syn_srtt = 0, i_tgid = tgid\<rparr> s)
                     st (take TCP_FD_PER_PROC_MAX (zip (fds tcp_fd_s) (fd_role tcp_fd_s)))
           in st'\<lparr>tcp_fd_map := fst (bpf_map_delete_elem (tcp_fd_map st') tgid)\<rparr>))"

subsection \<open>What is read from the socket\<close>

definition get_tcp_wnd :: "sock \<Rightarrow> tcp_state \<Rightarrow> tcp_state" where
  "get_tcp_wnd s info =
     (let notsent = (if write_seq s > snd_nxt s
                     then max_of (write_seq s - snd_nxt s) (tcpi_notsent_bytes info)
                     else tcpi_notsent_bytes info);
          notack = (if snd_nxt s > snd_una s
                    then max_of (snd_nxt s - snd_una s) (tcpi_notack_bytes info)
                    else tcpi_notack_bytes info)
      in info\<lparr>tcpi_notsent_bytes := notsent, tcpi_notack_bytes := notack,
              tcpi_snd_wnd := min_zero (tcpi_snd_wnd info) (snd_wnd s),
              tcpi_rcv_wnd := min_zero (tcpi_rcv_wnd info) (rcv_wnd s)\<rparr>)"

text \<open>One round of the loop over the chronographs: the stored time, plus the running time when the
  index is the type that the mask leaves in its upper two bits, in microseconds.\<close>

definition chrono_round :: "sock \<Rightarrow> u64 \<Rightarrow> nat \<Rightarrow> u64" where
  "chrono_round s ms i =
     (let stored = ucast (chrono_stat s ! (i - 1));
          start = ucast (chrono_start s);
          running = (if of_nat i = (chrono_type_byte s AND 0xC0)
                     then (if ms > start then ms - start else 0) else 0)
      in (stored + running) * (USEC_PER_SEC div HZ))"

definition tcp_compute_busy_time :: "kenv \<Rightarrow> sock \<Rightarrow> tcp_state \<Rightarrow> tcp_state" where
  "tcp_compute_busy_time env s info =
     (let ms = drop_bit 6 (ke_t_busy env);
          stats = chrono_round s ms;
          total = foldl (\<lambda>total i. total + stats i) 0 [TCP_CHRONO_BUSY..<TCP_CHRONO_MAX]
      in info\<lparr>tcpi_busy_time := ucast total,
              tcpi_rwnd_limited := ucast (stats TCP_CHRONO_RWND_LIMITED),
              tcpi_sndbuf_limited := ucast (stats TCP_CHRONO_SNDBUF_LIMITED)\<rparr>)"

definition tcp_compute_delivery_rate :: "sock \<Rightarrow> tcp_state \<Rightarrow> tcp_state" where
  "tcp_compute_delivery_rate s info =
     (let rate64 = (if rate_delivered s \<noteq> 0 \<and> rate_interval_us s \<noteq> 0
                    then ucast (rate_delivered s) * ucast (mss_cache s) * USEC_PER_SEC else 0)
      in info\<lparr>tcpi_delivery_rate := min_zero (tcpi_delivery_rate info) rate64\<rparr>)"

definition jiffies_to_usecs :: "u64 \<Rightarrow> u32" where
  "jiffies_to_usecs j = ucast ((USEC_PER_SEC div HZ) * j)"

definition get_tcp_health :: "sock \<Rightarrow> tcp_health \<Rightarrow> tcp_health" where
  "get_tcp_health s health =
     health\<lparr>sk_drops := sk_drops_counter s,
            lost_out := max_of (lost_out health) (tk_lost_out s),
            sacked_out := max_of (sacked_out health) (tk_sacked_out s)\<rparr>"

text \<open>A pacing rate of all ones in its lower half is not taken over.\<close>

definition pacing :: "u64 \<Rightarrow> u32 \<Rightarrow> u32" where
  "pacing rate old = (let tmp = ucast rate in if tmp \<noteq> - 1 then min_zero old tmp else old)"

definition get_tcp_info :: "kenv \<Rightarrow> sock \<Rightarrow> tcp_state \<Rightarrow> tcp_state" where
  "get_tcp_info env s info =
     (let info1 = info
            \<lparr>tcpi_rto := max_of (tcpi_rto info) (jiffies_to_usecs (ucast (icsk_rto s))),
             tcpi_ato := max_of (tcpi_ato info) (jiffies_to_usecs (ucast (icsk_ack_ato s))),
             tcpi_srtt := max_of (tcpi_srtt info) (drop_bit 3 (srtt_us s)),
             tcpi_snd_ssthresh := min_zero (tcpi_snd_ssthresh info) (snd_ssthresh s),
             tcpi_rcv_ssthresh := min_zero (tcpi_rcv_ssthresh info) (rcv_ssthresh s),
             tcpi_snd_cwnd := min_zero (tcpi_snd_cwnd info) (snd_cwnd s),
             tcpi_advmss := max_of (tcpi_advmss info) (ucast (advmss s)),
             tcpi_reordering := max_of (tcpi_reordering info) (reordering s),
             tcpi_rcv_rtt := max_of (tcpi_rcv_rtt info) (drop_bit 3 (rcv_rtt_us s)),
             tcpi_rcv_space := min_zero (tcpi_rcv_space info) (rcvq_space s)\<rparr>;
          info2 = tcp_compute_busy_time env s (tcp_compute_delivery_rate s info1)
      in info2
            \<lparr>tcpi_pacing_rate := pacing (sk_pacing_rate s) (tcpi_pacing_rate info2),
             tcpi_max_pacing_rate := pacing (sk_max_pacing_rate s) (tcpi_max_pacing_rate info2),
             tcpi_sk_err_que_size := max_of (tcpi_sk_err_que_size info2) (sk_error_queue_qlen s),
             tcpi_sk_rcv_que_size := max_of (tcpi_sk_rcv_que_size info2) (sk_receive_queue_qlen s),
             tcpi_sk_wri_que_size := max_of (tcpi_sk_wri_que_size info2) (sk_write_queue_qlen s),
             tcpi_sk_backlog_size := max_of (tcpi_sk_backlog_size info2) (sk_backlog_len s),
             tcpi_sk_omem_size := max_of (tcpi_sk_omem_size info2) (sk_omem_alloc s),
             tcpi_sk_forward_size := max_of (tcpi_sk_forward_size info2) (sk_forward_alloc s),
             tcpi_sk_wmem_size := max_of (tcpi_sk_wmem_size info2) (sk_wmem_alloc s)\<rparr>)"

subsection \<open>The handlers\<close>

text \<open>
  All handlers of an event share this body: find or create the entry of the link, change it, report it.
\<close>

definition count ::
  "kenv \<Rightarrow> u64 \<Rightarrow> (tcp_metrics_s \<Rightarrow> tcp_metrics_s) \<Rightarrow> kstate \<Rightarrow> kstate" where
  "count env sk f st =
     (let (st', r) = get_tcp_metrics env sk st in
      case r of
        None \<Rightarrow> st'
      | Some (link, new_entry) \<Rightarrow> report env link new_entry (on_metrics link f st'))"

definition on_health :: "(tcp_health \<Rightarrow> tcp_health) \<Rightarrow> tcp_metrics_s \<Rightarrow> tcp_metrics_s" where
  "on_health f metrics = metrics\<lparr>m_health := f (m_health metrics)\<rparr>"

definition on_info :: "(tcp_state \<Rightarrow> tcp_state) \<Rightarrow> tcp_metrics_s \<Rightarrow> tcp_metrics_s" where
  "on_info f metrics = metrics\<lparr>m_info := f (m_info metrics)\<rparr>"

definition bpf_tcp_set_state :: "kenv \<Rightarrow> u64 \<Rightarrow> u16 \<Rightarrow> kstate \<Rightarrow> kstate" where
  "bpf_tcp_set_state env sk new_state st =
     (let s = ke_sock env sk;
          old_state = ucast (sk_state s);
          st1 = (if old_state = TCP_SYN_SENT \<and> new_state = TCP_ESTABLISHED
                 then fst (create_sock_obj env 0 sk \<lparr>i_role = LINK_ROLE_CLIENT, i_syn_srtt = 0, i_tgid = 0\<rparr> st)
                 else st);
          st2 = (if old_state = TCP_SYN_RECV \<and> new_state = TCP_ESTABLISHED
                 then fst (create_sock_obj env 0 sk
                        \<lparr>i_role = LINK_ROLE_SERVER, i_syn_srtt = drop_bit 3 (srtt_us s), i_tgid = 0\<rparr> st1)
                 else st1)
      in if new_state = TCP_CLOSE \<or> new_state = TCP_CLOSE_WAIT \<or> new_state = TCP_FIN_WAIT1
         then fst (delete_tcp_link env sk st2) else st2)"

definition bpf_raw_trace_tcp_destroy_sock :: "u64 \<Rightarrow> kstate \<Rightarrow> kstate" where
  "bpf_raw_trace_tcp_destroy_sock sk st = delete_sock_obj sk st"

definition read_all :: "kenv \<Rightarrow> u64 \<Rightarrow> tcp_metrics_s \<Rightarrow> tcp_metrics_s" where
  "read_all env sk metrics =
     on_info (get_tcp_wnd (ke_sock env sk))
       (on_health (get_tcp_health (ke_sock env sk))
         (on_info (get_tcp_info env (ke_sock env sk)) metrics))"

definition bpf_tcp_sendmsg :: "kenv \<Rightarrow> u64 \<Rightarrow> u64 \<Rightarrow> kstate \<Rightarrow> kstate" where
  "bpf_tcp_sendmsg env sk sz st =
     (let st1 = update_sock_obj env sk (ke_tgid env) (load_tcp_fd env (ke_tgid env) st) in
      count env sk (\<lambda>m. read_all env sk (on_info (\<lambda>i. i\<lparr>tx := tx i + sz\<rparr>) m)) st1)"

definition bpf_tcp_recvmsg :: "kenv \<Rightarrow> u64 \<Rightarrow> kstate \<Rightarrow> kstate" where
  "bpf_tcp_recvmsg env sk st =
     (let st1 = update_sock_obj env sk (ke_tgid env) (load_tcp_fd env (ke_tgid env) st) in
      count env sk (read_all env sk) st1)"

text \<open>\<open>KPROBE_RET\<close>: the handler of the entry stores the parameters, the one of the return takes them.\<close>

definition kprobe_entry :: "kenv \<Rightarrow> u64 \<Rightarrow> probe_val \<Rightarrow> kstate \<Rightarrow> kstate" where
  "kprobe_entry env fp val st =
     st\<lparr>probe_match_map := fst (do_push_match_map (ke_match_answer env)
          (get_probe_key (ke_pid env) (ke_cpu env) fp CTX_KERNEL) val (probe_match_map st))\<rparr>"

definition probe_get_parms :: "kenv \<Rightarrow> u64 \<Rightarrow> kstate \<Rightarrow> kstate \<times> (int + probe_val)" where
  "probe_get_parms env fp st =
     (let (m, r) = do_pop_match_map_entry (get_probe_key (ke_pid env) (ke_cpu env) fp CTX_KERNEL)
                     (probe_match_map st)
      in (st\<lparr>probe_match_map := m\<rparr>, r))"

text \<open>The returns that count an event when their result says so, with the first parameter as the socket.\<close>

definition kprobe_ret ::
  "bool \<Rightarrow> (tcp_metrics_s \<Rightarrow> tcp_metrics_s) \<Rightarrow> kenv \<Rightarrow> u64 \<Rightarrow> kstate \<Rightarrow> kstate" where
  "kprobe_ret counted f env fp st =
     (let (st', r) = probe_get_parms env fp st in
      case r of
        Inl _ \<Rightarrow> st'
      | Inr val \<Rightarrow> if counted then count env (val ! 0) f st' else st')"

definition ret_bpf_tcp_add_backlog :: "kenv \<Rightarrow> u64 \<Rightarrow> u64 \<Rightarrow> kstate \<Rightarrow> kstate" where
  "ret_bpf_tcp_add_backlog env fp rc =
     kprobe_ret (rc \<noteq> 0) (on_health (\<lambda>h. h\<lparr>backlog_drops := backlog_drops h + 1\<rparr>)) env fp"

definition ret_bpf_tcp_filter :: "kenv \<Rightarrow> u64 \<Rightarrow> u64 \<Rightarrow> kstate \<Rightarrow> kstate" where
  "ret_bpf_tcp_filter env fp rc =
     kprobe_ret (rc \<noteq> 0) (on_health (\<lambda>h. h\<lparr>filter_drops := filter_drops h + 1\<rparr>)) env fp"

definition bpf_tcp_write_err :: "kenv \<Rightarrow> u64 \<Rightarrow> kstate \<Rightarrow> kstate" where
  "bpf_tcp_write_err env sk = count env sk (on_health (\<lambda>h. h\<lparr>tmout := tmout h + 1\<rparr>))"

definition bpf_tcp_cleanup_rbuf :: "kenv \<Rightarrow> u64 \<Rightarrow> u32 \<Rightarrow> kstate \<Rightarrow> kstate" where
  "bpf_tcp_cleanup_rbuf env sk copied st =
     (if sint copied \<le> 0 then st
      else count env sk (on_info (\<lambda>i. i\<lparr>rx := rx i + scast copied\<rparr>)) st)"

definition bpf_raw_trace_sock_exceed_buf_limit :: "kenv \<Rightarrow> u64 \<Rightarrow> kstate \<Rightarrow> kstate" where
  "bpf_raw_trace_sock_exceed_buf_limit env sk =
     count env sk (on_health (\<lambda>h. h\<lparr>sndbuf_limit := sndbuf_limit h + 1\<rparr>))"

definition bpf_raw_trace_tcp_send_reset :: "kenv \<Rightarrow> u64 \<Rightarrow> kstate \<Rightarrow> kstate" where
  "bpf_raw_trace_tcp_send_reset env sk = count env sk (on_health (\<lambda>h. h\<lparr>send_rsts := send_rsts h + 1\<rparr>))"

definition bpf_raw_trace_tcp_receive_reset :: "kenv \<Rightarrow> u64 \<Rightarrow> kstate \<Rightarrow> kstate" where
  "bpf_raw_trace_tcp_receive_reset env sk =
     count env sk (on_health (\<lambda>h. h\<lparr>receive_rsts := receive_rsts h + 1\<rparr>))"

definition bpf_tcp_retransmit_skb :: "kenv \<Rightarrow> u64 \<Rightarrow> u32 \<Rightarrow> kstate \<Rightarrow> kstate" where
  "bpf_tcp_retransmit_skb env sk segs =
     count env sk (on_health (\<lambda>h. h\<lparr>total_retrans := total_retrans h + segs\<rparr>))"

definition bpf_tcp_done :: "kenv \<Rightarrow> u64 \<Rightarrow> kstate \<Rightarrow> kstate" where
  "bpf_tcp_done env sk st =
     (let state = ucast (sk_state (ke_sock env sk)) in
      if state = TCP_SYN_SENT \<or> state = TCP_SYN_RECV
      then count env sk (on_health (\<lambda>h. h\<lparr>attempt_fails := attempt_fails h + 1\<rparr>)) st else st)"

text \<open>A return value \<open>int\<close> is the lower half of the register; the others are tested as a whole.\<close>

definition ret_bpf_tcp_try_rmem_schedule :: "kenv \<Rightarrow> u64 \<Rightarrow> u64 \<Rightarrow> kstate \<Rightarrow> kstate" where
  "ret_bpf_tcp_try_rmem_schedule env fp rc =
     kprobe_ret ((ucast rc :: u32) \<noteq> 0) (on_health (\<lambda>h. h\<lparr>rmem_scheduls := rmem_scheduls h + 1\<rparr>)) env fp"

definition ret_bpf_tcp_check_oom :: "kenv \<Rightarrow> u64 \<Rightarrow> u64 \<Rightarrow> kstate \<Rightarrow> kstate" where
  "ret_bpf_tcp_check_oom env fp rc =
     kprobe_ret (rc \<noteq> 0) (on_health (\<lambda>h. h\<lparr>tcp_oom := tcp_oom h + 1\<rparr>)) env fp"

subsection \<open>Events\<close>

datatype kevent =
    SetState u64 u16
  | DestroySock u64
  | Sendmsg u64 u64
  | Recvmsg u64
  | KprobeEntry u64 probe_val
  | AddBacklogRet u64 u64
  | FilterRet u64 u64
  | WriteErr u64
  | CleanupRbuf u64 u32
  | ExceedBufLimit u64
  | SendReset u64
  | ReceiveReset u64
  | RetransmitSkb u64 u32
  | TcpDone u64
  | RmemScheduleRet u64 u64
  | CheckOomRet u64 u64
  | UserArgs tcp_args_s
  | UserFds u32 tcp_fd_info
  | UserTask u32 "unit option"

fun kstep :: "kenv \<Rightarrow> kevent \<Rightarrow> kstate \<Rightarrow> kstate" where
  "kstep env (SetState sk new_state) = bpf_tcp_set_state env sk new_state"
| "kstep env (DestroySock sk) = bpf_raw_trace_tcp_destroy_sock sk"
| "kstep env (Sendmsg sk sz) = bpf_tcp_sendmsg env sk sz"
| "kstep env (Recvmsg sk) = bpf_tcp_recvmsg env sk"
| "kstep env (KprobeEntry fp val) = kprobe_entry env fp val"
| "kstep env (AddBacklogRet fp rc) = ret_bpf_tcp_add_backlog env fp rc"
| "kstep env (FilterRet fp rc) = ret_bpf_tcp_filter env fp rc"
| "kstep env (WriteErr sk) = bpf_tcp_write_err env sk"
| "kstep env (CleanupRbuf sk copied) = bpf_tcp_cleanup_rbuf env sk copied"
| "kstep env (ExceedBufLimit sk) = bpf_raw_trace_sock_exceed_buf_limit env sk"
| "kstep env (SendReset sk) = bpf_raw_trace_tcp_send_reset env sk"
| "kstep env (ReceiveReset sk) = bpf_raw_trace_tcp_receive_reset env sk"
| "kstep env (RetransmitSkb sk segs) = bpf_tcp_retransmit_skb env sk segs"
| "kstep env (TcpDone sk) = bpf_tcp_done env sk"
| "kstep env (RmemScheduleRet fp rc) = ret_bpf_tcp_try_rmem_schedule env fp rc"
| "kstep env (CheckOomRet fp rc) = ret_bpf_tcp_check_oom env fp rc"
| "kstep env (UserArgs args) = (\<lambda>st. st\<lparr>args_map := (args_map st)(0 \<mapsto> args)\<rparr>)"
| "kstep env (UserFds tgid info) = (\<lambda>st. st\<lparr>tcp_fd_map := (tcp_fd_map st)(tgid \<mapsto> info)\<rparr>)"
| "kstep env (UserTask pid entry) = (\<lambda>st. st\<lparr>task_map := (task_map st)(pid := entry)\<rparr>)"

definition krun :: "(kenv \<times> kevent) list \<Rightarrow> kstate \<Rightarrow> kstate" where
  "krun evs st = foldl (\<lambda>s (env, ev). kstep env ev s) st evs"

text \<open>The state before the first event: the array of the arguments holds zeros.\<close>

definition kstate0 :: kstate where
  "kstate0 = \<lparr>tcp_link_map = (\<lambda>_. None), sock_map = (\<lambda>_. None),
     args_map = [0 \<mapsto> \<lparr>a_period = 0, a_cport_flag = 0, a_filter_by_task = 0, a_filter_by_tgid = 0\<rparr>],
     tcp_fd_map = (\<lambda>_. None), task_map = (\<lambda>_. None), probe_match_map = (\<lambda>_. None), k_output = []\<rparr>"

text \<open>The states that can be reached when the kernel answers as documented.\<close>

definition env_ok :: "kenv \<Rightarrow> bool" where
  "env_ok env \<longleftrightarrow> bpf_hash (ke_link_answer env) TCP_LINK_MAX"

inductive kreach :: "kstate \<Rightarrow> bool" where
  kreach_init: "kreach kstate0"
| kreach_step: "kreach st \<Longrightarrow> env_ok env \<Longrightarrow> kreach (kstep env ev st)"

lemma kreach_run: "kreach st \<Longrightarrow> \<forall>(env, ev) \<in> set evs. env_ok env \<Longrightarrow> kreach (krun evs st)"
  unfolding krun_def by (induction evs arbitrary: st) (auto intro: kreach_step)

end
