(* ===== verification/TcpLinks.thy ===== *)
theory TcpLinks
  imports TcpBpf
begin

section \<open>What the TCP handlers guarantee\<close>

text \<open>
  The properties of the handlers of \<open>tcpprobe.bpf.c\<close>: the state they keep is well formed, links are never
  removed, every counted event is reported once, records of a link are a period apart, and two readings
  of the socket that are not what they are meant to be.
\<close>

subsection \<open>The shape of a step\<close>

text \<open>
  Every handler prepares the state without touching the links and the output, and then counts an event
  of one socket or none: \<open>prepared\<close> is the first part, \<open>counted\<close> the socket and the change of its entry.
\<close>

definition start_send :: "kenv \<Rightarrow> u64 \<Rightarrow> kstate \<Rightarrow> kstate" where
  "start_send env sk st = update_sock_obj env sk (ke_tgid env) (load_tcp_fd env (ke_tgid env) st)"

fun prepared :: "kenv \<Rightarrow> kevent \<Rightarrow> kstate \<Rightarrow> kstate" where
  "prepared env (Sendmsg sk sz) st = start_send env sk st"
| "prepared env (Recvmsg sk) st = start_send env sk st"
| "prepared env (AddBacklogRet fp rc) st = fst (probe_get_parms env fp st)"
| "prepared env (FilterRet fp rc) st = fst (probe_get_parms env fp st)"
| "prepared env (RmemScheduleRet fp rc) st = fst (probe_get_parms env fp st)"
| "prepared env (CheckOomRet fp rc) st = fst (probe_get_parms env fp st)"
| "prepared env (SetState sk new_state) st = kstep env (SetState sk new_state) st"
| "prepared env (DestroySock sk) st = kstep env (DestroySock sk) st"
| "prepared env (KprobeEntry fp val) st = kstep env (KprobeEntry fp val) st"
| "prepared env (UserArgs args) st = kstep env (UserArgs args) st"
| "prepared env (UserFds tgid info) st = kstep env (UserFds tgid info) st"
| "prepared env (UserTask pid entry) st = kstep env (UserTask pid entry) st"
| "prepared env ev st = st"

definition ret_sock :: "bool \<Rightarrow> kenv \<Rightarrow> u64 \<Rightarrow> kstate \<Rightarrow> u64 option" where
  "ret_sock counted env fp st =
     (case snd (probe_get_parms env fp st) of Inl _ \<Rightarrow> None | Inr val \<Rightarrow> if counted then Some (val ! 0) else None)"

fun counted :: "kenv \<Rightarrow> kevent \<Rightarrow> kstate \<Rightarrow> u64 option" where
  "counted env (Sendmsg sk sz) st = Some sk"
| "counted env (Recvmsg sk) st = Some sk"
| "counted env (AddBacklogRet fp rc) st = ret_sock (rc \<noteq> 0) env fp st"
| "counted env (FilterRet fp rc) st = ret_sock (rc \<noteq> 0) env fp st"
| "counted env (WriteErr sk) st = Some sk"
| "counted env (CleanupRbuf sk copied) st = (if sint copied \<le> 0 then None else Some sk)"
| "counted env (ExceedBufLimit sk) st = Some sk"
| "counted env (SendReset sk) st = Some sk"
| "counted env (ReceiveReset sk) st = Some sk"
| "counted env (RetransmitSkb sk segs) st = Some sk"
| "counted env (TcpDone sk) st =
     (let state = ucast (sk_state (ke_sock env sk)) in
      if state = TCP_SYN_SENT \<or> state = TCP_SYN_RECV then Some sk else None)"
| "counted env (RmemScheduleRet fp rc) st = ret_sock ((ucast rc :: u32) \<noteq> 0) env fp st"
| "counted env (CheckOomRet fp rc) st = ret_sock (rc \<noteq> 0) env fp st"
| "counted env ev st = None"

fun change :: "kenv \<Rightarrow> kevent \<Rightarrow> tcp_metrics_s \<Rightarrow> tcp_metrics_s" where
  "change env (Sendmsg sk sz) = (\<lambda>m. read_all env sk (on_info (\<lambda>i. i\<lparr>tx := tx i + sz\<rparr>) m))"
| "change env (Recvmsg sk) = read_all env sk"
| "change env (AddBacklogRet fp rc) = on_health (\<lambda>h. h\<lparr>backlog_drops := backlog_drops h + 1\<rparr>)"
| "change env (FilterRet fp rc) = on_health (\<lambda>h. h\<lparr>filter_drops := filter_drops h + 1\<rparr>)"
| "change env (WriteErr sk) = on_health (\<lambda>h. h\<lparr>tmout := tmout h + 1\<rparr>)"
| "change env (CleanupRbuf sk copied) = on_info (\<lambda>i. i\<lparr>rx := rx i + scast copied\<rparr>)"
| "change env (ExceedBufLimit sk) = on_health (\<lambda>h. h\<lparr>sndbuf_limit := sndbuf_limit h + 1\<rparr>)"
| "change env (SendReset sk) = on_health (\<lambda>h. h\<lparr>send_rsts := send_rsts h + 1\<rparr>)"
| "change env (ReceiveReset sk) = on_health (\<lambda>h. h\<lparr>receive_rsts := receive_rsts h + 1\<rparr>)"
| "change env (RetransmitSkb sk segs) = on_health (\<lambda>h. h\<lparr>total_retrans := total_retrans h + segs\<rparr>)"
| "change env (TcpDone sk) = on_health (\<lambda>h. h\<lparr>attempt_fails := attempt_fails h + 1\<rparr>)"
| "change env (RmemScheduleRet fp rc) = on_health (\<lambda>h. h\<lparr>rmem_scheduls := rmem_scheduls h + 1\<rparr>)"
| "change env (CheckOomRet fp rc) = on_health (\<lambda>h. h\<lparr>tcp_oom := tcp_oom h + 1\<rparr>)"
| "change env ev = (\<lambda>m. m)"

lemmas handler_defs = bpf_tcp_sendmsg_def bpf_tcp_recvmsg_def start_send_def
  ret_bpf_tcp_add_backlog_def ret_bpf_tcp_filter_def bpf_tcp_write_err_def bpf_tcp_cleanup_rbuf_def
  bpf_raw_trace_sock_exceed_buf_limit_def bpf_raw_trace_tcp_send_reset_def
  bpf_raw_trace_tcp_receive_reset_def bpf_tcp_retransmit_skb_def bpf_tcp_done_def
  ret_bpf_tcp_try_rmem_schedule_def ret_bpf_tcp_check_oom_def

lemma kprobe_ret_shape:
  "kprobe_ret c f env fp st =
     (case ret_sock c env fp st of None \<Rightarrow> fst (probe_get_parms env fp st)
      | Some sk \<Rightarrow> count env sk f (fst (probe_get_parms env fp st)))"
  by (simp add: kprobe_ret_def ret_sock_def split: prod.splits sum.splits)

lemma kstep_shape:
  "kstep env ev st =
     (case counted env ev st of None \<Rightarrow> prepared env ev st
      | Some sk \<Rightarrow> count env sk (change env ev) (prepared env ev st))"
proof (cases ev)
  case (TcpDone sk)
  then show ?thesis by (simp add: handler_defs Let_def)
qed (simp_all add: handler_defs kprobe_ret_shape Let_def split: option.splits)

text \<open>The preparation leaves the links and the output alone.\<close>

lemma sock_obj_quiet [simp]:
  "tcp_link_map (fst (create_sock_obj env tgid sk info st)) = tcp_link_map st"
  "k_output (fst (create_sock_obj env tgid sk info st)) = k_output st"
  "tcp_link_map (update_sock_obj env sk tgid st) = tcp_link_map st"
  "k_output (update_sock_obj env sk tgid st) = k_output st"
  "tcp_link_map (load_fd env tgid fd info st) = tcp_link_map st"
  "k_output (load_fd env tgid fd info st) = k_output st"
  by (simp_all add: create_sock_obj_def update_sock_obj_def load_fd_def Let_def
        split: prod.splits option.splits)

lemma load_tcp_fd_quiet [simp]:
  "tcp_link_map (load_tcp_fd env tgid st) = tcp_link_map st"
  "k_output (load_tcp_fd env tgid st) = k_output st"
proof -
  have "tcp_link_map (foldl (\<lambda>s (fd, role). load_fd env tgid fd (g role) s) st xs) = tcp_link_map st"
    and "k_output (foldl (\<lambda>s (fd, role). load_fd env tgid fd (g role) s) st xs) = k_output st"
    for g :: "u8 \<Rightarrow> tcp_sock_info" and xs
    by (induction xs arbitrary: st) auto
  then show "tcp_link_map (load_tcp_fd env tgid st) = tcp_link_map st"
    and "k_output (load_tcp_fd env tgid st) = k_output st"
    by (simp_all add: load_tcp_fd_def Let_def split: option.splits)
qed

lemma prepared_quiet [simp]:
  "tcp_link_map (prepared env ev st) = tcp_link_map st"
  "k_output (prepared env ev st) = k_output st"
  by (cases ev; simp add: start_send_def probe_get_parms_def bpf_tcp_set_state_def delete_tcp_link_def
        zero_link_def bpf_raw_trace_tcp_destroy_sock_def delete_sock_obj_def kprobe_entry_def Let_def
        split: prod.splits)+

subsection \<open>Counting an event\<close>

definition fresh_metrics :: "kenv \<Rightarrow> tcp_link_s \<Rightarrow> u32 \<Rightarrow> tcp_metrics_s" where
  "fresh_metrics env link syn_srtt = \<lparr>m_ts = ke_t_create env, m_link = link, m_syn_srtt_last = syn_srtt,
     m_health = zero_health, m_info = zero_state\<rparr>"

text \<open>The entry an event of a socket changes, and whether it is new.\<close>

definition found :: "kenv \<Rightarrow> u64 \<Rightarrow> kstate \<Rightarrow> (tcp_link_s \<times> tcp_metrics_s \<times> bool) option" where
  "found env sk st =
     (case get_tcp_link_key env sk st of
        None \<Rightarrow> None
      | Some (link, syn_srtt) \<Rightarrow>
          (case tcp_link_map st link of
             Some m \<Rightarrow> Some (link, if l_role link = LINK_ROLE_SERVER then m\<lparr>m_syn_srtt_last := syn_srtt\<rparr> else m, False)
           | None \<Rightarrow> if ke_link_answer env (tcp_link_map st) link = 0
                     then Some (link, fresh_metrics env link syn_srtt, True) else None))"

text \<open>What \<open>report\<close> leaves in the entry and hands over.\<close>

definition settled :: "kenv \<Rightarrow> u64 \<Rightarrow> bool \<Rightarrow> tcp_metrics_s \<Rightarrow> tcp_metrics_s \<times> tcp_metrics_s list" where
  "settled env per new_entry m =
     (let ts = ke_t_report env in
      if \<not> new_entry \<and> ts > m_ts m \<and> ts - m_ts m < per then (m, [])
      else (let m' = (if new_entry then m else m\<lparr>m_ts := ts\<rparr>) in
            (m'\<lparr>m_health := zero_health, m_info := zero_state\<rparr>, [m'])))"

lemma count_found:
  "count env sk f st =
     (case found env sk st of
        None \<Rightarrow> st
      | Some (link, m, new_entry) \<Rightarrow>
          st\<lparr>tcp_link_map := (tcp_link_map st)(link \<mapsto> fst (settled env (get_period st) new_entry (f m))),
             k_output := k_output st @ snd (settled env (get_period st) new_entry (f m))\<rparr>)"
proof (cases "get_tcp_link_key env sk st")
  case None
  then show ?thesis by (simp add: count_def get_tcp_metrics_def found_def)
next
  case (Some k)
  obtain link srtt where k: "k = (link, srtt)" by (cases k)
  show ?thesis
  proof (cases "tcp_link_map st link")
    case None
    with Some k show ?thesis
      by (cases "ke_link_answer env (tcp_link_map st) link = 0")
        (simp_all add: count_def get_tcp_metrics_def found_def create_tcp_link_def bpf_map_update_elem_def
          fresh_metrics_def report_def on_metrics_def perf_output_def settled_def Let_def)
  next
    case m: (Some m)
    with Some k show ?thesis
      by (auto simp: count_def get_tcp_metrics_def found_def report_def on_metrics_def perf_output_def
            settled_def get_period_def Let_def fun_eq_iff)
  qed
qed

lemma found_cases:
  assumes "found env sk st = Some (link, m, new_entry)"
  obtains srtt where "get_tcp_link_key env sk st = Some (link, srtt)" "new_entry = (tcp_link_map st link = None)"
    "new_entry \<Longrightarrow> m = fresh_metrics env link srtt \<and> ke_link_answer env (tcp_link_map st) link = 0"
    "\<not> new_entry \<Longrightarrow> \<exists>m0. tcp_link_map st link = Some m0 \<and> (m = m0 \<or> m = m0\<lparr>m_syn_srtt_last := srtt\<rparr>)"
  using assms by (auto simp: found_def split: option.splits if_splits)

lemma change_keeps [simp]:
  "m_link (change env ev m) = m_link m"
  "m_ts (change env ev m) = m_ts m"
  "sk_err (m_health (change env ev m)) = sk_err (m_health m)"
  "sk_err_soft (m_health (change env ev m)) = sk_err_soft (m_health m)"
  by (cases ev; simp add: read_all_def on_health_def on_info_def get_tcp_health_def)+

lemma settled_cases:
  obtains (kept) "settled env per n m = (m, [])" "\<not> n" "m_ts m < ke_t_report env" "ke_t_report env - m_ts m < per"
    | (sent) m' where "settled env per n m = (m'\<lparr>m_health := zero_health, m_info := zero_state\<rparr>, [m'])"
        "m' = (if n then m else m\<lparr>m_ts := ke_t_report env\<rparr>)"
        "n \<or> \<not> m_ts m < ke_t_report env \<or> \<not> ke_t_report env - m_ts m < per"
proof (cases "\<not> n \<and> m_ts m < ke_t_report env \<and> ke_t_report env - m_ts m < per")
  case True
  then show ?thesis by (intro kept) (simp_all add: settled_def Let_def)
next
  case False
  then have "settled env per n m = ((if n then m else m\<lparr>m_ts := ke_t_report env\<rparr>)\<lparr>m_health := zero_health, m_info := zero_state\<rparr>,
      [if n then m else m\<lparr>m_ts := ke_t_report env\<rparr>])"
    by (simp only: settled_def Let_def if_False)
  then show ?thesis by (rule sent [OF _ refl]) (use False in blast)
qed

lemma settled_link [simp]:
  "m_link (fst (settled env per n m)) = m_link m"
  "m' \<in> set (snd (settled env per n m)) \<Longrightarrow> m_link m' = m_link m"
  by (cases rule: settled_cases [of env per n m]; auto)+

section \<open>The state is well formed\<close>

definition link_ok :: "tcp_link_s \<Rightarrow> bool" where
  "link_ok l \<longleftrightarrow> l_tgid l \<noteq> 0 \<and> (l_c_flag l \<noteq> 1 \<longrightarrow> l_c_port l = 0)
     \<and> (l_family l = AF_INET \<longrightarrow> uint (l_c_ip l) < 2 ^ 32 \<and> uint (l_s_ip l) < 2 ^ 32)"

definition no_sk_err :: "tcp_metrics_s \<Rightarrow> bool" where
  "no_sk_err m \<longleftrightarrow> sk_err (m_health m) = 0 \<and> sk_err_soft (m_health m) = 0"

definition kstate_ok :: "kstate \<Rightarrow> bool" where
  "kstate_ok st \<longleftrightarrow>
     finite (dom (tcp_link_map st)) \<and> card (dom (tcp_link_map st)) \<le> TCP_LINK_MAX
     \<and> (\<forall>l m. tcp_link_map st l = Some m \<longrightarrow> link_ok l \<and> m_link m = l \<and> no_sk_err m)
     \<and> (\<forall>m \<in> set (k_output st). m_link m \<in> dom (tcp_link_map st) \<and> no_sk_err m)"

lemma uint_ucast_128: "uint (ucast (w :: u32) :: 128 word) = uint w"
  by (rule uint_up_ucast) (simp only: is_up, simp)

lemma end_addr_v4: "uint (end_addr AF_INET a b) < 2 ^ 32"
  using uint_lt2p [of a] by (simp add: end_addr_def uint_ucast_128)

lemma fill_link_ok: "i_tgid info \<noteq> 0 \<Longrightarrow> link_ok (fill_link s flag info)"
  using end_addr_v4 by (simp add: fill_link_def link_ok_def zero_link_def Let_def)

lemma link_key_cases:
  assumes "get_tcp_link_key env sk st = Some (l, srtt)"
  obtains info where "sock_map st sk = Some info" "i_tgid info \<noteq> 0" "srtt = i_syn_srtt info"
    "l = fill_link (ke_sock env sk) (get_cport_flag st) info"
  using assms by (auto simp: get_tcp_link_key_def split: if_splits option.splits)

lemma link_key_ok: "get_tcp_link_key env sk st = Some (l, srtt) \<Longrightarrow> link_ok l"
  by (erule link_key_cases) (simp add: fill_link_ok)

lemma no_sk_err_zero [simp]: "no_sk_err (m\<lparr>m_health := zero_health\<rparr>)"
  by (simp add: no_sk_err_def zero_health_def)

lemma no_sk_err_settled:
  assumes "no_sk_err m"
  shows "no_sk_err (fst (settled env per n m))"
    and "m' \<in> set (snd (settled env per n m)) \<Longrightarrow> no_sk_err m'"
  using assms by (cases rule: settled_cases [of env per n m]; auto simp: no_sk_err_def zero_health_def)+

lemma found_ok:
  assumes "kstate_ok st" "tcp_link_map st' = tcp_link_map st" "found env sk st' = Some (l, m, new_entry)"
  shows "link_ok l \<and> m_link m = l \<and> no_sk_err m"
proof -
  from found_cases [OF assms(3)] obtain srtt where key: "get_tcp_link_key env sk st' = Some (l, srtt)"
    and m: "m = fresh_metrics env l srtt
      \<or> (\<exists>m0. tcp_link_map st l = Some m0 \<and> (m = m0 \<or> m = m0\<lparr>m_syn_srtt_last := srtt\<rparr>))"
    by (metis assms(2))
  from assms(1) have old: "tcp_link_map st l = Some m0 \<Longrightarrow> m_link m0 = l \<and> no_sk_err m0" for m0
    by (simp add: kstate_ok_def)
  from m have "m_link m = l \<and> no_sk_err m"
    using old by (auto simp: fresh_metrics_def no_sk_err_def zero_health_def)
  with link_key_ok [OF key] show ?thesis by simp
qed

lemma found_dom:
  assumes "env_ok env" "found env sk st = Some (l, m, new_entry)"
    "finite (dom (tcp_link_map st))" "card (dom (tcp_link_map st)) \<le> TCP_LINK_MAX"
  shows "card (insert l (dom (tcp_link_map st))) \<le> TCP_LINK_MAX"
    and "card (dom (tcp_link_map st)) = TCP_LINK_MAX \<Longrightarrow> l \<in> dom (tcp_link_map st)"
proof -
  note upd = bpf_hash.update_bounded [OF assms(1) [unfolded env_ok_def] assms(3,4), of l m]
  from found_cases [OF assms(2)]
  have *: "l \<in> dom (tcp_link_map st) \<or> ke_link_answer env (tcp_link_map st) l = 0" by blast
  show "card (insert l (dom (tcp_link_map st))) \<le> TCP_LINK_MAX"
  proof (cases "l \<in> dom (tcp_link_map st)")
    case True
    with assms(4) show ?thesis by (simp add: insert_absorb)
  next
    case False
    with * have "ke_link_answer env (tcp_link_map st) l = 0" by simp
    with upd show ?thesis by (simp add: bpf_map_update_elem_def)
  qed
  assume "card (dom (tcp_link_map st)) = TCP_LINK_MAX"
  with bpf_hash.answer_full [OF assms(1) [unfolded env_ok_def] assms(3), of l] *
  show "l \<in> dom (tcp_link_map st)" by (cases "tcp_link_map st l") auto
qed

lemma kstep_ok:
  assumes ok: "kstate_ok st" and env: "env_ok env"
  shows "kstate_ok (kstep env ev st)"
proof (cases "counted env ev st")
  case None
  then show ?thesis using ok by (simp add: kstep_shape kstate_ok_def)
next
  case (Some sk)
  let ?st = "prepared env ev st"
  show ?thesis
  proof (cases "found env sk ?st")
    case None
    then show ?thesis using Some ok by (simp add: kstep_shape count_found kstate_ok_def)
  next
    case (Some r)
    obtain l m n where r: "found env sk ?st = Some (l, m, n)" using Some by (cases r) auto
    let ?m = "change env ev m"
    have lm: "link_ok l" "m_link ?m = l" "no_sk_err ?m"
      using found_ok [OF ok _ r] by (simp_all add: no_sk_err_def)
    have card: "card (insert l (dom (tcp_link_map st))) \<le> TCP_LINK_MAX"
      using found_dom(1) [OF env r] ok by (simp add: kstate_ok_def)
    note s = no_sk_err_settled [OF lm(3)]
    show ?thesis
      using \<open>counted env ev st = Some sk\<close> r ok card lm s
      by (auto simp: kstep_shape count_found kstate_ok_def)
  qed
qed

text \<open>In every state that the handlers can reach, the map of the links has at most its 10240 entries, the
  statistics under a key name this key as their link, a key has the id of a process, no client port unless the
  arguments ask for it and 32 bits of address for IPv4; every record handed over belongs to an entry that is still there; and
  the two socket errors, which nothing ever sets, are 0.\<close>

theorem tcp_links_well_formed: "kreach st \<Longrightarrow> kstate_ok st"
proof (induction rule: kreach.induct)
  case kreach_init
  show ?case by (simp add: kstate_ok_def kstate0_def)
next
  case (kreach_step st env ev)
  then show ?case by (rule_tac kstep_ok)
qed

text \<open>One step, by the entry that the event changes.\<close>

definition step_found :: "kenv \<Rightarrow> kevent \<Rightarrow> kstate \<Rightarrow> (tcp_link_s \<times> tcp_metrics_s \<times> bool) option" where
  "step_found env ev st =
     (case counted env ev st of None \<Rightarrow> None | Some sk \<Rightarrow> found env sk (prepared env ev st))"

definition hits :: "kenv \<Rightarrow> kevent \<Rightarrow> kstate \<Rightarrow> tcp_link_s option" where
  "hits env ev st = map_option fst (step_found env ev st)"

lemma step_quiet:
  assumes "step_found env ev st = None"
  shows "tcp_link_map (kstep env ev st) = tcp_link_map st" "k_output (kstep env ev st) = k_output st"
  using assms by (simp_all add: step_found_def kstep_shape count_found split: option.splits)

lemma step_hit:
  assumes "step_found env ev st = Some (l, m, n)"
  defines "r \<equiv> settled env (get_period (prepared env ev st)) n (change env ev m)"
  shows "tcp_link_map (kstep env ev st) = (tcp_link_map st)(l \<mapsto> fst r)"
    "k_output (kstep env ev st) = k_output st @ snd r"
  using assms by (auto simp: step_found_def kstep_shape count_found split: option.splits)

lemma step_found_ok:
  assumes "kstate_ok st" "step_found env ev st = Some (l, m, n)"
  shows "link_ok l" "m_link m = l" "no_sk_err m" "n = (tcp_link_map st l = None)"
    "n \<Longrightarrow> \<exists>srtt. m = fresh_metrics env l srtt"
    "tcp_link_map st l = Some m0 \<Longrightarrow> \<exists>srtt. m = m0 \<or> m = m0\<lparr>m_syn_srtt_last := srtt\<rparr>"
proof -
  from assms(2) obtain sk where f: "found env sk (prepared env ev st) = Some (l, m, n)"
    by (auto simp: step_found_def split: option.splits)
  from found_ok [OF assms(1) _ f] show "link_ok l" "m_link m = l" "no_sk_err m" by simp_all
  from found_cases [OF f] show "n = (tcp_link_map st l = None)" by (metis prepared_quiet(1))
  from found_cases [OF f] show "n \<Longrightarrow> \<exists>srtt. m = fresh_metrics env l srtt" by metis
  from found_cases [OF f] show "tcp_link_map st l = Some m0 \<Longrightarrow> \<exists>srtt. m = m0 \<or> m = m0\<lparr>m_syn_srtt_last := srtt\<rparr>"
    by (metis option.discI option.inject prepared_quiet(1))
qed

lemma krun_simps [simp]: "krun [] st = st" "krun ((env, ev) # evs) st = krun evs (kstep env ev st)"
  by (simp_all add: krun_def)

section \<open>Links are never removed\<close>

lemma kstep_dom: "dom (tcp_link_map st) \<subseteq> dom (tcp_link_map (kstep env ev st))"
proof (cases "step_found env ev st")
  case (Some r)
  then show ?thesis by (cases r) (auto simp: step_hit)
qed (simp add: step_quiet)

lemma kstep_full:
  assumes ok: "kstate_ok st" and env: "env_ok env" and full: "card (dom (tcp_link_map st)) = TCP_LINK_MAX"
  shows "dom (tcp_link_map (kstep env ev st)) = dom (tcp_link_map st)"
    and "\<exists>out. k_output (kstep env ev st) = k_output st @ out \<and> m_link ` set out \<subseteq> dom (tcp_link_map st)"
proof -
  have "dom (tcp_link_map (kstep env ev st)) = dom (tcp_link_map st)
      \<and> (\<exists>out. k_output (kstep env ev st) = k_output st @ out \<and> m_link ` set out \<subseteq> dom (tcp_link_map st))"
  proof (cases "step_found env ev st")
    case (Some r)
    obtain l m n where r: "step_found env ev st = Some (l, m, n)" using Some by (cases r) auto
    then obtain sk where f: "found env sk (prepared env ev st) = Some (l, m, n)"
      by (auto simp: step_found_def split: option.splits)
    have l: "l \<in> dom (tcp_link_map st)"
      using found_dom(2) [OF env f] ok full by (simp add: kstate_ok_def)
    with step_found_ok(2) [OF ok r] show ?thesis
      by (auto simp: step_hit [OF r] insert_absorb dest!: settled_link(2))
  qed (simp add: step_quiet)
  then show "dom (tcp_link_map (kstep env ev st)) = dom (tcp_link_map st)"
    and "\<exists>out. k_output (kstep env ev st) = k_output st @ out \<and> m_link ` set out \<subseteq> dom (tcp_link_map st)"
    by simp_all
qed

lemma krun_ok: "kstate_ok st \<Longrightarrow> \<forall>(env, ev) \<in> set evs. env_ok env \<Longrightarrow> kstate_ok (krun evs st)"
  by (induction evs arbitrary: st) (auto simp: kstep_ok)

lemma krun_dom: "dom (tcp_link_map st) \<subseteq> dom (tcp_link_map (krun evs st))"
proof (induction evs arbitrary: st)
  case (Cons e evs)
  then show ?case using kstep_dom by (cases e) fastforce
qed simp

lemma krun_full:
  assumes "kstate_ok st" "card (dom (tcp_link_map st)) = TCP_LINK_MAX" "\<forall>(env, ev) \<in> set evs. env_ok env"
  shows "dom (tcp_link_map (krun evs st)) = dom (tcp_link_map st)
    \<and> (\<exists>out. k_output (krun evs st) = k_output st @ out \<and> m_link ` set out \<subseteq> dom (tcp_link_map st))"
  using assms
proof (induction evs arbitrary: st)
  case (Cons e evs)
  obtain env ev where e: "e = (env, ev)" by (cases e)
  with Cons.prems have env: "env_ok env" by auto
  note full = kstep_full [OF Cons.prems(1) env Cons.prems(2)]
  let ?st = "kstep env ev st"
  have "dom (tcp_link_map (krun evs ?st)) = dom (tcp_link_map ?st)
      \<and> (\<exists>out. k_output (krun evs ?st) = k_output ?st @ out \<and> m_link ` set out \<subseteq> dom (tcp_link_map ?st))"
    by (rule Cons.IH) (use kstep_ok [OF Cons.prems(1) env] full(1) Cons.prems(2,3) in auto)
  then obtain out where out: "k_output (krun evs ?st) = k_output ?st @ out" "m_link ` set out \<subseteq> dom (tcp_link_map st)"
    and d: "dom (tcp_link_map (krun evs ?st)) = dom (tcp_link_map st)" using full(1) by auto
  from full(2) obtain out0 where "k_output ?st = k_output st @ out0" "m_link ` set out0 \<subseteq> dom (tcp_link_map st)"
    by blast
  with out have "k_output (krun (e # evs) st) = k_output st @ (out0 @ out)"
    "m_link ` set (out0 @ out) \<subseteq> dom (tcp_link_map st)" by (simp_all add: e image_Un)
  with d show ?case by (auto simp: e)
qed auto

text \<open>C36: The state changes of a socket never remove its link, because \<open>delete_tcp_link\<close> tests a flag of the key before
  the key is filled in: whichever handlers run, one after another, the map only grows. Once it holds its 10240 links it is frozen, and
  from then on no connection of another link is ever reported.\<close>

theorem tcp_links_never_removed:
  assumes "kstate_ok st" and "\<forall>(env, ev) \<in> set evs. env_ok env"
  shows "dom (tcp_link_map st) \<subseteq> dom (tcp_link_map (krun evs st))
    \<and> (card (dom (tcp_link_map st)) = TCP_LINK_MAX \<longrightarrow>
         dom (tcp_link_map (krun evs st)) = dom (tcp_link_map st)
         \<and> (\<exists>out. k_output (krun evs st) = k_output st @ out \<and> m_link ` set out \<subseteq> dom (tcp_link_map st)))"
  using krun_dom [of st evs] krun_full [OF assms(1) _ assms(2)] by simp

section \<open>The counters\<close>

text \<open>What the records of a link and its entry hold together.\<close>

definition total_of :: "(tcp_metrics_s \<Rightarrow> 'a::comm_monoid_add) \<Rightarrow> tcp_link_s \<Rightarrow> kstate \<Rightarrow> 'a" where
  "total_of v l st =
     sum_list (map v (filter (\<lambda>m. m_link m = l) (k_output st)))
     + (case tcp_link_map st l of None \<Rightarrow> 0 | Some m \<Rightarrow> v m)"

datatype health_counter =
    Retrans | BacklogDrops | FilterDrops | Tmout | SndbufLimit | AttemptFails | RmemScheduls | TcpOom
  | SendRsts | ReceiveRsts

fun health_value :: "health_counter \<Rightarrow> tcp_health \<Rightarrow> u32" where
  "health_value Retrans h = total_retrans h"
| "health_value BacklogDrops h = backlog_drops h"
| "health_value FilterDrops h = filter_drops h"
| "health_value Tmout h = tmout h"
| "health_value SndbufLimit h = sndbuf_limit h"
| "health_value AttemptFails h = attempt_fails h"
| "health_value RmemScheduls h = rmem_scheduls h"
| "health_value TcpOom h = tcp_oom h"
| "health_value SendRsts h = send_rsts h"
| "health_value ReceiveRsts h = receive_rsts h"

text \<open>By how much an event raises a counter of the link it hits.\<close>

fun health_amount :: "health_counter \<Rightarrow> kevent \<Rightarrow> u32" where
  "health_amount c (RetransmitSkb sk segs) = (if c = Retrans then segs else 0)"
| "health_amount c (AddBacklogRet fp rc) = (if c = BacklogDrops then 1 else 0)"
| "health_amount c (FilterRet fp rc) = (if c = FilterDrops then 1 else 0)"
| "health_amount c (WriteErr sk) = (if c = Tmout then 1 else 0)"
| "health_amount c (ExceedBufLimit sk) = (if c = SndbufLimit then 1 else 0)"
| "health_amount c (TcpDone sk) = (if c = AttemptFails then 1 else 0)"
| "health_amount c (RmemScheduleRet fp rc) = (if c = RmemScheduls then 1 else 0)"
| "health_amount c (CheckOomRet fp rc) = (if c = TcpOom then 1 else 0)"
| "health_amount c (SendReset sk) = (if c = SendRsts then 1 else 0)"
| "health_amount c (ReceiveReset sk) = (if c = ReceiveRsts then 1 else 0)"
| "health_amount c ev = 0"

fun rx_amount :: "kevent \<Rightarrow> u64" where
  "rx_amount (CleanupRbuf sk copied) = scast copied"
| "rx_amount ev = 0"

fun tx_amount :: "kevent \<Rightarrow> u64" where
  "tx_amount (Sendmsg sk sz) = sz"
| "tx_amount ev = 0"

fun run_amount :: "(kevent \<Rightarrow> 'a::comm_monoid_add) \<Rightarrow> tcp_link_s \<Rightarrow> (kenv \<times> kevent) list \<Rightarrow> kstate \<Rightarrow> 'a" where
  "run_amount d l [] st = 0"
| "run_amount d l ((env, ev) # evs) st =
     (if hits env ev st = Some l then d ev else 0) + run_amount d l evs (kstep env ev st)"

lemma change_rx: "rx (m_info (change env ev m)) = rx (m_info m) + rx_amount ev"
  by (cases ev; simp add: read_all_def on_health_def on_info_def get_tcp_info_def get_tcp_wnd_def
        tcp_compute_busy_time_def tcp_compute_delivery_rate_def Let_def)

lemma change_tx: "tx (m_info (change env ev m)) = tx (m_info m) + tx_amount ev"
  by (cases ev; simp add: read_all_def on_health_def on_info_def get_tcp_info_def get_tcp_wnd_def
        tcp_compute_busy_time_def tcp_compute_delivery_rate_def Let_def)

lemma change_health:
  "health_value c (m_health (change env ev m)) = health_value c (m_health m) + health_amount c ev"
  by (cases c; cases ev; simp add: read_all_def on_health_def on_info_def get_tcp_health_def)

text \<open>
  A value that every event changes by its amount, that a report leaves in the record and clears in the
  entry, and that a new entry starts at zero.
\<close>

definition additive :: "(tcp_metrics_s \<Rightarrow> 'a::comm_monoid_add) \<Rightarrow> (kevent \<Rightarrow> 'a) \<Rightarrow> bool" where
  "additive v d \<longleftrightarrow>
     (\<forall>env ev m. v (change env ev m) = v m + d ev)
     \<and> (\<forall>m. v (m\<lparr>m_health := zero_health, m_info := zero_state\<rparr>) = 0)
     \<and> (\<forall>m ts. v (m\<lparr>m_ts := ts\<rparr>) = v m) \<and> (\<forall>m srtt. v (m\<lparr>m_syn_srtt_last := srtt\<rparr>) = v m)
     \<and> (\<forall>env l srtt. v (fresh_metrics env l srtt) = 0)"

lemma additive_counters:
  "additive (\<lambda>m. rx (m_info m)) rx_amount"
  "additive (\<lambda>m. tx (m_info m)) tx_amount"
  "additive (\<lambda>m. health_value c (m_health m)) (health_amount c)"
  by (simp_all add: additive_def change_rx change_tx change_health fresh_metrics_def zero_state_def zero_health_def)
    (cases c; simp)

lemma total_step:
  assumes ok: "kstate_ok st" and v: "additive v d"
  shows "total_of v l (kstep env ev st) = total_of v l st + (if hits env ev st = Some l then d ev else 0)"
proof (cases "step_found env ev st")
  case None
  then show ?thesis by (simp add: total_of_def step_quiet hits_def)
next
  case (Some r)
  obtain l' m n where r: "step_found env ev st = Some (l', m, n)" using Some by (cases r) auto
  let ?m = "change env ev m"
  have lm: "m_link ?m = l'" and vm: "v ?m = v m + d ev"
    using step_found_ok(2) [OF ok r] v by (simp_all add: additive_def)
  have old: "(case tcp_link_map st l' of None \<Rightarrow> 0 | Some m0 \<Rightarrow> v m0) = v m"
  proof (cases "tcp_link_map st l'")
    case None
    then obtain srtt where "m = fresh_metrics env l' srtt" using step_found_ok(4,5) [OF ok r] by auto
    with None v show ?thesis by (simp add: additive_def)
  next
    case (Some m0)
    with step_found_ok(6) [OF ok r Some] v show ?thesis by (auto simp: additive_def)
  qed
  show ?thesis
    by (cases rule: settled_cases [of env "get_period (prepared env ev st)" n ?m])
      (use v vm lm old in \<open>auto simp: total_of_def step_hit [OF r] hits_def r additive_def ac_simps\<close>)
qed

lemma total_run:
  assumes "additive v d"
  shows "kstate_ok st \<Longrightarrow> \<forall>(env, ev) \<in> set evs. env_ok env
     \<Longrightarrow> total_of v l (krun evs st) = total_of v l st + run_amount d l evs st"
proof (induction evs arbitrary: st)
  case (Cons e evs)
  obtain env ev where e: "e = (env, ev)" by (cases e)
  with Cons.prems have env: "env_ok env" by auto
  have "total_of v l (krun evs (kstep env ev st))
      = total_of v l (kstep env ev st) + run_amount d l evs (kstep env ev st)"
    by (rule Cons.IH) (use kstep_ok [OF Cons.prems(1) env] Cons.prems(2) in auto)
  then show ?case by (simp add: e total_step [OF Cons.prems(1) assms] ac_simps)
qed simp

text \<open>C35: Nothing is counted twice and nothing is lost by handlers that run one after another: for every link, the bytes sent, the bytes received and each of
  the ten counters of its health, summed over the records handed over and what its entry still holds, are what
  they were plus what the events of the link contributed, modulo the width of the counter.\<close>

theorem tcp_counters_exact:
  assumes "kstate_ok st" and "\<forall>(env, ev) \<in> set evs. env_ok env"
  shows "total_of (\<lambda>m. rx (m_info m)) l (krun evs st)
           = total_of (\<lambda>m. rx (m_info m)) l st + run_amount rx_amount l evs st
       \<and> total_of (\<lambda>m. tx (m_info m)) l (krun evs st)
           = total_of (\<lambda>m. tx (m_info m)) l st + run_amount tx_amount l evs st
       \<and> total_of (\<lambda>m. health_value c (m_health m)) l (krun evs st)
           = total_of (\<lambda>m. health_value c (m_health m)) l st + run_amount (health_amount c) l evs st"
  using additive_counters assms by (simp add: total_run)

section \<open>The period\<close>

definition link_times :: "tcp_link_s \<Rightarrow> kstate \<Rightarrow> u64 list" where
  "link_times l st = map m_ts (filter (\<lambda>m. m_link m = l) (k_output st))"

definition apart :: "u64 \<Rightarrow> u64 list \<Rightarrow> bool" where
  "apart p ts \<longleftrightarrow> successively (\<lambda>a b. a < b \<longrightarrow> p \<le> b - a) ts"

definition timed :: "u64 \<Rightarrow> kstate \<Rightarrow> bool" where
  "timed p st \<longleftrightarrow> (\<forall>l. apart p (link_times l st)
     \<and> (case tcp_link_map st l of
          None \<Rightarrow> link_times l st = []
        | Some m \<Rightarrow> link_times l st \<noteq> [] \<and> last (link_times l st) = m_ts m))"

text \<open>The period that the user program set is kept.\<close>

definition keeps_period :: "u64 \<Rightarrow> kevent \<Rightarrow> bool" where
  "keeps_period p ev = (case ev of UserArgs args \<Rightarrow> a_period args = p | _ \<Rightarrow> True)"

lemma load_args_map [simp]:
  "args_map (fst (create_sock_obj env tgid sk info st)) = args_map st"
  "args_map (update_sock_obj env sk tgid st) = args_map st"
  "args_map (load_fd env tgid fd info st) = args_map st"
  by (simp_all add: create_sock_obj_def update_sock_obj_def load_fd_def Let_def
        split: prod.splits option.splits)

lemma load_tcp_fd_args [simp]: "args_map (load_tcp_fd env tgid st) = args_map st"
proof -
  have "args_map (foldl (\<lambda>s (fd, role). load_fd env tgid fd (g role) s) st xs) = args_map st"
    for g :: "u8 \<Rightarrow> tcp_sock_info" and xs
    by (induction xs arbitrary: st) auto
  then show ?thesis by (simp add: load_tcp_fd_def Let_def split: option.splits)
qed

lemma count_args [simp]: "args_map (count env sk f st) = args_map st"
  by (simp add: count_found split: option.splits)

lemma prepared_period: "keeps_period (get_period st) ev \<Longrightarrow> get_period (prepared env ev st) = get_period st"
  by (cases ev; simp add: get_period_def start_send_def probe_get_parms_def bpf_tcp_set_state_def delete_tcp_link_def
        zero_link_def bpf_raw_trace_tcp_destroy_sock_def delete_sock_obj_def kprobe_entry_def keeps_period_def Let_def
        split: prod.splits)

lemma kstep_period: "keeps_period (get_period st) ev \<Longrightarrow> get_period (kstep env ev st) = get_period st"
  using prepared_period [of st ev env]
  by (simp add: kstep_shape get_period_def split: option.splits)

lemma apart_snoc: "apart p (ts @ [t]) \<longleftrightarrow> apart p ts \<and> (ts \<noteq> [] \<longrightarrow> last ts < t \<longrightarrow> p \<le> t - last ts)"
  by (auto simp: apart_def successively_append_iff)

lemma apart_single [simp]: "apart p []" "apart p [t]"
  by (simp_all add: apart_def)

lemma kstep_timed:
  assumes ok: "kstate_ok st" and t: "timed (get_period st) st" and p: "keeps_period (get_period st) ev"
  shows "timed (get_period st) (kstep env ev st)"
proof (cases "step_found env ev st")
  case None
  then have "link_times l (kstep env ev st) = link_times l st" for l
    by (simp add: step_quiet link_times_def)
  then show ?thesis using t None by (simp add: timed_def step_quiet cong: option.case_cong)
next
  case (Some r)
  obtain l m n where r: "step_found env ev st = Some (l, m, n)" using Some by (cases r) auto
  let ?m = "change env ev m" and ?p = "get_period st"
  note link = step_found_ok(2) [OF ok r] and step = step_hit [OF r, unfolded prepared_period [OF p]]
  have tm: "apart ?p (link_times l st)"
    "n \<Longrightarrow> link_times l st = []" "\<not> n \<Longrightarrow> link_times l st \<noteq> [] \<and> last (link_times l st) = m_ts m"
    using t [unfolded timed_def, rule_format, of l] step_found_ok(4,6) [OF ok r] by (auto split: option.splits)
  have other: "link_times k (kstep env ev st) = link_times k st"
      "tcp_link_map (kstep env ev st) k = tcp_link_map st k" if "k \<noteq> l" for k
    using that link by (auto simp: link_times_def step filter_empty_conv)
  have "apart ?p (link_times l (kstep env ev st)) \<and> link_times l (kstep env ev st) \<noteq> []
      \<and> last (link_times l (kstep env ev st)) = m_ts (fst (settled env ?p n ?m))"
  proof (cases rule: settled_cases [of env ?p n ?m])
    case kept
    then show ?thesis using tm by (simp add: link_times_def step)
  next
    case (sent m')
    then have "link_times l (kstep env ev st) = link_times l st @ [m_ts m']"
      using link by (simp add: link_times_def step)
    moreover have "n \<or> \<not> m_ts m < m_ts m' \<or> ?p \<le> m_ts m' - m_ts m"
    proof (cases n)
      case False
      then have "m_ts m' = ke_t_report env" using sent(2) by simp
      with sent(3) False show ?thesis by (metis change_keeps(2) linorder_not_less)
    qed simp
    ultimately show ?thesis using sent tm by (cases n) (simp_all add: apart_snoc)
  qed
  note here = this
  show ?thesis
    unfolding timed_def
  proof
    fix k
    show "apart ?p (link_times k (kstep env ev st)) \<and> (case tcp_link_map (kstep env ev st) k of
        None \<Rightarrow> link_times k (kstep env ev st) = []
      | Some m \<Rightarrow> link_times k (kstep env ev st) \<noteq> [] \<and> last (link_times k (kstep env ev st)) = m_ts m)"
    proof (cases "k = l")
      case True
      with here show ?thesis by (simp add: step(1))
    next
      case False
      with t [unfolded timed_def, rule_format, of k] show ?thesis by (simp only: other [OF False])
    qed
  qed
qed

lemma krun_timed:
  assumes "kstate_ok st" "timed (get_period st) st"
    "\<forall>(env, ev) \<in> set evs. env_ok env \<and> keeps_period (get_period st) ev"
  shows "timed (get_period st) (krun evs st)"
  using assms
proof (induction evs arbitrary: st)
  case (Cons e evs)
  obtain env ev where e: "e = (env, ev)" by (cases e)
  with Cons.prems(3) have env: "env_ok env" and p: "keeps_period (get_period st) ev" by auto
  have "timed (get_period (kstep env ev st)) (krun evs (kstep env ev st))"
    by (rule Cons.IH) (use kstep_ok [OF Cons.prems(1) env] kstep_timed [OF Cons.prems(1,2) p]
      kstep_period [OF p] Cons.prems(3) in auto)
  then show ?case by (simp add: e kstep_period [OF p])
qed simp

text \<open>C37: With a fixed period, the records of one link that are handed over one after another carry times that
  are at least the period apart, unless the clock has not moved forward; the first one carries the time of
  the creation of its entry, and the entry remembers the time of the last.\<close>

theorem tcp_reports_apart:
  assumes "\<forall>(env, ev) \<in> set evs. env_ok env \<and> keeps_period (a_period args) ev"
  shows "apart (a_period args) (link_times l (krun evs (kstate0\<lparr>args_map := [0 \<mapsto> args]\<rparr>)))
    \<and> (case tcp_link_map (krun evs (kstate0\<lparr>args_map := [0 \<mapsto> args]\<rparr>)) l of
         None \<Rightarrow> link_times l (krun evs (kstate0\<lparr>args_map := [0 \<mapsto> args]\<rparr>)) = []
       | Some m \<Rightarrow> link_times l (krun evs (kstate0\<lparr>args_map := [0 \<mapsto> args]\<rparr>)) \<noteq> []
            \<and> last (link_times l (krun evs (kstate0\<lparr>args_map := [0 \<mapsto> args]\<rparr>))) = m_ts m)"
proof -
  let ?st = "kstate0\<lparr>args_map := [0 \<mapsto> args]\<rparr>"
  have p: "get_period ?st = a_period args" by (simp add: get_period_def)
  have "kstate_ok ?st" "timed (a_period args) ?st"
    by (simp_all add: kstate_ok_def kstate0_def timed_def apart_def link_times_def)
  from krun_timed [of ?st, unfolded p, OF this assms] show ?thesis by (simp add: timed_def)
qed

section \<open>Two readings of the socket\<close>

lemma ntohs_bit: "bit (ntohs x) n \<longleftrightarrow> (if n < 8 then bit x (n + 8) else n < 16 \<and> bit x (n - 8))"
  for x :: u16
  by (auto simp: ntohs_def bit_simps add.commute dest: bit_imp_le_length)

lemma ntohs_ntohs [simp]: "ntohs (ntohs x) = x"
  by (rule bit_word_eqI) (auto simp: ntohs_bit add.commute)

text \<open>When the client port is asked for, the two ends of one connection on this host agree about the
  addresses and the server's port, but about the client's port only when its two bytes are equal: the client's
  own port \<open>sk_num\<close> is in host order and is swapped nevertheless.\<close>

theorem link_ends_swap_client_port:
  assumes "i_role ci = LINK_ROLE_CLIENT" "i_role si = LINK_ROLE_SERVER"
    and "sk_family c = AF_INET" "sk_family s = AF_INET"
    and "sk_rcv_saddr c = sk_daddr s" "sk_daddr c = sk_rcv_saddr s"
    and "sk_dport c = ntohs (sk_num s)" "sk_dport s = ntohs (sk_num c)"
  shows "l_c_ip (fill_link c 1 ci) = l_c_ip (fill_link s 1 si)
    \<and> l_s_ip (fill_link c 1 ci) = l_s_ip (fill_link s 1 si)
    \<and> l_s_port (fill_link c 1 ci) = l_s_port (fill_link s 1 si)
    \<and> (l_c_port (fill_link c 1 ci) = l_c_port (fill_link s 1 si) \<longleftrightarrow> ntohs (sk_num c) = sk_num c)"
  using assms by (simp add: fill_link_def end_addr_def LINK_ROLE_CLIENT_def LINK_ROLE_SERVER_def Let_def)

lemma chrono_type_not_index:
  "(w :: u8) AND 0xC0 \<noteq> 1" "(w :: u8) AND 0xC0 \<noteq> 2" "(w :: u8) AND 0xC0 \<noteq> 3"
proof -
  have "\<not> bit (w AND 0xC0) 0" "\<not> bit (w AND 0xC0) 1"
    by (simp_all add: bit_simps)
  moreover have "bit (1 :: u8) 0" "bit (2 :: u8) 1" "bit (3 :: u8) 0" by simp_all
  ultimately show "w AND 0xC0 \<noteq> 1" "w AND 0xC0 \<noteq> 2" "w AND 0xC0 \<noteq> 3" by metis+
qed

lemma usec_per_jiffy: "USEC_PER_SEC div HZ = 10000"
  unfolding USEC_PER_SEC_def HZ_def by code_simp

text \<open>The three times of a sender are read without the chronograph that is running, because its type is compared
  where the mask left it, in the upper two bits: neither the clock nor the start nor the type changes the result.\<close>

theorem busy_time_without_running:
  "tcp_compute_busy_time env s info =
     (let t = (\<lambda>i. ucast (chrono_stat s ! i) * 10000 :: u64) in
      info\<lparr>tcpi_busy_time := ucast (t 0 + t 1 + t 2), tcpi_rwnd_limited := ucast (t 1),
           tcpi_sndbuf_limited := ucast (t 2)\<rparr>)"
proof -
  have "chrono_round s ms 1 = ucast (chrono_stat s ! 0) * 10000"
    "chrono_round s ms 2 = ucast (chrono_stat s ! 1) * 10000"
    "chrono_round s ms 3 = ucast (chrono_stat s ! 2) * 10000" for ms
    using chrono_type_not_index [of "chrono_type_byte s", symmetric]
    by (simp_all add: chrono_round_def usec_per_jiffy Let_def del: not_less)
  moreover have "[TCP_CHRONO_BUSY..<TCP_CHRONO_MAX] = [1, 2, 3]"
    by (simp add: TCP_CHRONO_BUSY_def TCP_CHRONO_MAX_def upt_rec)
  ultimately show ?thesis
    by (simp only: tcp_compute_busy_time_def TCP_CHRONO_RWND_LIMITED_def TCP_CHRONO_SNDBUF_LIMITED_def Let_def
          foldl.simps add_0_left)
qed

section \<open>An example\<close>

text \<open>A connection to 10.0.0.2 port 80 from port 40000, opened, used for a message and a receipt.\<close>

definition example_sock :: sock where
  "example_sock = \<lparr>sk_family = AF_INET, sk_state = 2, sk_rcv_saddr = 0x0100000A, sk_daddr = 0x0200000A,
     sk_v6_rcv_saddr = None, sk_v6_daddr = None, sk_num = 40000, sk_dport = ntohs 80, sk_drops_counter = 0,
     sk_pacing_rate = 0, sk_max_pacing_rate = 0, sk_error_queue_qlen = 0, sk_receive_queue_qlen = 0,
     sk_write_queue_qlen = 0, sk_backlog_len = 0, sk_omem_alloc = 0, sk_forward_alloc = 0, sk_wmem_alloc = 0,
     icsk_rto = 20, icsk_ack_ato = 4, srtt_us = 800, snd_ssthresh = 0, rcv_ssthresh = 0, snd_cwnd = 10,
     advmss = 1460, reordering = 3, rcv_rtt_us = 0, rcvq_space = 0, write_seq = 5, snd_nxt = 3, snd_wnd = 0,
     snd_una = 1, rcv_wnd = 0, chrono_start = 0, chrono_stat = [1, 2, 3], chrono_type_byte = 0x40,
     rate_delivered = 0, rate_interval_us = 0, mss_cache = 1448, tk_lost_out = 0, tk_sacked_out = 0\<rparr>"

definition example_env :: "u64 \<Rightarrow> kenv" where
  "example_env t = \<lparr>ke_sock = (\<lambda>_. example_sock), ke_task = \<lparr>max_fds = 0, fd_table = (\<lambda>_. None)\<rparr>, ke_tgid = 7,
     ke_pid = 7, ke_cpu = 0, ke_t_create = t, ke_t_busy = t, ke_t_report = t + 1,
     ke_link_answer = hash_answer TCP_LINK_MAX, ke_sock_answer = hash_answer TCP_TUPLE_MAX,
     ke_match_answer = hash_answer PROBE_MATCH_MAP_MAX_ENTRIES\<rparr>"

definition example_events :: "(kenv \<times> kevent) list" where
  "example_events = [(example_env 0, SetState 1 TCP_ESTABLISHED), (example_env 10, Sendmsg 1 100),
     (example_env 20, CleanupRbuf 1 50)]"

lemma example_env_ok [simp]: "env_ok (example_env t)"
  using kernel_map.bpf_hash_axioms by (simp add: env_ok_def example_env_def)

lemma example_events_ok: "\<forall>(env, ev) \<in> set example_events. env_ok env"
  by (simp add: example_events_def)

definition example_link :: tcp_link_s where
  "example_link = zero_link\<lparr>l_tgid := 7, l_c_ip := 0x0100000A, l_s_ip := 0x0200000A, l_s_port := 80,
     l_family := 2, l_role := 1\<rparr>"

text \<open>A map that is full of links of 10240 processes.\<close>

definition full_links :: "tcp_link_s set" where
  "full_links = (\<lambda>n. zero_link\<lparr>l_tgid := of_nat n\<rparr>) ` {1..TCP_LINK_MAX}"

definition full_state :: kstate where
  "full_state = kstate0\<lparr>tcp_link_map := (\<lambda>l. if l \<in> full_links then Some (fresh_metrics (example_env 0) l 0) else None)\<rparr>"

lemma full_links_card: "finite full_links" "card full_links = TCP_LINK_MAX"
proof -
  have "inj_on (\<lambda>n. zero_link\<lparr>l_tgid := of_nat n\<rparr>) {1..TCP_LINK_MAX}"
  proof (rule inj_onI)
    fix a b :: nat
    assume ab: "a \<in> {1..TCP_LINK_MAX}" "b \<in> {1..TCP_LINK_MAX}"
      and "zero_link\<lparr>l_tgid := of_nat a\<rparr> = zero_link\<lparr>l_tgid := of_nat b\<rparr>"
    then have "l_tgid (zero_link\<lparr>l_tgid := of_nat a\<rparr>) = l_tgid (zero_link\<lparr>l_tgid := of_nat b\<rparr>)" by simp
    then have "unat (of_nat a :: u32) = unat (of_nat b :: u32)" by simp
    with ab show "a = b" by (simp add: unat_u32 TCP_LINK_MAX_def)
  qed
  then show "finite full_links" "card full_links = TCP_LINK_MAX"
    by (simp_all add: full_links_def card_image)
qed

lemma full_links_ok: "l \<in> full_links \<Longrightarrow> link_ok l"
proof -
  assume "l \<in> full_links"
  then obtain n where n: "1 \<le> n" "n \<le> TCP_LINK_MAX" "l = zero_link\<lparr>l_tgid := of_nat n\<rparr>"
    by (auto simp: full_links_def)
  then have "unat (of_nat n :: u32) = n" by (simp add: unat_u32 TCP_LINK_MAX_def)
  with n have "(of_nat n :: u32) \<noteq> 0" by (metis not_one_le_zero unat_0)
  with n show ?thesis by (simp add: link_ok_def zero_link_def AF_INET_def)
qed

lemma full_state_dom: "dom (tcp_link_map full_state) = full_links"
  by (auto simp: full_state_def split: if_splits)

lemma full_state_ok: "kstate_ok full_state"
  using full_links_ok by (simp add: kstate_ok_def full_state_dom full_links_card)
    (simp add: full_state_def kstate0_def fresh_metrics_def no_sk_err_def zero_health_def)

lemma kstate0_ok: "kstate_ok kstate0"
  by (simp add: kstate_ok_def kstate0_def)

theorem tcp_links_well_formed_witness: "kstate_ok (krun example_events kstate0)"
  by (rule tcp_links_well_formed) (rule kreach_run [OF kreach_init example_events_ok])

theorem tcp_links_never_removed_witness:
  "dom (tcp_link_map (krun example_events full_state)) = full_links
   \<and> (\<exists>out. k_output (krun example_events full_state) = out \<and> m_link ` set out \<subseteq> full_links)"
  using tcp_links_never_removed [OF full_state_ok example_events_ok]
  by (simp add: full_state_dom full_links_card) (simp add: full_state_def kstate0_def)

theorem tcp_counters_exact_witness:
  "total_of (\<lambda>m. rx (m_info m)) example_link (krun example_events kstate0)
     = run_amount rx_amount example_link example_events kstate0
   \<and> total_of (\<lambda>m. tx (m_info m)) example_link (krun example_events kstate0)
     = run_amount tx_amount example_link example_events kstate0"
  using tcp_counters_exact [OF kstate0_ok example_events_ok, of example_link]
  by (simp add: total_of_def kstate0_def)

theorem tcp_reports_apart_witness:
  "apart 5000 (link_times example_link (krun example_events (kstate0\<lparr>args_map :=
     [0 \<mapsto> \<lparr>a_period = 5000, a_cport_flag = 0, a_filter_by_task = 0, a_filter_by_tgid = 0\<rparr>]\<rparr>)))"
  using tcp_reports_apart [of example_events
      "\<lparr>a_period = 5000, a_cport_flag = 0, a_filter_by_task = 0, a_filter_by_tgid = 0\<rparr>" example_link]
  by (simp add: example_events_def keeps_period_def)

theorem link_ends_swap_client_port_witness:
  "l_c_port (fill_link example_sock 1 \<lparr>i_role = 1, i_syn_srtt = 0, i_tgid = 7\<rparr>)
   \<noteq> l_c_port (fill_link (example_sock\<lparr>sk_rcv_saddr := 0x0200000A, sk_daddr := 0x0100000A, sk_num := 80,
       sk_dport := ntohs 40000\<rparr>) 1 \<lparr>i_role = 0, i_syn_srtt = 0, i_tgid = 8\<rparr>)"
proof -
  have "ntohs 40000 \<noteq> 40000" by (simp add: ntohs_def)
  then show ?thesis
    using link_ends_swap_client_port [of "\<lparr>i_role = 1, i_syn_srtt = 0, i_tgid = 7\<rparr>"
        "\<lparr>i_role = 0, i_syn_srtt = 0, i_tgid = 8\<rparr>" example_sock
        "example_sock\<lparr>sk_rcv_saddr := 0x0200000A, sk_daddr := 0x0100000A, sk_num := 80, sk_dport := ntohs 40000\<rparr>"]
    by (simp add: example_sock_def LINK_ROLE_CLIENT_def LINK_ROLE_SERVER_def)
qed

end
