(* ===== verification/Scan.thy ===== *)
theory Scan
  imports ExtendProbe
begin

section \<open>Searching in strings\<close>

text \<open>
  The functions of \<open>string.h\<close> and \<open>stdio.h\<close> with which the probes take apart the output of commands and
  the files of \<open>/proc\<close>: \<open>strstr\<close>, \<open>strchr\<close> and \<open>strrchr\<close> as offsets, and the rules by which a search skips
  the parts of a line that cannot hold what is sought.
\<close>

fun str_pos :: "cstr \<Rightarrow> cstr \<Rightarrow> nat option" where
  "str_pos [] t = (if t = [] then Some 0 else None)"
| "str_pos (ch # s) t = (if take (length t) (ch # s) = t then Some 0 else map_option Suc (str_pos s t))"

definition strchr :: "cstr \<Rightarrow> char \<Rightarrow> nat option" where
  "strchr s ch = str_pos s [ch]"

definition strrchr :: "cstr \<Rightarrow> char \<Rightarrow> nat option" where
  "strrchr s ch = (case strchr (rev s) ch of None \<Rightarrow> None | Some n \<Rightarrow> Some (length s - Suc n))"

text \<open>\<open>SPLIT_NEWLINE_SYMBOL\<close>.\<close>

definition split_newline :: "cstr \<Rightarrow> cstr" where
  "split_newline s = (if s \<noteq> [] \<and> last s = CHR 0x0A then butlast s else s)"

text \<open>The values of a line of a probe, each after a bar.\<close>

definition bars :: "cstr list \<Rightarrow> cstr" where
  "bars vs = concat (map (\<lambda>v. CHR ''|'' # v) vs) @ [CHR ''|'', CHR 0x0A]"

definition shown :: "'a::len word \<Rightarrow> cstr" where
  "shown w = show_nat (unat w)"

text \<open>
  \<open>sscanf\<close> with formats made of \<open>%*s\<close> and numbers: a word is skipped, and a number is an optional sign and
  digits, which saturates. A conversion that finds no input is \<open>NoInput\<close>, one that finds another character \<open>NoMatch\<close>.
\<close>

datatype scan = Scanned u64 cstr | NoInput | NoMatch

definition skip_space :: "cstr \<Rightarrow> cstr" where
  "skip_space s = dropWhile is_space s"

definition skip_word :: "cstr \<Rightarrow> cstr option" where
  "skip_word s = (case skip_space s of [] \<Rightarrow> None | t \<Rightarrow> Some (dropWhile (\<lambda>ch. \<not> is_space ch) t))"

definition scan_ull :: "cstr \<Rightarrow> scan" where
  "scan_ull s =
     (let t = skip_space s;
          neg = (t \<noteq> [] \<and> hd t = CHR ''-'');
          u = (if t \<noteq> [] \<and> (hd t = CHR ''-'' \<or> hd t = CHR ''+'') then tl t else t);
          ds = takeWhile is_digit u;
          v = min (read_nat ds) (2 ^ 64 - 1)
      in if t = [] then NoInput
         else if ds = [] then (if u = [] then NoInput else NoMatch)
         else Scanned (if neg \<and> read_nat ds < 2 ^ 64 then - of_nat v else of_nat v) (dropWhile is_digit u))"

lemma split_newline_simps [str_simps]:
  "split_newline (l @ [CHR 0x0A]) = l"
  "CHR 0x0A \<notin> set l \<Longrightarrow> split_newline l = l"
  by (auto simp: split_newline_def dest: last_in_set)

lemma str_pos_bound: "str_pos s t = Some n \<Longrightarrow> n + length t \<le> length s \<and> take (length t) (drop n s) = t"
proof (induction s arbitrary: n)
  case (Cons ch s)
  show ?case
  proof (cases "take (length t) (ch # s) = t")
    case True
    then have "length t \<le> length (ch # s)" by (metis length_take min.bounded_iff order_refl)
    with True Cons.prems show ?thesis by simp
  next
    case False
    with Cons.prems obtain k where "str_pos s t = Some k" "n = Suc k" by auto
    with Cons.IH show ?thesis by auto
  qed
qed (auto split: if_splits)

lemma str_pos_here [str_simps]: "str_pos (t @ s) t = Some 0"
proof -
  have "take (length t) (t @ s) = t" by simp
  then show ?thesis by (cases "t @ s") simp_all
qed

text \<open>A part without the first character of the pattern is skipped.\<close>

lemma str_pos_free: "d \<notin> set a \<Longrightarrow> str_pos (a @ s) (d # t) = map_option ((+) (length a)) (str_pos s (d # t))"
  by (induction a) (cases "str_pos s (d # t)"; auto)+

lemma str_pos_None: "d \<in> set t \<Longrightarrow> d \<notin> set s \<Longrightarrow> str_pos s t = None"
proof (rule ccontr)
  assume d: "d \<in> set t" "d \<notin> set s" and "str_pos s t \<noteq> None"
  then obtain n where "take (length t) (drop n s) = t" using str_pos_bound by blast
  then have "set t \<subseteq> set s" by (metis in_set_dropD in_set_takeD subsetI)
  with d show False by auto
qed

text \<open>
  A part that lacks some character of the pattern, together with the character after it that is not in
  the pattern, is skipped.
\<close>

lemma str_pos_skip:
  assumes "d \<in> set t" "d \<notin> set a" "e \<notin> set t"
  shows "str_pos (a @ e # s) t = map_option ((+) (Suc (length a))) (str_pos s t)"
  using assms(2)
proof (induction a)
  case Nil
  have "take (length t) (e # s) \<noteq> t"
    using assms(1,3) by (cases t) auto
  then show ?case by (cases "str_pos s t") simp_all
next
  case (Cons ch a)
  have "take (length t) (ch # a @ e # s) \<noteq> t"
  proof
    assume eq: "take (length t) (ch # a @ e # s) = t"
    show False
    proof (cases "length t \<le> length (ch # a)")
      case True
      then have "take (length t) (ch # a @ e # s) = take (length t) (ch # a)"
        by (metis append_Cons take_append diff_is_0_eq append_Nil2 take0)
      with eq assms(1) Cons.prems show False by (metis in_set_takeD)
    next
      case False
      then have "e \<in> set (take (length t) (ch # a @ e # s))"
        by (cases "length t - Suc (length a)") (auto simp: take_Cons')
      with eq assms(3) show False by simp
    qed
  qed
  with Cons show ?case by (cases "str_pos s t") simp_all
qed

lemma strchr_found: "ch \<notin> set a \<Longrightarrow> strchr (a @ ch # s) ch = Some (length a)"
  by (simp add: strchr_def str_pos_free)

lemma strchr_None [simp]: "ch \<notin> set s \<Longrightarrow> strchr s ch = None"
  by (simp add: strchr_def str_pos_None [of ch])

lemma strrchr_found: "ch \<notin> set s \<Longrightarrow> strrchr (a @ ch # s) ch = Some (length a)"
  using strchr_found [of ch "rev s" "rev a"] by (simp add: strrchr_def)

lemma strrchr_bound: "strrchr s ch = Some n \<Longrightarrow> n < length s"
  using str_pos_bound [of "rev s" "[ch]"] by (auto simp: strrchr_def strchr_def split: option.splits)

lemma join_free: "c \<noteq> d \<Longrightarrow> \<forall>x \<in> set xs. c \<notin> set x \<Longrightarrow> c \<notin> set (join d xs)"
  by (induction d xs rule: join.induct) auto

subsection \<open>Counting blocks\<close>

text \<open>A run from the heap \<open>h\<close> to \<open>h'\<close> that leaves \<open>n\<close> more blocks; the script of the allocator only gets shorter.\<close>

definition grown :: "int \<Rightarrow> heap \<Rightarrow> heap \<Rightarrow> bool" where
  "grown n h h' \<longleftrightarrow> mlive h' = mlive h + n \<and> set (mscript h') \<subseteq> set (mscript h)"

lemma grown_refl [simp]: "grown n h h \<longleftrightarrow> n = 0"
  by (auto simp: grown_def)

lemma grown_trans: "grown m h h' \<Longrightarrow> grown n h' h'' \<Longrightarrow> grown (m + n) h h''"
  by (auto simp: grown_def)

lemma grown_trans_eq: "grown m h h' \<Longrightarrow> grown n h' h'' \<Longrightarrow> k = m + n \<Longrightarrow> grown k h h''"
  by (auto simp: grown_def)

lemma grown_malloc: "malloc h = (ok, h') \<Longrightarrow> grown (if ok then 1 else 0) h h' \<and> (ok \<or> False \<in> set (mscript h))"
  by (auto simp: grown_def malloc_def split: list.splits)

lemma grown_free [simp]: "grown n h (free h') \<longleftrightarrow> grown (n + 1) h h'"
  "grown n h (free_n k h') \<longleftrightarrow> grown (n + int k) h h'"
  by (auto simp: grown_def)

lemma grown_script: "grown n h h' \<Longrightarrow> False \<in> set (mscript h') \<Longrightarrow> False \<in> set (mscript h)"
  by (auto simp: grown_def)

end
