(* ===== verification/TcpLib.thy ===== *)
theory TcpLib
  imports Scan TcpBpf
begin

section \<open>The sockets of the host, from the output of ss\<close>

text \<open>
  \<open>lib/tcp.c\<close> and \<open>include/tcp.h\<close>: the ports the host listens on and its established connections, taken
  from the output of \<open>ss\<close> and \<open>awk\<close>, which is given, and the endpoints made of them. A value of a
  \<open>malloc\<close> that the code does not test leads to \<open>Inl NullDeref\<close> when it fails. \<open>inet_pton\<close> is a
  parameter; its result is not used.
\<close>

subsection \<open>The data\<close>

definition TASK_COMM_LEN :: nat where "TASK_COMM_LEN = 16"
definition IP_STR_LEN :: nat where "IP_STR_LEN = 128"
definition LINE_BUF_LEN :: nat where "LINE_BUF_LEN = 512"
definition PORT_LEN :: nat where "PORT_LEN = 11"
definition PID_LEN :: nat where "PID_LEN = 32"
definition FID_LEN :: nat where "FID_LEN = 32"
definition LTP_MAX_NUM :: nat where "LTP_MAX_NUM = 1024"
definition PORT_MAX_NUM :: u32 where "PORT_MAX_NUM = 65536"
definition TCP_ESTAB_COMM_MAX :: nat where "TCP_ESTAB_COMM_MAX = 32"
definition TCP_ESTAB_MAX :: nat where "TCP_ESTAB_MAX = 1024"
definition TCP_ENDPOINT_MAX :: nat where "TCP_ENDPOINT_MAX = 1024"

record tcp_listen_port =
  lp_pid :: u32
  lp_port :: u32
  lp_fd :: u32
  lp_comm :: cstr

record tcp_listen_ports =
  tlp :: "tcp_listen_port list"
  tlp_hash :: "u32 \<Rightarrow> u32"

record ip_addr =
  ip :: cstr
  ip_port :: u32
  ipv4 :: int

record tcp_estab_comm =
  ec_comm :: cstr
  ec_pid :: u32
  ec_fd :: u32

record tcp_estab =
  is_client :: int
  local :: ip_addr
  remote :: ip_addr
  te_comm :: "tcp_estab_comm list"

datatype endpoint_type = EP_TYPE_LISTEN | EP_TYPE_IP | EP_TYPE_IP_PORT

datatype endpoint_addr_type = EP_ADDR_UNSET | EP_ADDR_IPV4 | EP_ADDR_IPV6

record tcp_endpoint =
  ep_type :: endpoint_type
  ep_addr_type :: endpoint_addr_type
  ep_port :: u32
  ep_pid :: u32
  ep_addr :: "128 word"

subsection \<open>Strings\<close>

definition get_next_str_offset :: "cstr \<Rightarrow> cstr \<Rightarrow> nat option" where
  "get_next_str_offset s t = (case str_pos s t of Some p \<Rightarrow> if 0 < p then Some p else None | None \<Rightarrow> None)"

definition get_sub_str :: "cstr \<Rightarrow> cstr option \<Rightarrow> cstr option \<Rightarrow> nat \<Rightarrow> cstr option" where
  "get_sub_str s start stop buf_len =
     (case (case stop of None \<Rightarrow> Some (length s) | Some t \<Rightarrow> str_pos s t) of
        None \<Rightarrow> None
      | Some p2 \<Rightarrow>
          (case (case start of None \<Rightarrow> Some 0 | Some t \<Rightarrow> map_option ((+) (length t)) (str_pos s t)) of
             None \<Rightarrow> None
           | Some p1 \<Rightarrow>
               if p2 \<le> p1 \<or> buf_len \<le> p2 - p1 then None else Some (take (p2 - p1) (drop p1 s))))"

definition erase_square_brackets :: "cstr \<Rightarrow> nat \<Rightarrow> cstr option" where
  "erase_square_brackets s buf_len =
     (case (strchr s CHR ''['', strchr s CHR '']'') of
        (Some p1, Some p2) \<Rightarrow>
          if p2 \<le> p1 then None
          else (case get_sub_str s (Some ''['') (Some '']'') LINE_BUF_LEN of
                  None \<Rightarrow> None
                | Some tmp \<Rightarrow> if buf_len \<le> length tmp then None else Some tmp)
      | _ \<Rightarrow> None)"

subsection \<open>Established connections\<close>

definition get_estab_addr :: "cstr \<Rightarrow> ip_addr option" where
  "get_estab_addr addr_buf =
     (case strrchr addr_buf CHR '':'' of
        None \<Rightarrow> None
      | Some ip_len \<Rightarrow>
          if ip_len = 0 then None
          else
            (let ip0 = take ip_len addr_buf;
                 (ip1, v4) = (case erase_square_brackets ip0 IP_STR_LEN of Some i \<Rightarrow> (i, 0) | None \<Rightarrow> (ip0, 1));
                 port_str = drop (ip_len + 1) addr_buf
             in if port_str = [] \<or> PORT_LEN \<le> length port_str then None
                else if \<not> list_all is_digit port_str then None
                else Some \<lparr>ip = ip1, ip_port = word_of_int (atoi port_str), ipv4 = v4\<rparr>))"

definition get_estab_comm :: "cstr \<Rightarrow> heap \<Rightarrow> (tcp_estab_comm option \<times> heap) c" where
  "get_estab_comm s h =
     (if LINE_BUF_LEN \<le> length s then Inr (None, h)
      else
        (case (get_sub_str s (Some ''(\"'') (Some ''\",'') TASK_COMM_LEN,
               get_sub_str s (Some ''pid='') (Some '',fd'') PID_LEN,
               get_sub_str s (Some '',fd='') (Some '')'') FID_LEN) of
           (Some comm, Some pid_s, Some fd_s) \<Rightarrow>
             if \<not> list_all is_digit pid_s \<or> \<not> list_all is_digit fd_s then Inr (None, h)
             else
               (let (ok, h1) = malloc h in
                if \<not> ok then Inl NullDeref
                else Inr (Some \<lparr>ec_comm = comm, ec_pid = word_of_int (atoi pid_s),
                                ec_fd = word_of_int (atoi fd_s)\<rparr>, h1))
         | _ \<Rightarrow> Inr (None, h)))"

definition add_estab_comm :: "tcp_estab_comm list \<Rightarrow> tcp_estab_comm \<Rightarrow> tcp_estab_comm list \<times> int" where
  "add_estab_comm te cm = (if TCP_ESTAB_COMM_MAX \<le> length te then (te, - 1) else (te @ [cm], 0))"

definition add_estab :: "tcp_estab list \<Rightarrow> tcp_estab \<Rightarrow> tcp_estab list \<times> int" where
  "add_estab tes te = (if TCP_ESTAB_MAX \<le> length tes then (tes, - 1) else (tes @ [te], 0))"

definition free_estab :: "tcp_estab \<Rightarrow> heap \<Rightarrow> heap" where
  "free_estab te h = free (free_n (length (te_comm te)) h)"

definition free_estab_tcps :: "tcp_estab list option \<Rightarrow> heap \<Rightarrow> heap" where
  "free_estab_tcps tes h =
     (case tes of None \<Rightarrow> h | Some ts \<Rightarrow> free (foldl (\<lambda>h te. free_estab te h) h ts))"

text \<open>One process of a connection, and the loop over the text between the parentheses.\<close>

definition take_comm :: "cstr \<Rightarrow> tcp_estab_comm list \<Rightarrow> heap \<Rightarrow> (tcp_estab_comm list \<times> heap) c" where
  "take_comm s te h =
     bindc (get_estab_comm s h) (\<lambda>(cm, h1).
       Inr (case cm of
              None \<Rightarrow> (te, h1)
            | Some x \<Rightarrow> (let (te', ret) = add_estab_comm te x in (te', if ret < 0 then free h1 else h1))))"

function take_comms :: "cstr \<Rightarrow> tcp_estab_comm list \<Rightarrow> heap \<Rightarrow> (tcp_estab_comm list \<times> heap) c" where
  "take_comms s te h =
     (case get_next_str_offset s '',('' of
        None \<Rightarrow> take_comm s te h
      | Some offset \<Rightarrow>
          bindc (take_comm (take offset s) te h) (\<lambda>(te', h'). take_comms (drop (offset + 1) s) te' h'))"
  by pat_completeness auto
termination
  by (relation "measure (\<lambda>(s, _, _). length s)")
    (auto simp: get_next_str_offset_def dest: str_pos_bound split: option.splits if_splits)

declare take_comms.simps [simp del]

text \<open>The line of a connection; \<open>None\<close> is the return value -1.\<close>

definition get_estab :: "cstr \<Rightarrow> heap \<Rightarrow> (tcp_estab option \<times> heap) c" where
  "get_estab s h =
     (case Option.bind (get_sub_str s None (Some ''|'') IP_STR_LEN) get_estab_addr of
        None \<Rightarrow> Inr (None, h)
      | Some l \<Rightarrow>
          (case Option.bind (get_sub_str s (Some ''|'') (Some ''@'') IP_STR_LEN) get_estab_addr of
             None \<Rightarrow> Inr (None, h)
           | Some r \<Rightarrow>
               (case get_sub_str s (Some ''@users:('') None LINE_BUF_LEN of
                  None \<Rightarrow> Inr (None, h)
                | Some comms_str \<Rightarrow>
                    bindc (take_comms (butlast comms_str) [] h) (\<lambda>(cs, h').
                      Inr (Some \<lparr>is_client = 0, local = l, remote = r, te_comm = cs\<rparr>, h')))))"

fun get_estabs_loop :: "cstr list \<Rightarrow> tcp_estab list \<Rightarrow> heap \<Rightarrow> (tcp_estab list \<times> heap) c" where
  "get_estabs_loop [] tes h = Inr (tes, h)"
| "get_estabs_loop (line # ls) tes h =
     (let (ok, h1) = malloc h in
      if \<not> ok then Inr (tes, h1)
      else bindc (get_estab line h1) (\<lambda>(te, h2).
        (case te of
           None \<Rightarrow> get_estabs_loop ls tes (free h2)
         | Some e \<Rightarrow>
             (let (tes', ret) = add_estab tes e in
              get_estabs_loop ls tes' (if ret < 0 then free_estab e h2 else h2)))))"

text \<open>The output of the command, \<open>None\<close> when \<open>popen\<close> fails.\<close>

definition get_estabs :: "cstr option \<Rightarrow> heap \<Rightarrow> (tcp_estab list option \<times> heap) c" where
  "get_estabs out h =
     (case out of
        None \<Rightarrow> Inr (None, h)
      | Some o' \<Rightarrow> bindc (get_estabs_loop (fgets_chunks LINE_BUF_LEN o') [] h) (\<lambda>(tes, h'). Inr (Some tes, h')))"

subsection \<open>Listening ports\<close>

definition get_listen_port :: "cstr \<Rightarrow> u32 option" where
  "get_listen_port s =
     (case get_sub_str s (Some (if str_pos s '']:'' \<noteq> None then '']:'' else '':'')) (Some ''users:'') PORT_LEN of
        None \<Rightarrow> None
      | Some port_str \<Rightarrow>
          if \<not> list_all is_digit port_str then None
          else
            (let port_num = word_of_int (atoi port_str) in
             if port_num \<ge> PORT_MAX_NUM then None else Some port_num))"

definition get_listen_comm :: "cstr \<Rightarrow> cstr option" where
  "get_listen_comm s = get_sub_str s (Some ''((\"'') (Some ''\",pid'') TASK_COMM_LEN"

definition get_listen_pid :: "cstr \<Rightarrow> u32 option" where
  "get_listen_pid s =
     (case get_sub_str s (Some ''pid='') (Some '',fd='') PID_LEN of
        None \<Rightarrow> None
      | Some pid_str \<Rightarrow> if \<not> list_all is_digit pid_str then None else Some (word_of_int (atoi pid_str)))"

definition get_listen_fd :: "cstr \<Rightarrow> u32 option" where
  "get_listen_fd s =
     (case get_sub_str s (Some ''fd='') (Some ''))'') FID_LEN of
        None \<Rightarrow> None
      | Some fd_str \<Rightarrow> if \<not> list_all is_digit fd_str then None else Some (word_of_int (atoi fd_str)))"

definition new_tlp :: "cstr \<Rightarrow> heap \<Rightarrow> tcp_listen_port option \<times> heap" where
  "new_tlp s h =
     (case (get_listen_port s, get_listen_comm s, get_listen_pid s, get_listen_fd s) of
        (Some port, Some comm, Some pid, Some fd) \<Rightarrow>
          (let (ok, h1) = malloc h in
           if \<not> ok then (None, h1)
           else (Some \<lparr>lp_pid = pid, lp_port = port, lp_fd = fd, lp_comm = comm\<rparr>, h1))
      | _ \<Rightarrow> (None, h))"

definition add_tlp :: "tcp_listen_ports \<Rightarrow> tcp_listen_port \<Rightarrow> tcp_listen_ports \<times> int" where
  "add_tlp tlps t =
     (if tlp_hash tlps (lp_port t) = 1 then (tlps, - 1)
      else if LTP_MAX_NUM \<le> length (tlp tlps) then (tlps, - 1)
      else (tlps\<lparr>tlp_hash := (tlp_hash tlps)(lp_port t := 1), tlp := tlp tlps @ [t]\<rparr>, 0))"

definition get_tlps_line :: "tcp_listen_ports \<times> heap \<Rightarrow> cstr \<Rightarrow> tcp_listen_ports \<times> heap" where
  "get_tlps_line = (\<lambda>(tlps, h) line.
     (let (t, h1) = new_tlp line h in
      case t of
        None \<Rightarrow> (tlps, h1)
      | Some x \<Rightarrow> (let (tlps', ret) = add_tlp tlps x in (tlps', if ret < 0 then free h1 else h1))))"

definition is_listen_port :: "u32 \<Rightarrow> tcp_listen_ports \<Rightarrow> bool" where
  "is_listen_port port tlps = (if port \<ge> PORT_MAX_NUM then False else tlp_hash tlps port \<noteq> 0)"

definition free_listen_ports :: "tcp_listen_ports \<Rightarrow> heap \<Rightarrow> heap" where
  "free_listen_ports tlps h = free (free_n (length (tlp tlps)) h)"

definition no_tlps :: tcp_listen_ports where
  "no_tlps = \<lparr>tlp = [], tlp_hash = (\<lambda>_. 0)\<rparr>"

definition get_listen_ports :: "cstr option \<Rightarrow> heap \<Rightarrow> tcp_listen_ports option \<times> heap" where
  "get_listen_ports out h =
     (let (ok, h1) = malloc h in
      if \<not> ok then (None, h1)
      else
        (case out of
           None \<Rightarrow> (None, free_listen_ports no_tlps h1)
         | Some o' \<Rightarrow>
             (let (tlps, h2) = foldl get_tlps_line (no_tlps, h1) (fgets_chunks LINE_BUF_LEN o')
              in (Some tlps, h2))))"

definition get_estab_tcps :: "cstr option \<Rightarrow> tcp_listen_ports \<Rightarrow> heap \<Rightarrow> (tcp_estab list option \<times> heap) c" where
  "get_estab_tcps out tlps h =
     (let (ok, h1) = malloc h in
      if \<not> ok then Inr (None, h1)
      else
        bindc (get_estabs out h1) (\<lambda>(tes, h2).
          Inr (case tes of
                 None \<Rightarrow> (None, free_estab_tcps (Some []) h2)
               | Some ts \<Rightarrow>
                   (Some (map (\<lambda>te. te\<lparr>is_client := (if is_listen_port (ip_port (local te)) tlps then 0 else 1)\<rparr>) ts), h2))))"

subsection \<open>Endpoints\<close>

definition new_tcp_endpoint ::
  "(bool \<Rightarrow> cstr \<Rightarrow> 128 word option) \<Rightarrow> endpoint_type \<Rightarrow> u32 \<Rightarrow> int \<Rightarrow> cstr \<Rightarrow> u32 \<Rightarrow> heap \<Rightarrow> tcp_endpoint option \<times> heap" where
  "new_tcp_endpoint inet_pton ty port v4 ipstr pid h =
     (let (ok, h1) = malloc h in
      if \<not> ok then (None, h1)
      else
        (let addr = (case inet_pton (v4 = 1) ipstr of None \<Rightarrow> 0 | Some a \<Rightarrow> a);
             family = (if v4 = 1 then EP_ADDR_IPV4 else EP_ADDR_IPV6)
         in (Some (case ty of
                     EP_TYPE_LISTEN \<Rightarrow> \<lparr>ep_type = ty, ep_addr_type = EP_ADDR_UNSET, ep_port = port, ep_pid = pid, ep_addr = 0\<rparr>
                   | EP_TYPE_IP \<Rightarrow> \<lparr>ep_type = ty, ep_addr_type = family, ep_port = 0, ep_pid = pid, ep_addr = addr\<rparr>
                   | EP_TYPE_IP_PORT \<Rightarrow> \<lparr>ep_type = ty, ep_addr_type = family, ep_port = port, ep_pid = pid, ep_addr = addr\<rparr>),
             h1)))"

definition add_tcp_endpoint :: "tcp_endpoint list \<Rightarrow> tcp_endpoint \<Rightarrow> tcp_endpoint list \<times> int" where
  "add_tcp_endpoint teps tep = (if TCP_ENDPOINT_MAX \<le> length teps then (teps, - 1) else (teps @ [tep], 0))"

definition put_endpoint :: "tcp_endpoint option \<times> heap \<Rightarrow> tcp_endpoint list \<Rightarrow> tcp_endpoint list \<times> heap" where
  "put_endpoint r teps =
     (case r of
        (None, h) \<Rightarrow> (teps, h)
      | (Some tep, h) \<Rightarrow> (let (teps', ret) = add_tcp_endpoint teps tep in (teps', if ret < 0 then free h else h)))"

text \<open>The endpoint of a listening port, and of one process of a connection.\<close>

definition get_tcp_endpoints ::
  "(bool \<Rightarrow> cstr \<Rightarrow> 128 word option) \<Rightarrow> tcp_listen_ports \<Rightarrow> tcp_estab list \<Rightarrow> heap \<Rightarrow> tcp_endpoint list option \<times> heap" where
  "get_tcp_endpoints inet_pton tlps tes h =
     (let (ok, h1) = malloc h in
      if \<not> ok then (None, h1)
      else
        (let (teps, h2) = foldl (\<lambda>(teps, h) t.
                 put_endpoint (new_tcp_endpoint inet_pton EP_TYPE_LISTEN (lp_port t) 0 [] (lp_pid t) h) teps)
               ([], h1) (tlp tlps);
             (teps', h3) = foldl (\<lambda>(teps, h) (te, cm).
                 put_endpoint (if is_client te \<noteq> 0
                   then new_tcp_endpoint inet_pton EP_TYPE_IP 0 (ipv4 (local te)) (ip (local te)) (ec_pid cm) h
                   else new_tcp_endpoint inet_pton EP_TYPE_IP_PORT (ip_port (local te)) (ipv4 (local te)) (ip (local te))
                          (ec_pid cm) h) teps)
               (teps, h2) (concat (map (\<lambda>te. map (Pair te) (te_comm te)) tes))
         in (Some teps', h3)))"

definition free_tcp_endpoints :: "tcp_endpoint list option \<Rightarrow> heap \<Rightarrow> heap" where
  "free_tcp_endpoints teps h = (case teps of None \<Rightarrow> h | Some ts \<Rightarrow> free (free_n (length ts) h))"

section \<open>The blocks of the tables\<close>

lemma get_estab_comm_heap:
  "case get_estab_comm s h of
     Inl e \<Rightarrow> e = NullDeref \<and> False \<in> set (mscript h)
   | Inr (cm, h') \<Rightarrow> grown (if cm = None then 0 else 1) h h'"
  using grown_malloc [of h]
  by (fastforce simp: get_estab_comm_def split: option.splits prod.splits sum.splits if_splits)

lemma take_comm_heap:
  "case take_comm s te h of
     Inl e \<Rightarrow> e = NullDeref \<and> False \<in> set (mscript h)
   | Inr (te', h') \<Rightarrow> grown (int (length te') - int (length te)) h h'
       \<and> (length te \<le> TCP_ESTAB_COMM_MAX \<longrightarrow> length te' \<le> TCP_ESTAB_COMM_MAX)"
  using get_estab_comm_heap [where s = s and h = h]
  by (auto simp: take_comm_def add_estab_comm_def Let_def split: sum.splits option.splits prod.splits)

lemma take_comms_heap:
  "case take_comms s te h of
     Inl e \<Rightarrow> e = NullDeref \<and> False \<in> set (mscript h)
   | Inr (te', h') \<Rightarrow> grown (int (length te') - int (length te)) h h'
       \<and> (length te \<le> TCP_ESTAB_COMM_MAX \<longrightarrow> length te' \<le> TCP_ESTAB_COMM_MAX)"
proof (induction s te h rule: take_comms.induct)
  case (1 s te h)
  show ?case
  proof (cases "get_next_str_offset s '',(''")
    case None
    then show ?thesis using take_comm_heap [where s = s and te = te and h = h] by (simp add: take_comms.simps [of s])
  next
    case (Some off)
    note here = take_comm_heap [where s = "take off s" and te = te and h = h]
    show ?thesis
    proof (cases "take_comm (take off s) te h")
      case (Inl e)
      with Some here show ?thesis by (simp add: take_comms.simps [of s])
    next
      case (Inr r)
      obtain te1 h1 where r: "r = (te1, h1)" by (cases r)
      have "case take_comms (drop (off + 1) s) te1 h1 of
          Inl e \<Rightarrow> e = NullDeref \<and> False \<in> set (mscript h1)
        | Inr (te', h') \<Rightarrow> grown (int (length te') - int (length te1)) h1 h'
            \<and> (length te1 \<le> TCP_ESTAB_COMM_MAX \<longrightarrow> length te' \<le> TCP_ESTAB_COMM_MAX)"
        using 1 Some by simp
      with Some here Inr r show ?thesis
        by (auto simp: take_comms.simps [of s] elim: grown_trans_eq grown_script split: sum.splits)
    qed
  qed
qed

definition te_blocks :: "tcp_estab list \<Rightarrow> int" where
  "te_blocks tes = sum_list (map (\<lambda>te. 1 + int (length (te_comm te))) tes)"

lemma free_estabs_heap [simp]:
  "mlive (free_estab_tcps (Some tes) h) = mlive h - te_blocks tes - 1"
proof -
  have "mlive (foldl (\<lambda>h te. free_estab te h) h tes) = mlive h - te_blocks tes"
    by (induction tes arbitrary: h) (auto simp: te_blocks_def free_estab_def)
  then show ?thesis by (simp add: free_estab_tcps_def)
qed

lemma get_estab_heap:
  "case get_estab s h of
     Inl e \<Rightarrow> e = NullDeref \<and> False \<in> set (mscript h)
   | Inr (None, h') \<Rightarrow> h' = h
   | Inr (Some te, h') \<Rightarrow> grown (int (length (te_comm te))) h h' \<and> length (te_comm te) \<le> TCP_ESTAB_COMM_MAX"
  using take_comms_heap [where s = "butlast (the (get_sub_str s (Some ''@users:('') None LINE_BUF_LEN))" and te = "[]" and h = h]
  by (auto simp: get_estab_def split: option.splits sum.splits prod.splits)

definition estabs_ok :: "tcp_estab list \<Rightarrow> bool" where
  "estabs_ok tes \<longleftrightarrow> length tes \<le> TCP_ESTAB_MAX \<and> (\<forall>te \<in> set tes. length (te_comm te) \<le> TCP_ESTAB_COMM_MAX)"

lemma get_estabs_loop_heap:
  "estabs_ok tes \<Longrightarrow>
   case get_estabs_loop ls tes h of
     Inl e \<Rightarrow> e = NullDeref \<and> False \<in> set (mscript h)
   | Inr (tes', h') \<Rightarrow> grown (te_blocks tes' - te_blocks tes) h h' \<and> estabs_ok tes'"
proof (induction ls arbitrary: tes h)
  case (Cons l ls)
  obtain ok h1 where m: "malloc h = (ok, h1)" by (cases "malloc h")
  note g = grown_malloc [OF m]
  show ?case
  proof (cases ok)
    case False
    with m g Cons.prems show ?thesis by simp
  next
    case True
    note here = get_estab_heap [where s = l and h = h1]
    show ?thesis
    proof (cases "get_estab l h1")
      case (Inl e)
      with True m g here show ?thesis by (auto dest: grown_script)
    next
      case (Inr r)
      obtain te h2 where r: "r = (te, h2)" by (cases r)
      show ?thesis
      proof (cases te)
        case None
        with Inr r here g True have f: "grown 0 h (free h2)" by simp
        have "grown n (free h2) h' \<Longrightarrow> grown n h h'" for n h' using grown_trans [OF f] by simp
        moreover have "False \<in> set (mscript h)" if "False \<in> set (mscript h2)"
          using grown_script [OF f] that by simp
        ultimately show ?thesis
          using Cons.IH [OF Cons.prems, where h = "free h2"] None Inr r m True
          by (auto split: sum.splits)
      next
        case (Some e)
        define tes' where "tes' = fst (add_estab tes e)"
        define h3 where "h3 = (if snd (add_estab tes e) < 0 then free_estab e h2 else h2)"
        from Inr r here Some have e: "grown (int (length (te_comm e))) h1 h2" "length (te_comm e) \<le> TCP_ESTAB_COMM_MAX"
          by simp_all
        have "grown (te_blocks tes' - te_blocks tes) h h3" "estabs_ok tes'"
          using grown_trans [OF conjunct1 [OF g] e(1)] True Cons.prems e(2)
          by (auto simp: tes'_def h3_def add_estab_def free_estab_def te_blocks_def estabs_ok_def add.commute)
        then show ?thesis
          using Cons.IH [where tes = tes' and h = h3] Inr r m True Some
          by (auto simp: tes'_def h3_def Let_def elim: grown_trans_eq grown_script split: sum.splits prod.splits)
      qed
    qed
  qed
qed simp

lemma get_estab_tcps_heap:
  "case get_estab_tcps out tlps h of
     Inl e \<Rightarrow> e = NullDeref \<and> False \<in> set (mscript h)
   | Inr (tes, h') \<Rightarrow> mlive (free_estab_tcps tes h') = mlive h \<and> (case tes of None \<Rightarrow> True | Some ts \<Rightarrow> estabs_ok ts)"
proof -
  obtain ok h1 where m: "malloc h = (ok, h1)" by (cases "malloc h")
  note g = grown_malloc [OF m]
  have map: "te_blocks [] = 0" "estabs_ok (map (\<lambda>te. te\<lparr>is_client := f te\<rparr>) ts) = estabs_ok ts"
    "te_blocks (map (\<lambda>te. te\<lparr>is_client := f te\<rparr>) ts) = te_blocks ts" for f and ts :: "tcp_estab list"
    by (simp_all add: estabs_ok_def te_blocks_def comp_def)
  show ?thesis
  proof (cases "ok \<and> out \<noteq> None")
    case False
    with m g show ?thesis
      by (auto simp: get_estab_tcps_def get_estabs_def free_estab_tcps_def grown_def Let_def split: option.splits)
  next
    case True
    then obtain o' where o: "out = Some o'" by auto
    have "estabs_ok []" by (simp add: estabs_ok_def)
    from get_estabs_loop_heap [OF this, where ls = "fgets_chunks LINE_BUF_LEN o'" and h = h1]
    show ?thesis
      using True m g o
      by (auto simp: get_estab_tcps_def get_estabs_def map grown_def Let_def split: sum.splits)
  qed
qed

lemma get_tlps_heap:
  "length (tlp tlps) \<le> LTP_MAX_NUM \<Longrightarrow> foldl get_tlps_line (tlps, h) ls = (tlps', h')
     \<Longrightarrow> grown (int (length (tlp tlps')) - int (length (tlp tlps))) h h' \<and> length (tlp tlps') \<le> LTP_MAX_NUM"
proof (induction ls arbitrary: tlps h)
  case (Cons l ls)
  obtain t1 h1 where 1: "get_tlps_line (tlps, h) l = (t1, h1)" by (cases "get_tlps_line (tlps, h) l")
  obtain ok h0 where m: "malloc h = (ok, h0)" by (cases "malloc h")
  have "grown (int (length (tlp t1)) - int (length (tlp tlps))) h h1 \<and> length (tlp t1) \<le> LTP_MAX_NUM"
    using 1 grown_malloc [OF m] m Cons.prems(1)
    by (auto simp: get_tlps_line_def new_tlp_def add_tlp_def Let_def split: option.splits if_splits)
  moreover have "foldl get_tlps_line (t1, h1) ls = (tlps', h')" using Cons.prems(2) 1 by simp
  ultimately show ?case using Cons.IH [of t1 h1] by (auto elim: grown_trans_eq)
qed auto

lemma get_listen_ports_heap:
  "get_listen_ports out h = (r, h') \<Longrightarrow>
     (case r of None \<Rightarrow> mlive h' = mlive h
      | Some tlps \<Rightarrow> mlive (free_listen_ports tlps h') = mlive h \<and> length (tlp tlps) \<le> LTP_MAX_NUM)"
  using grown_malloc [of h] get_tlps_heap [of no_tlps]
  by (fastforce simp: get_listen_ports_def free_listen_ports_def no_tlps_def grown_def Let_def
        split: prod.splits if_splits option.splits)

lemma endpoints_heap:
  assumes step: "\<And>teps h x. \<exists>ty port v4 ipstr pid. f (teps, h) x = put_endpoint (new_tcp_endpoint pton ty port v4 ipstr pid h) teps"
  shows "length teps \<le> TCP_ENDPOINT_MAX \<Longrightarrow> foldl f (teps, h) xs = (teps', h')
     \<Longrightarrow> grown (int (length teps') - int (length teps)) h h' \<and> length teps' \<le> TCP_ENDPOINT_MAX"
proof (induction xs arbitrary: teps h)
  case (Cons x xs)
  obtain t1 h1 where 1: "f (teps, h) x = (t1, h1)" by (cases "f (teps, h) x")
  obtain ok h0 where m: "malloc h = (ok, h0)" by (cases "malloc h")
  obtain ty port v4 ipstr pid where "f (teps, h) x = put_endpoint (new_tcp_endpoint pton ty port v4 ipstr pid h) teps"
    using step by blast
  with 1 grown_malloc [OF m] m Cons.prems(1)
  have "grown (int (length t1) - int (length teps)) h h1 \<and> length t1 \<le> TCP_ENDPOINT_MAX"
    by (auto simp: new_tcp_endpoint_def put_endpoint_def add_tcp_endpoint_def Let_def split: if_splits)
  moreover have "foldl f (t1, h1) xs = (teps', h')" using Cons.prems(2) 1 by simp
  ultimately show ?case using Cons.IH [of t1 h1] by (auto elim: grown_trans_eq)
qed auto

lemma get_tcp_endpoints_heap:
  assumes "get_tcp_endpoints pton tlps tes h = (teps, h')"
  shows "mlive (free_tcp_endpoints teps h') = mlive h
    \<and> (case teps of None \<Rightarrow> True | Some ts \<Rightarrow> length ts \<le> TCP_ENDPOINT_MAX)"
proof -
  obtain ok h1 where m: "malloc h = (ok, h1)" by (cases "malloc h")
  define f where "f = (\<lambda>(teps, h) (t :: tcp_listen_port).
      put_endpoint (new_tcp_endpoint pton EP_TYPE_LISTEN (lp_port t) 0 [] (lp_pid t) h) teps)"
  define g where "g = (\<lambda>(teps, h) (te :: tcp_estab, cm :: tcp_estab_comm).
      put_endpoint (if is_client te \<noteq> 0
        then new_tcp_endpoint pton EP_TYPE_IP 0 (ipv4 (local te)) (ip (local te)) (ec_pid cm) h
        else new_tcp_endpoint pton EP_TYPE_IP_PORT (ip_port (local te)) (ipv4 (local te)) (ip (local te)) (ec_pid cm) h) teps)"
  obtain t2 h2 where 2: "foldl f ([], h1) (tlp tlps) = (t2, h2)" by (cases "foldl f ([], h1) (tlp tlps)")
  obtain t3 h3 where 3: "foldl g (t2, h2) (concat (map (\<lambda>te. map (Pair te) (te_comm te)) tes)) = (t3, h3)"
    by (cases "foldl g (t2, h2) (concat (map (\<lambda>te. map (Pair te) (te_comm te)) tes))")
  have s2: "grown (int (length t2) - int 0) h1 h2 \<and> length t2 \<le> TCP_ENDPOINT_MAX"
    using endpoints_heap [where f = f and pton = pton, OF _ _ 2] by (simp add: f_def) blast
  have s3: "grown (int (length t3) - int (length t2)) h2 h3 \<and> length t3 \<le> TCP_ENDPOINT_MAX"
  proof (rule endpoints_heap [where f = g and pton = pton, OF _ _ 3])
    show "\<exists>ty port v4 ipstr pid. g (teps, h) x = put_endpoint (new_tcp_endpoint pton ty port v4 ipstr pid h) teps"
      for teps h x
      by (cases x; cases "is_client (fst x) \<noteq> 0"; simp add: g_def; blast)
  qed (use s2 in simp)
  show ?thesis
    using assms grown_malloc [OF m] m 2 3 s2 s3
    by (auto simp: get_tcp_endpoints_def f_def [symmetric] g_def [symmetric] free_tcp_endpoints_def grown_def Let_def
          split: if_splits)
qed

text \<open>Whatever \<open>ss\<close> prints, the tables have at most 1024 ports, 1024 connections with 32 processes each and 1024 endpoints, and
  releasing them releases every block that was allocated for them; the only failure is the unchecked \<open>malloc\<close>
  of a process of a connection.\<close>

theorem ss_tables_balanced:
  "(case get_listen_ports lout h of
      (None, h') \<Rightarrow> mlive h' = mlive h
    | (Some tlps, h') \<Rightarrow> mlive (free_listen_ports tlps h') = mlive h \<and> length (tlp tlps) \<le> LTP_MAX_NUM)
   \<and> (case get_estab_tcps eout ports h of
        Inl e \<Rightarrow> e = NullDeref \<and> False \<in> set (mscript h)
      | Inr (tes, h') \<Rightarrow> mlive (free_estab_tcps tes h') = mlive h
          \<and> (case tes of None \<Rightarrow> True | Some ts \<Rightarrow> length ts \<le> TCP_ESTAB_MAX
               \<and> (\<forall>te \<in> set ts. length (te_comm te) \<le> TCP_ESTAB_COMM_MAX)))
   \<and> (case get_tcp_endpoints pton ports conns h of
        (teps, h') \<Rightarrow> mlive (free_tcp_endpoints teps h') = mlive h
          \<and> (case teps of None \<Rightarrow> True | Some ts \<Rightarrow> length ts \<le> TCP_ENDPOINT_MAX))"
  using get_listen_ports_heap [of lout h] get_tcp_endpoints_heap [of pton ports conns h]
    get_estab_tcps_heap [where out = eout and tlps = ports and h = h]
  by (auto simp: estabs_ok_def split: prod.splits sum.splits option.splits)

end
