(* ===== verification/TcpLines.thy ===== *)
theory TcpLines
  imports TcpLib
begin

section \<open>What is read from the lines of ss\<close>

text \<open>
  The lines that \<open>ss\<close> and \<open>awk\<close> print for given sockets, and the tables \<open>lib/tcp.c\<close> makes of them: every
  connection comes back with its addresses and its processes, but a listening port that several processes
  share is left out, so the connections that were accepted on it count as those of a client.
\<close>

subsection \<open>The lines\<close>

type_synonym process = "cstr \<times> nat \<times> nat"
type_synonym address = "bool \<times> cstr \<times> nat"

definition proc_text :: "process \<Rightarrow> cstr" where
  "proc_text = (\<lambda>(comm, pid, fd).
     ''(\"'' @ comm @ ''\",pid='' @ show_nat pid @ '',fd='' @ show_nat fd @ '')'')"

definition users_text :: "process list \<Rightarrow> cstr" where
  "users_text ps = ''users:('' @ join CHR '','' (map proc_text ps) @ '')''"

definition addr_text :: "address \<Rightarrow> cstr" where
  "addr_text = (\<lambda>(v6, i, p). (if v6 then ''['' @ i @ '']'' else i) @ '':'' @ show_nat p)"

definition listen_line :: "address \<times> process list \<Rightarrow> cstr" where
  "listen_line = (\<lambda>(a, ps). addr_text a @ users_text ps @ [CHR 0x0A])"

definition estab_line :: "address \<times> address \<times> process list \<Rightarrow> cstr" where
  "estab_line = (\<lambda>(l, r, ps). addr_text l @ ''|'' @ addr_text r @ ''@'' @ users_text ps @ [CHR 0x0A])"

definition marks :: "char set" where
  "marks = set ''\",()=|@:[]'' \<union> {CHR 0x0A}"

definition process_ok :: "process \<Rightarrow> bool" where
  "process_ok = (\<lambda>(comm, pid, fd). comm \<noteq> [] \<and> length comm < TASK_COMM_LEN \<and> set comm \<inter> marks = {}
     \<and> pid < 2 ^ 31 \<and> fd < 2 ^ 31)"

text \<open>An address: only the one of IPv6 has colons; the letter that begins the word \<open>users\<close> does not occur.\<close>

definition address_ok :: "address \<Rightarrow> bool" where
  "address_ok = (\<lambda>(v6, i, p). i \<noteq> [] \<and> set i \<inter> (set ''\"(),=|@[]u'' \<union> {CHR 0x0A}) = {} \<and> (v6 \<or> CHR '':'' \<notin> set i)
     \<and> p < 65536 \<and> length i < 100)"

lemma digits_free [simp]: "\<not> is_digit ch \<Longrightarrow> ch \<notin> set (show_nat n)"
  using show_nat_digits by blast

lemma no_digit [simp]:
  "\<not> is_digit CHR ''p''" "\<not> is_digit CHR ''f''" "\<not> is_digit CHR ''d''" "\<not> is_digit CHR ''u''"
  "\<not> is_digit CHR '',''" "\<not> is_digit CHR ''(''" "\<not> is_digit CHR '')''" "\<not> is_digit CHR ''=''"
  "\<not> is_digit CHR ''|''" "\<not> is_digit CHR ''@''" "\<not> is_digit CHR '':''" "\<not> is_digit CHR ''[''"
  "\<not> is_digit CHR '']''" "\<not> is_digit CHR 0x0A" "\<not> is_digit CHR 0x22"
  by (simp_all add: is_digit_def)

lemma show_nat_all_digits [simp]: "list_all is_digit (show_nat n)"
  using show_nat_digits by (simp add: list_all_iff)

lemma show_nat_short: "n < 2 ^ 31 \<Longrightarrow> length (show_nat n) \<le> 10"
  by (rule show_nat_length) simp_all

lemma proc_length: "process_ok p \<Longrightarrow> length (proc_text p) < 60"
proof -
  assume ok: "process_ok p"
  obtain comm pid fd where p: "p = (comm, pid, fd)" by (cases p)
  with ok have "length comm < 16" "length (show_nat pid) \<le> 10" "length (show_nat fd) \<le> 10"
    using show_nat_short by (simp_all add: process_ok_def TASK_COMM_LEN_def)
  with p show ?thesis by (simp add: proc_text_def)
qed

subsection \<open>Substrings\<close>

lemma get_sub_strI:
  assumes "s = a @ st @ x @ b" "str_pos s st = Some (length a)"
    and "str_pos s en = Some (length a + length st + length x)" "x \<noteq> []" "length x < n"
  shows "get_sub_str s (Some st) (Some en) n = Some x"
  using assms by (simp add: get_sub_str_def)

lemma get_sub_str_startI:
  assumes "s = x @ b" "str_pos s en = Some (length x)" "x \<noteq> []" "length x < n"
  shows "get_sub_str s None (Some en) n = Some x"
  using assms by (simp add: get_sub_str_def)

lemma get_sub_str_endI:
  assumes "s = a @ st @ x" "str_pos s st = Some (length a)" "x \<noteq> []" "length x < n"
  shows "get_sub_str s (Some st) None n = Some x"
  using assms by (simp add: get_sub_str_def)

text \<open>A process of a connection, also the last one with the parenthesis that closes the list.\<close>

lemma get_comm_text:
  assumes ok: "process_ok (comm, pid, fd)" and tail: "tail = [] \<or> tail = '')''" and h: "mscript h = []"
  shows "get_estab_comm (proc_text (comm, pid, fd) @ tail) h
    = Inr (Some \<lparr>ec_comm = comm, ec_pid = of_nat pid, ec_fd = of_nat fd\<rparr>, h\<lparr>mlive := mlive h + 1\<rparr>)"
proof -
  let ?q = "CHR 0x22"
  define S where "S = proc_text (comm, pid, fd) @ tail"
  from ok have c: "comm \<noteq> []" "length comm < 16" "?q \<notin> set comm" "CHR '','' \<notin> set comm" "CHR ''='' \<notin> set comm"
      "CHR '')'' \<notin> set comm" "CHR ''('' \<notin> set comm" and n: "pid < 2 ^ 31" "fd < 2 ^ 31"
    by (auto simp: process_ok_def marks_def TASK_COMM_LEN_def)
  obtain c0 cs where comm: "comm = c0 # cs" "c0 \<noteq> CHR '',''" using c by (cases comm) auto
  have len: "length S < 512" using proc_length [OF ok] tail by (auto simp: S_def)
  have S: "S = CHR ''('' # ?q # comm @ ?q # CHR '','' # ''pid='' @ show_nat pid @ CHR '','' # ''fd='' @ show_nat fd @ CHR '')'' # tail"
    by (simp add: S_def proc_text_def)
  have comm_pos: "str_pos (comm @ r) ''\",'' = map_option ((+) (length comm)) (str_pos r ''\",'')" for r
    using c by (simp add: str_pos_free)
  have "get_sub_str S (Some ''(\"'') (Some ''\",'') 16 = Some comm"
    by (rule get_sub_strI [where a = "[]" and b = "?q # CHR '','' # ''pid='' @ show_nat pid @ CHR '','' # ''fd='' @ show_nat fd @ CHR '')'' # tail"])
      (use c comm(2) in \<open>simp_all add: S comm_pos\<close>, simp add: comm(1))
  moreover have "get_sub_str S (Some ''pid='') (Some '',fd'') 32 = Some (show_nat pid)"
    by (rule get_sub_strI [where a = "CHR ''('' # ?q # comm @ [?q, CHR '','']" and b = "'',fd='' @ show_nat fd @ CHR '')'' # tail"])
      (use c show_nat_short [OF n(1)] str_pos_skip [of "CHR ''=''" "''pid=''" "CHR ''('' # ?q # comm" ?q]
        in \<open>simp_all add: S str_pos_free\<close>)
  moreover have "get_sub_str S (Some '',fd='') (Some '')'') 32 = Some (show_nat fd)"
    by (rule get_sub_strI [where a = "CHR ''('' # ?q # comm @ ?q # CHR '','' # ''pid='' @ show_nat pid" and b = "CHR '')'' # tail"])
      (use c show_nat_short [OF n(2)] in \<open>simp_all add: S str_pos_free\<close>)
  ultimately show ?thesis
    unfolding S_def [symmetric]
    using len h n by (simp add: get_estab_comm_def TASK_COMM_LEN_def PID_LEN_def FID_LEN_def LINE_BUF_LEN_def atoi_show_nat)
qed

subsection \<open>A connection\<close>

definition comm_of :: "process \<Rightarrow> tcp_estab_comm" where
  "comm_of = (\<lambda>(comm, pid, fd). \<lparr>ec_comm = comm, ec_pid = of_nat pid, ec_fd = of_nat fd\<rparr>)"

definition ip_of :: "address \<Rightarrow> ip_addr" where
  "ip_of = (\<lambda>(v6, i, p). \<lparr>ip = i, ip_port = of_nat p, ipv4 = (if v6 then 0 else 1)\<rparr>)"

lemma proc_no_start:
  assumes "process_ok p"
  shows "str_pos (proc_text p @ r) '',('' = map_option ((+) (length (proc_text p))) (str_pos r '',('')"
proof -
  obtain comm pid fd where p: "p = (comm, pid, fd)" by (cases p)
  with assms have "CHR '','' \<notin> set comm" by (auto simp: process_ok_def marks_def)
  then show ?thesis
    by (cases "str_pos r '',(''") (simp_all add: p proc_text_def str_pos_free)
qed

lemma take_comm_text:
  assumes "process_ok p" "tail = [] \<or> tail = '')''" "mscript h = []" "te = take TCP_ESTAB_COMM_MAX te0"
  shows "\<exists>h'. take_comm (proc_text p @ tail) te h = Inr (take TCP_ESTAB_COMM_MAX (te0 @ [comm_of p]), h') \<and> mscript h' = []"
proof -
  obtain comm pid fd where p: "p = (comm, pid, fd)" by (cases p)
  show ?thesis
    using get_comm_text [OF assms(1) [unfolded p] assms(2,3)] assms(3,4)
    by (auto simp: take_comm_def add_estab_comm_def p comm_of_def)
qed

lemma take_comms_text:
  assumes "ps \<noteq> []" "list_all process_ok ps" "mscript h = []"
  shows "\<exists>h'. take_comms (join CHR '','' (map proc_text ps) @ '')'') (take TCP_ESTAB_COMM_MAX te0) h
      = Inr (take TCP_ESTAB_COMM_MAX (te0 @ map comm_of ps), h') \<and> mscript h' = []"
  using assms
proof (induction ps arbitrary: te0 h)
  case (Cons p ps)
  then have p: "process_ok p" by simp
  show ?case
  proof (cases ps)
    case Nil
    have "get_next_str_offset (proc_text p @ '')'') '',('' = None"
      by (simp add: get_next_str_offset_def proc_no_start [OF p])
    with take_comm_text [OF p _ Cons.prems(3) refl, of "'')''" te0] Nil
    show ?thesis by (subst take_comms.simps) simp
  next
    case (Cons p2 ps')
    let ?rest = "join CHR '','' (map proc_text ps) @ '')''"
    have pos: "0 < length (proc_text p)" by (simp add: proc_text_def split: prod.splits)
    have tx: "join CHR '','' (map proc_text (p # ps)) @ '')'' = proc_text p @ CHR '','' # ?rest"
      using Cons by simp
    have "\<exists>r. ?rest = CHR ''('' # r"
      using Cons by (cases p2; cases ps') (simp_all add: proc_text_def)
    then obtain r where r: "?rest = CHR ''('' # r" by blast
    have "str_pos (CHR '','' # ?rest) '',('' = Some 0" unfolding r by simp
    then have off: "get_next_str_offset (proc_text p @ CHR '','' # ?rest) '',('' = Some (length (proc_text p))"
      using pos by (simp add: get_next_str_offset_def proc_no_start [OF p])
    obtain h1 where 1: "take_comm (proc_text p) (take TCP_ESTAB_COMM_MAX te0) h
        = Inr (take TCP_ESTAB_COMM_MAX (te0 @ [comm_of p]), h1)" "mscript h1 = []"
      using take_comm_text [OF p _ Cons.prems(3) refl, of "[]" te0] by auto
    have "\<exists>h'. take_comms ?rest (take TCP_ESTAB_COMM_MAX (te0 @ [comm_of p])) h1
        = Inr (take TCP_ESTAB_COMM_MAX ((te0 @ [comm_of p]) @ map comm_of ps), h') \<and> mscript h' = []"
      by (rule Cons.IH) (use Cons.prems Cons 1 in auto)
    then show ?thesis
      unfolding tx by (subst take_comms.simps) (simp add: off 1)
  qed
qed simp

lemma addr_length: "address_ok a \<Longrightarrow> length (addr_text a) < 115"
proof -
  assume ok: "address_ok a"
  obtain v6 i p where a: "a = (v6, i, p)" by (cases a)
  with ok have "length i < 100" "length (show_nat p) \<le> 5"
    using show_nat_length [of 5 p] by (simp_all add: address_ok_def)
  with a show ?thesis by (simp add: addr_text_def)
qed

lemma get_addr_text:
  assumes ok: "address_ok a"
  shows "get_estab_addr (addr_text a) = Some (ip_of a)"
proof -
  obtain v6 i p where a: "a = (v6, i, p)" by (cases a)
  define b where "b = (if v6 then ''['' @ i @ '']'' else i)"
  have tx: "addr_text a = b @ CHR '':'' # show_nat p" by (simp add: addr_text_def a b_def)
  from ok a have i: "i \<noteq> []" "CHR ''['' \<notin> set i" "CHR '']'' \<notin> set i" "length i < 100" and p: "p < 65536"
    by (auto simp: address_ok_def)
  have pl: "length (show_nat p) \<le> 5" using show_nat_length [of 5 p] p by simp
  have "strrchr (b @ CHR '':'' # show_nat p) CHR '':'' = Some (length b)"
    by (rule strrchr_found) simp
  moreover have "(case erase_square_brackets b IP_STR_LEN of Some x \<Rightarrow> (x, 0) | None \<Rightarrow> (b, 1)) = (i, if v6 then 0 else 1 :: int)"
  proof (cases v6)
    case True
    have "get_sub_str b (Some ''['') (Some '']'') LINE_BUF_LEN = Some i"
      by (rule get_sub_strI [where a = "[]" and b = "'']''"])
        (use i True in \<open>simp_all add: b_def str_pos_free LINE_BUF_LEN_def\<close>)
    with True i show ?thesis
      by (simp add: erase_square_brackets_def b_def strchr_found [of _ "CHR ''['' # i" "[]", simplified]
            strchr_found [of _ "[]", simplified] IP_STR_LEN_def)
  next
    case False
    with i show ?thesis by (simp add: erase_square_brackets_def b_def)
  qed
  moreover have "b \<noteq> []" "ip_of a = \<lparr>ip = i, ip_port = of_nat p, ipv4 = (if v6 then 0 else 1)\<rparr>"
    using i(1) by (simp_all add: b_def ip_of_def a)
  ultimately show ?thesis
    unfolding tx using pl p by (simp add: get_estab_addr_def PORT_LEN_def atoi_show_nat Let_def)
qed

lemma estab_line_pos:
  assumes "address_ok l" "address_ok r"
  shows "str_pos (estab_line (l, r, ps)) ''|'' = Some (length (addr_text l))"
    and "str_pos (estab_line (l, r, ps)) ''@'' = Some (length (addr_text l) + 1 + length (addr_text r))"
    and "str_pos (estab_line (l, r, ps)) ''@users:('' = Some (length (addr_text l) + 1 + length (addr_text r))"
proof -
  have free: "CHR ''|'' \<notin> set (addr_text a)" "CHR ''@'' \<notin> set (addr_text a)" if "address_ok a" for a
    using that by (auto simp: address_ok_def addr_text_def split: prod.splits)
  show "str_pos (estab_line (l, r, ps)) ''|'' = Some (length (addr_text l))"
    "str_pos (estab_line (l, r, ps)) ''@'' = Some (length (addr_text l) + 1 + length (addr_text r))"
    "str_pos (estab_line (l, r, ps)) ''@users:('' = Some (length (addr_text l) + 1 + length (addr_text r))"
    using free assms by (simp_all add: estab_line_def users_text_def str_pos_free)
qed

lemma get_estab_text:
  assumes ok: "address_ok l" "address_ok r" "ps \<noteq> []" "list_all process_ok ps"
    and len: "length (estab_line (l, r, ps)) < LINE_BUF_LEN" and h: "mscript h = []"
  shows "\<exists>h'. get_estab (estab_line (l, r, ps)) h = Inr (Some \<lparr>is_client = 0, local = ip_of l, remote = ip_of r,
      te_comm = take TCP_ESTAB_COMM_MAX (map comm_of ps)\<rparr>, h') \<and> mscript h' = []"
proof -
  let ?s = "estab_line (l, r, ps)" and ?c = "join CHR '','' (map proc_text ps) @ '')''"
  note pos = estab_line_pos [OF ok(1,2), of ps]
  have ne: "addr_text l \<noteq> []" "addr_text r \<noteq> []" by (simp_all add: addr_text_def split: prod.splits)
  have "get_sub_str ?s None (Some ''|'') IP_STR_LEN = Some (addr_text l)"
    by (rule get_sub_str_startI [OF _ pos(1)])
      (use addr_length [OF ok(1)] ne in \<open>auto simp: estab_line_def IP_STR_LEN_def\<close>)
  moreover have "get_sub_str ?s (Some ''|'') (Some ''@'') IP_STR_LEN = Some (addr_text r)"
    by (rule get_sub_strI [OF _ pos(1)])
      (use addr_length [OF ok(2)] ne pos(2) in \<open>auto simp: estab_line_def IP_STR_LEN_def\<close>)
  moreover have "get_sub_str ?s (Some ''@users:('') None LINE_BUF_LEN = Some (?c @ [CHR 0x0A])"
    by (rule get_sub_str_endI [where a = "addr_text l @ ''|'' @ addr_text r"])
      (use pos(3) len in \<open>simp_all add: estab_line_def users_text_def\<close>)
  moreover have "butlast (?c @ [CHR 0x0A]) = ?c" by (simp only: butlast_snoc)
  moreover obtain h' where "take_comms ?c [] h = Inr (take TCP_ESTAB_COMM_MAX (map comm_of ps), h')" "mscript h' = []"
    using take_comms_text [OF ok(3,4) h, of "[]"] by auto
  ultimately show ?thesis
    by (simp add: get_estab_def get_addr_text ok)
qed

subsection \<open>A listening port\<close>

lemma addr_free:
  assumes "address_ok a"
  shows "CHR ''('' \<notin> set (addr_text a)" "CHR 0x22 \<notin> set (addr_text a)" "CHR ''='' \<notin> set (addr_text a)"
    "CHR ''u'' \<notin> set (addr_text a)" "CHR '')'' \<notin> set (addr_text a)" "CHR '','' \<notin> set (addr_text a)"
    "CHR 0x0A \<notin> set (addr_text a)" "addr_text a \<noteq> []"
  using assms by (auto simp: address_ok_def addr_text_def split: prod.splits if_splits)

text \<open>The line of a port, with the first process taken apart.\<close>

lemma listen_line_split:
  "listen_line (a, (comm, pid, fd) # ps) =
     addr_text a @ ''users:(('' @ CHR 0x22 # comm @ CHR 0x22 # CHR '','' # ''pid='' @ show_nat pid @ CHR '','' # ''fd=''
       @ show_nat fd @ CHR '')'' # (if ps = [] then [] else CHR '','' # join CHR '','' (map proc_text ps)) @ [CHR '')'', CHR 0x0A]"
  by (cases ps) (simp_all add: listen_line_def users_text_def proc_text_def)

lemma listen_port_text:
  assumes "address_ok a" "process_ok (comm, pid, fd)" "list_all process_ok ps"
  shows "get_listen_port (listen_line (a, (comm, pid, fd) # ps)) = Some (ip_port (ip_of a))"
proof -
  obtain v6 i p where a: "a = (v6, i, p)" by (cases a)
  from assms(1) a have i: "CHR '']'' \<notin> set i" "v6 \<or> CHR '':'' \<notin> set i" "CHR ''u'' \<notin> set i" and p: "p < 65536"
    by (auto simp: address_ok_def)
  have pl: "length (show_nat p) \<le> 5" using show_nat_length [of 5 p] p by simp
  define r where "r = drop (length (addr_text a)) (listen_line (a, (comm, pid, fd) # ps))"
  have s: "listen_line (a, (comm, pid, fd) # ps) = addr_text a @ r" and r: "\<exists>r'. r = ''users:'' @ r'"
    by (simp_all add: r_def listen_line_split)
  have procs: "CHR '']'' \<notin> set (proc_text x)" if "process_ok x" for x
    using that by (auto simp: proc_text_def process_ok_def marks_def split: prod.splits)
  have "CHR '']'' \<notin> set r"
    using join_free [of "CHR '']''" "CHR '',''" "map proc_text ((comm, pid, fd) # ps)"] procs assms(2,3)
    by (auto simp: r_def listen_line_def users_text_def list_all_iff)
  then have br: "\<not> v6 \<Longrightarrow> str_pos (addr_text a @ r) '']:'' = None"
    by (intro str_pos_None [of "CHR '']''"]) (use i in \<open>auto simp: a addr_text_def\<close>)
  have start: "str_pos (addr_text a @ r) (if v6 then '']:'' else '':'') = Some (length i + (if v6 then 1 else 0))"
    using i by (cases v6) (simp_all add: a addr_text_def str_pos_free)
  have stop: "str_pos (addr_text a @ r) ''users:'' = Some (length (addr_text a))"
    using r addr_free(4) [OF assms(1)] by (auto simp: str_pos_free)
  have "get_sub_str (addr_text a @ r) (Some (if v6 then '']:'' else '':'')) (Some ''users:'') PORT_LEN = Some (show_nat p)"
    by (rule get_sub_strI [where a = "(if v6 then ''['' else []) @ i" and b = r])
      (use start stop pl in \<open>auto simp: a addr_text_def PORT_LEN_def\<close>)
  moreover have "(str_pos (addr_text a @ r) '']:'' \<noteq> None) = v6"
    using br start by (cases v6) simp_all
  moreover have "(of_nat p :: u32) < PORT_MAX_NUM"
    using p by (simp add: word_less_nat_alt unat_u32 PORT_MAX_NUM_def)
  ultimately show ?thesis
    unfolding s using p by (simp add: get_listen_port_def atoi_show_nat a ip_of_def Let_def not_le)
qed

definition tlp_of :: "address \<times> process list \<Rightarrow> tcp_listen_port" where
  "tlp_of = (\<lambda>(a, ps). \<lparr>lp_pid = ec_pid (comm_of (hd ps)), lp_port = ip_port (ip_of a),
     lp_fd = ec_fd (comm_of (hd ps)), lp_comm = ec_comm (comm_of (hd ps))\<rparr>)"

lemma new_tlp_single:
  assumes a: "address_ok a" and p: "process_ok p" and h: "mscript h = []"
  shows "\<exists>h'. new_tlp (listen_line (a, [p])) h = (Some (tlp_of (a, [p])), h') \<and> mscript h' = []"
proof -
  obtain comm pid fd where pe: "p = (comm, pid, fd)" by (cases p)
  let ?q = "CHR 0x22"
  define S where "S = listen_line (a, [p])"
  from p pe have c: "comm \<noteq> []" "length comm < 16" "?q \<notin> set comm" "CHR '','' \<notin> set comm" "CHR ''='' \<notin> set comm"
      "CHR '')'' \<notin> set comm" and n: "pid < 2 ^ 31" "fd < 2 ^ 31"
    by (auto simp: process_ok_def marks_def TASK_COMM_LEN_def)
  obtain c0 cs where comm: "comm = c0 # cs" "c0 \<noteq> CHR '',''" using c by (cases comm) auto
  have S: "S = addr_text a @ ''users:(('' @ ?q # comm @ ?q # CHR '','' # ''pid='' @ show_nat pid @ CHR '','' # ''fd=''
      @ show_nat fd @ ''))'' @ [CHR 0x0A]"
    by (simp add: S_def pe listen_line_split)
  note free = addr_free [OF a]
  have "get_sub_str S (Some ''((\"'') (Some ''\",pid'') 16 = Some comm"
    by (rule get_sub_strI [where a = "addr_text a @ ''users:''" and
          b = "?q # CHR '','' # ''pid='' @ show_nat pid @ CHR '','' # ''fd='' @ show_nat fd @ ''))'' @ [CHR 0x0A]"])
      (use c free in \<open>simp_all add: S str_pos_free\<close>, use comm in \<open>simp add: str_pos_free\<close>)
  moreover have "get_sub_str S (Some ''pid='') (Some '',fd='') 32 = Some (show_nat pid)"
    by (rule get_sub_strI [where a = "addr_text a @ ''users:(('' @ ?q # comm @ [?q, CHR '','']" and
          b = "'',fd='' @ show_nat fd @ ''))'' @ [CHR 0x0A]"])
      (use c free show_nat_short [OF n(1)] str_pos_skip [of "CHR ''=''" "''pid=''" "addr_text a @ ''users:(('' @ ?q # comm" ?q]
        in \<open>simp_all add: S str_pos_free\<close>)
  moreover have "get_sub_str S (Some ''fd='') (Some ''))'') 32 = Some (show_nat fd)"
    by (rule get_sub_strI [where a = "addr_text a @ ''users:(('' @ ?q # comm @ ?q # CHR '','' # ''pid='' @ show_nat pid @ [CHR '','']" and
          b = "''))'' @ [CHR 0x0A]"])
      (use c free show_nat_short [OF n(2)] str_pos_skip [of "CHR ''=''" "''fd=''" "addr_text a @ ''users:(('' @ ?q # comm" ?q]
        in \<open>simp_all add: S str_pos_free\<close>)
  ultimately show ?thesis
    using listen_port_text [OF a p [unfolded pe], of "[]"] atoi_show_nat [OF n(1)] atoi_show_nat [OF n(2)] h
    by (simp add: new_tlp_def get_listen_comm_def get_listen_pid_def get_listen_fd_def S_def [symmetric] pe
          TASK_COMM_LEN_def PID_LEN_def FID_LEN_def tlp_of_def comm_of_def)
      (simp add: S_def pe)
qed

text \<open>
  With a second process the text from the first descriptor to the two closing parentheses is not a number.
\<close>

lemma new_tlp_shared:
  assumes a: "address_ok a" and p: "process_ok p" and ps: "ps \<noteq> []"
  shows "new_tlp (listen_line (a, p # ps)) h = (None, h)"
proof -
  obtain comm pid fd where pe: "p = (comm, pid, fd)" by (cases p)
  let ?q = "CHR 0x22"
  define r where "r = CHR '')'' # CHR '','' # join CHR '','' (map proc_text ps) @ [CHR '')'', CHR 0x0A]"
  define b where "b = addr_text a @ ''users:(('' @ ?q # comm @ ?q # CHR '','' # ''pid='' @ show_nat pid @ CHR '','' # ''fd=''"
  define S where "S = listen_line (a, p # ps)"
  have S: "S = b @ show_nat fd @ r"
    using ps by (simp add: S_def b_def r_def pe listen_line_split)
  from p pe have c: "CHR ''='' \<notin> set comm" "CHR '')'' \<notin> set comm"
    by (auto simp: process_ok_def marks_def)
  note free = addr_free [OF a]
  have start: "str_pos S ''fd='' = Some (length b - 3)"
    using c free str_pos_skip [of "CHR ''=''" "''fd=''" "addr_text a @ ''users:(('' @ ?q # comm" ?q]
    by (simp add: S b_def str_pos_free)
  have "x \<noteq> [] \<and> \<not> list_all is_digit x" if x: "get_sub_str S (Some ''fd='') (Some ''))'') FID_LEN = Some x" for x
  proof -
    from x start obtain p2 where p2: "str_pos S ''))'' = Some p2" "length b < p2" "x = take (p2 - length b) (drop (length b) S)"
      by (auto simp: get_sub_str_def b_def split: option.splits if_splits)
    have at: "take 2 (drop p2 S) = ''))''" using str_pos_bound [OF p2(1)] by (simp add: numeral_2_eq_2)
    have dr: "drop p2 S = drop (p2 - length b) (show_nat fd @ r)" using p2(2) by (simp add: S)
    have "p2 - length b > length (show_nat fd)"
    proof (rule ccontr)
      assume "\<not> p2 - length b > length (show_nat fd)"
      then consider (digit) "p2 - length b < length (show_nat fd)" | (edge) "p2 - length b = length (show_nat fd)"
        by linarith
      then show False
      proof cases
        case digit
        then obtain d ds where "drop (p2 - length b) (show_nat fd) = d # ds" by (cases "drop (p2 - length b) (show_nat fd)") auto
        moreover from this have "is_digit d" by (metis in_set_dropD list.set_intros(1) show_nat_digits)
        ultimately show False using at dr digit by (auto simp: numeral_2_eq_2)
      next
        case edge
        with at dr show False by (simp add: r_def numeral_2_eq_2)
      qed
    qed
    then have "CHR '')'' \<in> set x"
      by (simp add: p2(3) S r_def) (cases "p2 - length b - length (show_nat fd)", simp_all)
    then show ?thesis using no_digit(7) by (metis emptyE list.set(1) list_all_iff)
  qed
  then have "get_listen_fd S = None"
    by (auto simp: get_listen_fd_def split: option.splits)
  then show ?thesis
    unfolding S_def [symmetric] by (simp add: new_tlp_def split: option.splits)
qed

subsection \<open>The whole output\<close>

definition listen_ok :: "address \<times> process list \<Rightarrow> bool" where
  "listen_ok s \<longleftrightarrow> address_ok (fst s) \<and> snd s \<noteq> [] \<and> list_all process_ok (snd s) \<and> length (listen_line s) < LINE_BUF_LEN"

definition estab_ok :: "address \<times> address \<times> process list \<Rightarrow> bool" where
  "estab_ok = (\<lambda>(l, r, ps). address_ok l \<and> address_ok r \<and> ps \<noteq> [] \<and> list_all process_ok ps
     \<and> length (estab_line (l, r, ps)) < LINE_BUF_LEN)"

text \<open>Lines that end with the only newline they have, and fit into the buffer.\<close>

lemma chunks_of_lines:
  assumes "\<And>x. x \<in> set xs \<Longrightarrow> \<exists>l. f x = l @ [CHR 0x0A] \<and> CHR 0x0A \<notin> set l \<and> length (f x) < n"
  shows "fgets_chunks n (concat (map f xs)) = map f xs"
  using assms
proof (induction xs)
  case Nil
  show ?case by (simp add: fgets_chunks.simps)
next
  case (Cons x xs)
  from Cons.prems [of x] obtain l where l: "f x = l @ [CHR 0x0A]" "CHR 0x0A \<notin> set l" "length (f x) < n" by auto
  have "fgets_chunks n (l @ [CHR 0x0A] @ concat (map f xs)) = (l @ [CHR 0x0A]) # fgets_chunks n (concat (map f xs))"
    by (rule fgets_line) (use l in auto)
  moreover have "fgets_chunks n (concat (map f xs)) = map f xs" by (rule Cons.IH) (use Cons.prems in auto)
  ultimately show ?case using l(1) by simp
qed

lemma proc_no_newline: "process_ok p \<Longrightarrow> CHR 0x0A \<notin> set (proc_text p)"
  by (auto simp: process_ok_def proc_text_def marks_def split: prod.splits)

lemma users_no_newline: "list_all process_ok ps \<Longrightarrow> CHR 0x0A \<notin> set (users_text ps)"
  using join_free [of "CHR 0x0A" "CHR '',''" "map proc_text ps"] proc_no_newline
  by (auto simp: users_text_def list_all_iff)

lemma listen_chunks:
  "list_all listen_ok ls \<Longrightarrow> fgets_chunks LINE_BUF_LEN (concat (map listen_line ls)) = map listen_line ls"
proof (rule chunks_of_lines)
  fix x assume "list_all listen_ok ls" "x \<in> set ls"
  then have ok: "listen_ok x" by (simp add: list_all_iff)
  obtain a ps where x: "x = (a, ps)" by (cases x)
  show "\<exists>t. listen_line x = t @ [CHR 0x0A] \<and> CHR 0x0A \<notin> set t \<and> length (listen_line x) < LINE_BUF_LEN"
    by (rule exI [of _ "addr_text a @ users_text ps"])
      (use ok x in \<open>simp add: listen_ok_def listen_line_def addr_free users_no_newline\<close>)
qed

lemma estab_chunks:
  "list_all estab_ok es \<Longrightarrow> fgets_chunks LINE_BUF_LEN (concat (map estab_line es)) = map estab_line es"
proof (rule chunks_of_lines)
  fix x assume "list_all estab_ok es" "x \<in> set es"
  then have ok: "estab_ok x" by (simp add: list_all_iff)
  obtain l r ps where x: "x = (l, r, ps)" by (cases x)
  show "\<exists>t. estab_line x = t @ [CHR 0x0A] \<and> CHR 0x0A \<notin> set t \<and> length (estab_line x) < LINE_BUF_LEN"
    by (rule exI [of _ "addr_text l @ ''|'' @ addr_text r @ ''@'' @ users_text ps"])
      (use ok x in \<open>simp add: estab_ok_def estab_line_def addr_free users_no_newline\<close>)
qed

definition single_ports :: "(address \<times> process list) list \<Rightarrow> u32 set" where
  "single_ports ls = set (map (\<lambda>s. ip_port (ip_of (fst s))) (filter (\<lambda>s. length (snd s) = 1) ls))"

lemma port_small: "address_ok a \<Longrightarrow> ip_port (ip_of a) < PORT_MAX_NUM"
proof -
  assume "address_ok a"
  then obtain v6 i p where a: "a = (v6, i, p)" "p < 65536" by (cases a) (auto simp: address_ok_def)
  then show ?thesis by (simp add: ip_of_def word_less_nat_alt unat_u32 PORT_MAX_NUM_def)
qed

definition tlps_inv :: "(address \<times> process list) list \<Rightarrow> tcp_listen_ports \<Rightarrow> bool" where
  "tlps_inv ls tlps \<longleftrightarrow> (\<forall>p. tlp_hash tlps p = (if p \<in> single_ports ls then 1 else 0))
     \<and> length (tlp tlps) \<le> length ls"

lemma get_tlps_line_text:
  assumes ok: "listen_ok l" and inv: "tlps_inv ls tlps" and room: "length ls < LTP_MAX_NUM" and h: "mscript h = []"
  shows "\<exists>tlps' h'. get_tlps_line (tlps, h) (listen_line l) = (tlps', h') \<and> tlps_inv (ls @ [l]) tlps' \<and> mscript h' = []"
proof -
  obtain a p ps where l: "l = (a, p # ps)"
    using ok by (cases l; cases "snd l") (auto simp: listen_ok_def)
  with ok have a: "address_ok a" and p: "process_ok p" by (auto simp: listen_ok_def)
  have single: "single_ports (ls @ [(a, qs)]) = single_ports ls \<union> (if length qs = 1 then {ip_port (ip_of a)} else {})" for qs
    by (auto simp: single_ports_def l)
  show ?thesis
  proof (cases "ps = []")
    case False
    with new_tlp_shared [OF a p False, of h] inv h show ?thesis
      by (auto simp: get_tlps_line_def l tlps_inv_def single)
  next
    case True
    from new_tlp_single [OF a p h] obtain h' where "new_tlp (listen_line (a, [p])) h = (Some (tlp_of (a, [p])), h')"
      "mscript h' = []" by blast
    moreover have "lp_port (tlp_of (a, [p])) = ip_port (ip_of a)" by (simp add: tlp_of_def)
    ultimately show ?thesis
      using inv True room
      by (auto simp: get_tlps_line_def l add_tlp_def tlps_inv_def single)
  qed
qed

lemma get_tlps_text:
  "list_all listen_ok ls \<Longrightarrow> tlps_inv done_ls tlps \<Longrightarrow> length done_ls + length ls \<le> LTP_MAX_NUM \<Longrightarrow> mscript h = []
    \<Longrightarrow> \<exists>tlps' h'. foldl get_tlps_line (tlps, h) (map listen_line ls) = (tlps', h')
          \<and> tlps_inv (done_ls @ ls) tlps' \<and> mscript h' = []"
proof (induction ls arbitrary: done_ls tlps h)
  case (Cons l ls)
  from get_tlps_line_text [of l done_ls tlps h] Cons.prems
  obtain t1 h1 where 1: "get_tlps_line (tlps, h) (listen_line l) = (t1, h1)" "tlps_inv (done_ls @ [l]) t1" "mscript h1 = []"
    by auto
  from Cons.IH [OF _ 1(2) _ 1(3)] Cons.prems 1(1) show ?case by simp
qed auto

lemma listen_ports_text:
  assumes "list_all listen_ok ls" "length ls \<le> LTP_MAX_NUM" "mscript h = []"
  obtains tlps h' where "get_listen_ports (Some (concat (map listen_line ls))) h = (Some tlps, h')"
    "tlps_inv ls tlps" "mscript h' = []"
proof -
  have "tlps_inv [] no_tlps" by (simp add: tlps_inv_def no_tlps_def single_ports_def)
  from get_tlps_text [OF assms(1) this, of "h\<lparr>mlive := mlive h + 1\<rparr>"] assms(2,3)
  obtain tlps h' where "foldl get_tlps_line (no_tlps, h\<lparr>mlive := mlive h + 1\<rparr>) (map listen_line ls) = (tlps, h')"
    "tlps_inv ls tlps" "mscript h' = []" by auto
  then show ?thesis
    using that assms(3) by (simp add: get_listen_ports_def listen_chunks [OF assms(1)])
qed

definition conn_of :: "(tcp_estab \<Rightarrow> int) \<Rightarrow> address \<times> address \<times> process list \<Rightarrow> tcp_estab" where
  "conn_of f = (\<lambda>(l, r, ps).
     (let te = \<lparr>is_client = 0, local = ip_of l, remote = ip_of r, te_comm = take TCP_ESTAB_COMM_MAX (map comm_of ps)\<rparr>
      in te\<lparr>is_client := f te\<rparr>))"

lemma get_estabs_text:
  "list_all estab_ok es \<Longrightarrow> length tes + length es \<le> TCP_ESTAB_MAX \<Longrightarrow> mscript h = []
    \<Longrightarrow> \<exists>h'. get_estabs_loop (map estab_line es) tes h = Inr (tes @ map (conn_of (\<lambda>_. 0)) es, h') \<and> mscript h' = []"
proof (induction es arbitrary: tes h)
  case (Cons e es)
  obtain l r ps where e: "e = (l, r, ps)" by (cases e)
  from Cons.prems(1) have ok: "address_ok l" "address_ok r" "ps \<noteq> []" "list_all process_ok ps"
    "length (estab_line (l, r, ps)) < LINE_BUF_LEN" by (simp_all add: estab_ok_def e)
  obtain h1 where "get_estab (estab_line (l, r, ps)) (h\<lparr>mlive := mlive h + 1\<rparr>) = Inr (Some (conn_of (\<lambda>_. 0) e), h1)"
    "mscript h1 = []"
    using get_estab_text [OF ok, of "h\<lparr>mlive := mlive h + 1\<rparr>"] Cons.prems(3) by (auto simp: conn_of_def e)
  moreover have "\<exists>h'. get_estabs_loop (map estab_line es) (tes @ [conn_of (\<lambda>_. 0) e]) h1
      = Inr ((tes @ [conn_of (\<lambda>_. 0) e]) @ map (conn_of (\<lambda>_. 0)) es, h') \<and> mscript h' = []"
    by (rule Cons.IH) (use Cons.prems calculation in auto)
  ultimately show ?case
    using Cons.prems(2,3) e by (auto simp: add_estab_def)
qed simp


definition example_listen :: "(address \<times> process list) list" where
  "example_listen = [((False, ''0.0.0.0'', 22), [(''sshd'', 7, 3)]), ((False, ''0.0.0.0'', 80), [(''nginx'', 8, 6), (''nginx'', 9, 6)])]"

definition example_estab :: "(address \<times> address \<times> process list) list" where
  "example_estab = [((False, ''10.0.0.1'', 80), (False, ''10.0.0.2'', 4000), [(''nginx'', 9, 11)]),
     ((True, ''::1'', 22), (True, ''::1'', 5000), [(''sshd'', 70, 3), (''sshd'', 71, 3)])]"

lemma length_show_small: "n < 100000 \<Longrightarrow> length (show_nat n) \<le> 5"
  using show_nat_length [of 5 n] by simp

lemma example_ss_ok: "list_all listen_ok example_listen" "list_all estab_ok example_estab"
  by (simp_all add: example_listen_def example_estab_def listen_ok_def estab_ok_def address_ok_def process_ok_def
        marks_def listen_line_def estab_line_def addr_text_def users_text_def proc_text_def show_nat.simps digit_chars
        TASK_COMM_LEN_def LINE_BUF_LEN_def)


end
