(* ===== verification/TcpProbe.thy ===== *)
theory TcpProbe
  imports TcpLinks TcpLines Event
begin

section \<open>The user program of the TCP probe\<close>

text \<open>
  \<open>tcpprobe/tcpprobe.c\<close> with the functions of \<open>lib/util.c\<close> that print addresses: what becomes of a record
  that the handlers hand over, and what the program writes into the maps of the kernel when it starts.
  The text of \<open>asctime\<close> and the results of the libbpf calls are given.
\<close>

subsection \<open>Addresses\<close>

definition AF_INET6 :: u16 where "AF_INET6 = 10"
definition INET6_ADDRSTRLEN :: nat where "INET6_ADDRSTRLEN = 48"

definition ip_byte :: "128 word \<Rightarrow> nat \<Rightarrow> u8" where
  "ip_byte a i = ucast (drop_bit (8 * i) a)"

text \<open>The i-th half-word as the array of \<open>unsigned short\<close> gives it.\<close>

definition ip_short :: "128 word \<Rightarrow> nat \<Rightarrow> u16" where
  "ip_short a i = ucast (drop_bit (16 * i) a)"

definition hex4 :: "u16 \<Rightarrow> cstr" where
  "hex4 w = (let n = unat w in
     [digit_of True (n div 4096), digit_of True (n div 256 mod 16), digit_of True (n div 16 mod 16), digit_of True (n mod 16)])"

definition NIP6_text :: "128 word \<Rightarrow> cstr" where
  "NIP6_text a =
     (let w = (\<lambda>i. ntohs (ip_short a i)) in
      hex4 (w 0) @ '':'' @ hex4 (w 1) @ '':'' @ hex4 (w 2) @ '':'' @ hex4 (w 3) @ '':'' @ hex4 (w 4) @ '':''
      @ hex4 (w 5) @ '':'' @ show_nat (unat (drop_bit 8 (w 6))) @ ''.'' @ show_nat (unat (w 6 AND 0xFF)) @ ''.''
      @ show_nat (unat (drop_bit 8 (w 7))) @ ''.'' @ show_nat (unat (w 7 AND 0xFF)))"

text \<open>
  The loop that leaves out leading zeros: \<open>prev\<close> is the character written last. It looks up to two
  characters behind the terminating NUL, which is the read past the end of the list.
\<close>

function compress :: "char option \<Rightarrow> cstr \<Rightarrow> cstr c" where
  "compress prev [] = Inr []"
| "compress prev (ch # s) =
     (let k = (if ch = CHR ''0'' \<and> (prev = None \<or> prev = Some CHR '':'')
               then (if s = [] \<or> hd s \<noteq> CHR ''0'' then 1
                     else if tl s = [] \<or> hd (tl s) \<noteq> CHR ''0'' then 2 else 3)
               else 0)
      in case drop k (ch # s) of
           [] \<Rightarrow> Inl OutOfBounds
         | d # r \<Rightarrow> bindc (compress (Some d) r) (\<lambda>t. Inr (d # t)))"
  by pat_completeness auto
termination
proof (relation "measure (\<lambda>(_, s). length s)", goal_cases)
  case (2 prev ch s k d r)
  then have "length (d # r) \<le> length (ch # s)" by (metis diff_le_self length_drop)
  then show ?case by simp
qed simp

declare compress.simps [simp del]

definition ip6_str :: "128 word \<Rightarrow> nat \<Rightarrow> cstr c" where
  "ip6_str a sz = compress None (fst (snprintf sz [] (NIP6_text a)))"

definition ip_str :: "u16 \<Rightarrow> 128 word \<Rightarrow> nat \<Rightarrow> cstr c" where
  "ip_str family a sz =
     (if family = AF_INET6 then ip6_str a sz
      else Inr (fst (snprintf sz [] (show_nat (unat (ip_byte a 0)) @ ''.'' @ show_nat (unat (ip_byte a 1)) @ ''.''
             @ show_nat (unat (ip_byte a 2)) @ ''.'' @ show_nat (unat (ip_byte a 3))))))"

subsection \<open>Printing a record\<close>

definition OO_TYPE_HEALTH :: cstr where "OO_TYPE_HEALTH = ''tcp_link_health''"
definition OO_TYPE_INFO :: cstr where "OO_TYPE_INFO = ''tcp_link_info''"
definition ENTITY_ID_LEN :: nat where "ENTITY_ID_LEN = 128"

definition build_entity_id :: "tcp_link_s \<Rightarrow> nat \<Rightarrow> cstr c" where
  "build_entity_id link buf_len =
     bindc (ip_str (l_family link) (l_c_ip link) INET6_ADDRSTRLEN) (\<lambda>src.
     bindc (ip_str (l_family link) (l_s_ip link) INET6_ADDRSTRLEN) (\<lambda>dst.
       Inr (fst (snprintf buf_len [] (join CHR ''_'' [shown (l_tgid link), shown (l_role link), src, dst,
              shown (l_c_port link), shown (l_s_port link), shown (l_family link)])))))"

text \<open>The identity is built when it is there already, and not when it is still empty.\<close>

definition report_drops :: "cstr \<Rightarrow> u32 \<Rightarrow> u32 \<Rightarrow> cstr \<Rightarrow> tcp_link_s \<Rightarrow> cstr \<times> cstr \<Rightarrow> (cstr \<times> cstr) c" where
  "report_drops asctime thr drops what link = (\<lambda>(entityId, out).
     if thr \<noteq> 0 \<and> drops > thr
     then bindc (if entityId \<noteq> [] then build_entity_id link ENTITY_ID_LEN else Inr entityId) (\<lambda>e.
            Inr (e, out @ report_logs asctime OO_TYPE_HEALTH e ''backlog_drops'' EVT_SEC_WARN
                      (''TCP '' @ what @ '' drops('' @ shown drops @ '').'')))
     else Inr (entityId, out))"

definition report_tcp_health :: "probe_params \<Rightarrow> cstr \<Rightarrow> tcp_metrics_s \<Rightarrow> cstr c" where
  "report_tcp_health params asctime metrics =
     (if logs params = 0 then Inr []
      else
        (let th = m_health metrics; link = m_link metrics in
         bindc (if tcp_oom th \<noteq> 0
                then bindc (build_entity_id link ENTITY_ID_LEN) (\<lambda>e.
                       Inr (e, report_logs asctime OO_TYPE_HEALTH e ''tcp_oom'' EVT_SEC_WARN
                                 (''TCP out of memory('' @ shown (tcp_oom th) @ '').'')))
                else Inr ([], [])) (\<lambda>r1.
         bindc (report_drops asctime (drops_count_thr params) (backlog_drops th) ''backlog queue'' link r1) (\<lambda>r2.
         bindc (report_drops asctime (drops_count_thr params) (filter_drops th) ''filter'' link r2) (\<lambda>r3.
           Inr (snd r3))))))"

definition report_tcp_status :: "probe_params \<Rightarrow> cstr \<Rightarrow> tcp_metrics_s \<Rightarrow> cstr c" where
  "report_tcp_status params asctime metrics =
     (if logs params = 0 then Inr []
      else
        (let latency_thr_us = push_bit 3 (latency_thr params); srtt = m_syn_srtt_last metrics in
         if latency_thr_us \<noteq> 0 \<and> srtt > latency_thr_us
         then bindc (build_entity_id (m_link metrics) ENTITY_ID_LEN) (\<lambda>e.
                Inr (report_logs asctime OO_TYPE_INFO e ''syn_srtt_last'' EVT_SEC_WARN
                       (''TCP connection establish timed out('' @ shown srtt @ '' us).'')))
         else Inr []))"

definition link_values :: "tcp_link_s \<Rightarrow> cstr \<Rightarrow> cstr \<Rightarrow> cstr list" where
  "link_values link src dst = [shown (l_tgid link), shown (l_role link), src, dst, shown (l_c_port link),
     shown (l_s_port link), shown (l_family link)]"

definition health_values :: "tcp_health \<Rightarrow> cstr list" where
  "health_values h = [shown (total_retrans h), shown (backlog_drops h), shown (sk_drops h), shown (lost_out h),
     shown (sacked_out h), shown (filter_drops h), shown (tmout h), shown (sndbuf_limit h), shown (attempt_fails h),
     shown (rmem_scheduls h), shown (tcp_oom h), shown (send_rsts h), shown (receive_rsts h),
     show_int (sint (sk_err h)), show_int (sint (sk_err_soft h))]"

definition info_values :: "tcp_state \<Rightarrow> u32 \<Rightarrow> cstr list" where
  "info_values i srtt = [shown (rx i), shown (tx i), shown (tcpi_rto i), shown (tcpi_ato i), shown (tcpi_srtt i),
     shown (tcpi_snd_ssthresh i), shown (tcpi_rcv_ssthresh i), shown (tcpi_snd_cwnd i), shown (tcpi_advmss i),
     shown (tcpi_reordering i), shown (tcpi_rcv_rtt i), shown (tcpi_rcv_space i), shown (tcpi_notsent_bytes i),
     shown (tcpi_notack_bytes i), shown (tcpi_snd_wnd i), shown (tcpi_rcv_wnd i), shown (tcpi_delivery_rate i),
     shown (tcpi_busy_time i), shown (tcpi_rwnd_limited i), shown (tcpi_sndbuf_limited i), shown (tcpi_pacing_rate i),
     shown (tcpi_max_pacing_rate i), shown (tcpi_sk_err_que_size i), shown (tcpi_sk_rcv_que_size i),
     shown (tcpi_sk_wri_que_size i), shown srtt, shown (tcpi_sk_backlog_size i), shown (tcpi_sk_omem_size i),
     shown (tcpi_sk_forward_size i), shown (tcpi_sk_wmem_size i)]"

definition print_link_metrics :: "probe_params \<Rightarrow> cstr \<Rightarrow> tcp_metrics_s \<Rightarrow> cstr c" where
  "print_link_metrics params asctime metrics =
     (let link = m_link metrics in
      bindc (ip_str (l_family link) (l_c_ip link) INET6_ADDRSTRLEN) (\<lambda>src.
      bindc (ip_str (l_family link) (l_s_ip link) INET6_ADDRSTRLEN) (\<lambda>dst.
      bindc (report_tcp_health params asctime metrics) (\<lambda>health.
      bindc (report_tcp_status params asctime metrics) (\<lambda>status.
        Inr (bars (OO_TYPE_HEALTH # link_values link src dst @ health_values (m_health metrics))
             @ bars (OO_TYPE_INFO # link_values link src dst @ info_values (m_info metrics) (m_syn_srtt_last metrics))
             @ health @ status))))))"

subsection \<open>The maps at the start\<close>

definition load_args :: "probe_params \<Rightarrow> tcp_args_s" where
  "load_args params = \<lparr>a_period = ucast (period params) * 1000000000, a_cport_flag = ucast (cport_flag params),
     a_filter_by_task = word_of_int (filter_task_probe params), a_filter_by_tgid = filter_pid params\<rparr>"

definition zero_fd_info :: tcp_fd_info where
  "zero_fd_info = \<lparr>fds = replicate TCP_FD_PER_PROC_MAX 0, fd_role = replicate TCP_FD_PER_PROC_MAX 0, fd_cnt = 0\<rparr>"

definition role_name :: "u8 \<Rightarrow> cstr" where
  "role_name role = (if role = 0 then ''client'' else ''server'')"

text \<open>The map and what has been printed.\<close>

type_synonym fd_load = "(u32 \<rightharpoonup> tcp_fd_info) \<times> cstr"

definition user_load_fd :: "(u32, tcp_fd_info) kernel_answer \<Rightarrow> u32 \<Rightarrow> u32 \<Rightarrow> u8 \<Rightarrow> fd_load \<Rightarrow> fd_load" where
  "user_load_fd answer tgid fd role = (\<lambda>(m, out).
     (let info = (case m tgid of None \<Rightarrow> zero_fd_info | Some i \<Rightarrow> i) in
      if unat (fd_cnt info) \<ge> TCP_FD_PER_PROC_MAX then (m, out)
      else
        (let info' = info\<lparr>fds := (fds info)[unat (fd_cnt info) := fd],
                          fd_role := (fd_role info)[unat (fd_cnt info) := role], fd_cnt := fd_cnt info + 1\<rparr>
         in (fst (bpf_map_update_elem answer m tgid info'),
             out @ ''Update establish(tgid = '' @ shown tgid @ '', fd = '' @ show_int (sint fd) @ '', role = ''
                 @ role_name role @ '').'' @ [NL]))))"

definition te_role :: "tcp_estab \<Rightarrow> u8" where
  "te_role te = (if is_client te = 1 then ucast LINK_ROLE_CLIENT else ucast LINK_ROLE_SERVER)"

definition user_load_fds :: "(u32, tcp_fd_info) kernel_answer \<Rightarrow> tcp_estab list \<Rightarrow> fd_load \<Rightarrow> fd_load" where
  "user_load_fds answer tes fl =
     foldl (\<lambda>fl (te, cm). user_load_fd answer (ec_pid cm) (ec_fd cm) (te_role te) fl) fl
       (concat (map (\<lambda>te. map (Pair te) (te_comm te)) tes))"

definition user_load_tcp_fd ::
  "cstr option \<Rightarrow> cstr option \<Rightarrow> (u32, tcp_fd_info) kernel_answer \<Rightarrow> fd_load \<Rightarrow> heap \<Rightarrow> (fd_load \<times> heap) c" where
  "user_load_tcp_fd lout eout answer fl h =
     (case get_listen_ports lout h of
        (None, h1) \<Rightarrow> Inr (fl, h1)
      | (Some tlps, h1) \<Rightarrow>
          bindc (get_estab_tcps eout tlps h1) (\<lambda>(tes, h2).
            (case tes of
               None \<Rightarrow> Inr (fl, free_listen_ports tlps h2)
             | Some ts \<Rightarrow> Inr (user_load_fds answer ts fl, free_estab_tcps tes (free_listen_ports tlps h2)))))"

text \<open>
  \<open>main\<close>: what \<open>getopt\<close> returns, whether the limit can be raised, the program loaded and the buffer made. The
  loop that prints the records ends when \<open>perf_buffer__poll\<close> fails, it is given by these records.
\<close>

record tcp_run =
  tr_fds :: fd_load
  tr_args :: "tcp_args_s option"
  tr_out :: cstr

fun print_records :: "probe_params \<Rightarrow> cstr \<Rightarrow> tcp_metrics_s list \<Rightarrow> cstr c" where
  "print_records params asctime [] = Inr []"
| "print_records params asctime (m # ms) =
     bindc (print_link_metrics params asctime m) (\<lambda>t. bindc (print_records params asctime ms) (\<lambda>ts. Inr (t @ ts)))"

definition tcp_main ::
  "(char \<times> cstr option) list \<Rightarrow> bool \<Rightarrow> bool \<Rightarrow> bool \<Rightarrow> cstr option \<Rightarrow> cstr option \<Rightarrow> (u32, tcp_fd_info) kernel_answer
    \<Rightarrow> cstr \<Rightarrow> tcp_metrics_s list \<Rightarrow> heap \<Rightarrow> (int \<times> tcp_run option) c" where
  "tcp_main opts rlimit loaded pb lout eout answer asctime records h =
     (let (params, err) = args_parse opts in
      if err \<noteq> 0 then Inr (- 1, None)
      else if \<not> rlimit then Inr (- 1, None)
      else if \<not> loaded \<or> \<not> pb then Inr (- err, None)
      else
        bindc (user_load_tcp_fd lout eout answer ((\<lambda>_. None), []) h) (\<lambda>(fl, h').
        bindc (print_records params asctime records) (\<lambda>out.
          Inr (- err, Some \<lparr>tr_fds = fl, tr_args = Some (load_args params), tr_out = out\<rparr>))))"

section \<open>What addresses look like\<close>

text \<open>A group without its leading zeros.\<close>

definition hexn :: "u16 \<Rightarrow> cstr" where
  "hexn w = dropWhile (\<lambda>ch. ch = CHR ''0'') (butlast (hex4 w)) @ [last (hex4 w)]"

lemma digit_of_16: "n < 16 \<Longrightarrow> digit_of True n \<noteq> CHR '':''"
proof
  assume "n < 16" and "digit_of True n = CHR '':''"
  then have "(of_char (digit_of True n) :: nat) = 58" by simp
  with \<open>n < 16\<close> show False by (auto simp: digit_of_def split: if_splits)
qed

lemma hex4_form:
  obtains a b c d where "hex4 w = [a, b, c, d]" "CHR '':'' \<notin> {a, b, c, d}"
proof -
  have "unat w < 2 ^ LENGTH(16)" by (rule unsigned_less)
  then have "unat w div 4096 < 16" by (simp add: div_less_iff_less_mult)
  then have "CHR '':'' \<notin> {digit_of True (unat w div 4096), digit_of True (unat w div 256 mod 16),
      digit_of True (unat w div 16 mod 16), digit_of True (unat w mod 16)}"
    using digit_of_16 by (metis empty_iff insert_iff mod_less_divisor zero_less_numeral)
  then show ?thesis by (rule that [rotated]) (simp add: hex4_def Let_def)
qed

text \<open>One round of the loop.\<close>

lemma compress_keep:
  "\<not> (ch = CHR ''0'' \<and> (prev = None \<or> prev = Some CHR '':''))
     \<Longrightarrow> compress prev (ch # s) = bindc (compress (Some ch) s) (\<lambda>t. Inr (ch # t))"
  by (subst compress.simps(2)) (simp only: Let_def if_False drop_0 list.case id_apply)

lemma compress_zero:
  assumes "prev = None \<or> prev = Some CHR '':''"
  shows "ch \<noteq> CHR ''0'' \<Longrightarrow> compress prev (CHR ''0'' # ch # s) = bindc (compress (Some ch) s) (\<lambda>t. Inr (ch # t))"
    and "ch \<noteq> CHR ''0'' \<Longrightarrow>
      compress prev (CHR ''0'' # CHR ''0'' # ch # s) = bindc (compress (Some ch) s) (\<lambda>t. Inr (ch # t))"
    and "compress prev (CHR ''0'' # CHR ''0'' # CHR ''0'' # ch # s) = bindc (compress (Some ch) s) (\<lambda>t. Inr (ch # t))"
  using assms by (simp_all add: compress.simps(2) [of _ "CHR ''0''"] Let_def)

lemma compress_copy: "prev \<noteq> None \<Longrightarrow> prev \<noteq> Some CHR '':'' \<Longrightarrow> CHR '':'' \<notin> set s \<Longrightarrow> compress prev s = Inr s"
proof (induction s arbitrary: prev)
  case Nil
  show ?case by (simp add: compress.simps(1))
next
  case (Cons ch s)
  have "compress (Some ch) s = Inr s" by (rule Cons.IH) (use Cons.prems in auto)
  with Cons.prems show ?case by (simp add: compress_keep)
qed

lemma compress_colon: "p \<noteq> CHR '':'' \<Longrightarrow>
    compress (Some p) (CHR '':'' # s) = bindc (compress (Some CHR '':'') s) (\<lambda>t. Inr (CHR '':'' # t))"
  by (simp add: compress_keep)

lemma compress_group:
  assumes "prev = None \<or> prev = Some CHR '':''"
  shows "compress prev (hex4 w @ CHR '':'' # s) = bindc (compress (Some CHR '':'') s) (\<lambda>t. Inr (hexn w @ CHR '':'' # t))"
proof -
  obtain a b c d where h: "hex4 w = [a, b, c, d]" and f: "CHR '':'' \<notin> {a, b, c, d}" by (rule hex4_form)
  note z = compress_zero [OF assms]
  from f have f: "a \<noteq> CHR '':''" "b \<noteq> CHR '':''" "c \<noteq> CHR '':''" "d \<noteq> CHR '':''" by auto
  consider (a) "a \<noteq> CHR ''0''" | (b) "a = CHR ''0''" "b \<noteq> CHR ''0''"
    | (c) "a = CHR ''0''" "b = CHR ''0''" "c \<noteq> CHR ''0''" | (d) "a = CHR ''0''" "b = CHR ''0''" "c = CHR ''0''"
    by blast
  then show ?thesis
    by cases (use f in \<open>simp_all add: h hexn_def z compress_keep bindc_assoc\<close>)
qed

lemma show_nat_head: "0 < n \<Longrightarrow> \<exists>d ds. show_nat n = d # ds \<and> d \<noteq> CHR ''0''"
proof (induction n rule: show_nat.induct)
  case (1 n)
  show ?case
  proof (cases "n < 10")
    case True
    then have "n \<in> {1, 2, 3, 4, 5, 6, 7, 8, 9}" using 1 by auto
    then show ?thesis by (auto simp: show_nat.simps [of n] digit_chars)
  next
    case False
    then have "0 < n div 10" by (simp add: div_greater_zero_iff)
    with 1(1) [OF False] obtain d ds where "show_nat (n div 10) = d # ds" "d \<noteq> CHR ''0''" by blast
    with False show ?thesis by (simp add: show_nat.simps [of n])
  qed
qed

lemma compress_tail:
  assumes "CHR '':'' \<notin> set r"
  shows "compress (Some CHR '':'') (show_nat n @ CHR ''.'' # r) = Inr ((if n = 0 then [] else show_nat n) @ CHR ''.'' # r)"
proof (cases "n = 0")
  case True
  with assms show ?thesis
    by (simp add: show_nat.simps [of 0] digit_chars compress_zero compress_copy)
next
  case False
  then obtain d ds where d: "show_nat n = d # ds" "d \<noteq> CHR ''0''" using show_nat_head by blast
  have "CHR '':'' \<notin> set (show_nat n)" by simp
  with d have "CHR '':'' \<notin> set (ds @ CHR ''.'' # r)" "d \<noteq> CHR '':''" using assms by auto
  with d False show ?thesis by (simp add: compress_keep compress_copy)
qed

text \<open>The bytes behind the last two half-words.\<close>

lemma short_bytes:
  "drop_bit 8 (ntohs (ip_short a i)) = ucast (ip_byte a (2 * i))"
  "ntohs (ip_short a i) AND 0xFF = ucast (ip_byte a (2 * i + 1))"
proof -
  have m: "(0xFF :: int) = mask 8" by (simp add: mask_eq_exp_minus_1)
  have ff: "bit (0xFF :: int) n \<longleftrightarrow> n < 8" for n unfolding m by (simp add: bit_mask_iff)
  show "drop_bit 8 (ntohs (ip_short a i)) = ucast (ip_byte a (2 * i))"
    by (rule bit_word_eqI) (auto simp: bit_simps ntohs_bit ip_short_def ip_byte_def ac_simps)
  show "ntohs (ip_short a i) AND 0xFF = ucast (ip_byte a (2 * i + 1))"
    by (rule bit_word_eqI) (auto simp: bit_simps ntohs_bit ip_short_def ip_byte_def ff ac_simps)
qed

lemma byte_small: "unat (b :: u8) < 256"
proof -
  have "unat b < 2 ^ LENGTH(8)" by (rule unsigned_less)
  then show ?thesis by simp
qed

lemma unat_ucast_u16: "unat (ucast (b :: u8) :: u16) = unat b"
proof -
  have "uint (ucast b :: u16) = uint b" by (rule uint_up_ucast) (simp only: is_up, simp)
  then show ?thesis by (simp only: unat_eq_nat_uint)
qed

lemma NIP6_text_bytes:
  "NIP6_text a = hex4 (ntohs (ip_short a 0)) @ '':'' @ hex4 (ntohs (ip_short a 1)) @ '':'' @ hex4 (ntohs (ip_short a 2)) @ '':''
     @ hex4 (ntohs (ip_short a 3)) @ '':'' @ hex4 (ntohs (ip_short a 4)) @ '':'' @ hex4 (ntohs (ip_short a 5)) @ '':''
     @ shown (ip_byte a 12) @ ''.'' @ shown (ip_byte a 13) @ ''.'' @ shown (ip_byte a 14) @ ''.'' @ shown (ip_byte a 15)"
  by (simp add: NIP6_text_def Let_def short_bytes unat_ucast_u16 shown_def)

lemma shown_byte_length: "length (shown (b :: u8)) \<le> 3"
  using show_nat_length [of 3 "unat b"] byte_small [of b] by (simp add: shown_def)

lemma shown_no_colon: "CHR '':'' \<notin> set (shown w)"
  by (simp add: shown_def)

definition ip_text :: "u16 \<Rightarrow> 128 word \<Rightarrow> cstr" where
  "ip_text family a =
     (if family = AF_INET6
      then concat (map (\<lambda>i. hexn (ntohs (ip_short a i)) @ '':'') [0, 1, 2, 3, 4, 5])
           @ (if ip_byte a 12 = 0 then [] else shown (ip_byte a 12)) @ ''.'' @ shown (ip_byte a 13) @ ''.''
           @ shown (ip_byte a 14) @ ''.'' @ shown (ip_byte a 15)
      else shown (ip_byte a 0) @ ''.'' @ shown (ip_byte a 1) @ ''.'' @ shown (ip_byte a 2) @ ''.'' @ shown (ip_byte a 3))"

lemma ip_str_total: "ip_str family a INET6_ADDRSTRLEN = Inr (ip_text family a)"
proof -
  define tl4 where "tl4 = shown (ip_byte a 13) @ ''.'' @ shown (ip_byte a 14) @ ''.'' @ shown (ip_byte a 15)"
  have t: "CHR '':'' \<notin> set tl4" by (simp add: tl4_def shown_no_colon)
  have len: "length (shown (ip_byte a i)) \<le> 3" for i by (rule shown_byte_length)
  have h4: "length (hex4 w) = 4" for w by (simp add: hex4_def Let_def)
  have "length (NIP6_text a) < 48"
    using len [of 12] len [of 13] len [of 14] len [of 15] by (simp add: NIP6_text_bytes h4)
  then have fits: "fst (snprintf INET6_ADDRSTRLEN [] (NIP6_text a)) = NIP6_text a"
    by (simp add: snprintf_fits INET6_ADDRSTRLEN_def)
  have text6: "NIP6_text a = hex4 (ntohs (ip_short a 0)) @ CHR '':'' # hex4 (ntohs (ip_short a 1)) @ CHR '':'' #
      hex4 (ntohs (ip_short a 2)) @ CHR '':'' # hex4 (ntohs (ip_short a 3)) @ CHR '':'' # hex4 (ntohs (ip_short a 4)) @
      CHR '':'' # hex4 (ntohs (ip_short a 5)) @ CHR '':'' # show_nat (unat (ip_byte a 12)) @ CHR ''.'' # tl4"
    by (simp add: NIP6_text_bytes tl4_def shown_def)
  have "compress None (NIP6_text a) = Inr (concat (map (\<lambda>i. hexn (ntohs (ip_short a i)) @ '':'') [0, 1, 2, 3, 4, 5])
      @ (if ip_byte a 12 = 0 then [] else shown (ip_byte a 12)) @ ''.'' @ tl4)"
    using compress_tail [OF t, of "unat (ip_byte a 12)"]
    by (simp add: text6 compress_group) (simp add: shown_def unat_eq_0)
  note six = this
  show ?thesis
  proof (cases "family = AF_INET6")
    case True
    then show ?thesis
      unfolding ip_str_def ip6_str_def ip_text_def fits six by (simp only: simp_thms if_True tl4_def append_assoc)
  next
    case False
    have "length (shown (ip_byte a 0) @ ''.'' @ shown (ip_byte a 1) @ ''.'' @ shown (ip_byte a 2) @ ''.'' @ shown (ip_byte a 3)) < 48"
      using len [of 0] len [of 1] len [of 2] len [of 3] by simp
    then have "fst (snprintf INET6_ADDRSTRLEN [] (shown (ip_byte a 0) @ ''.'' @ shown (ip_byte a 1) @ ''.'' @ shown (ip_byte a 2)
        @ ''.'' @ shown (ip_byte a 3))) = shown (ip_byte a 0) @ ''.'' @ shown (ip_byte a 1) @ ''.'' @ shown (ip_byte a 2) @ ''.'' @ shown (ip_byte a 3)"
      by (simp only: snprintf_fits INET6_ADDRSTRLEN_def fst_conv)
    then show ?thesis
      using False unfolding ip_str_def ip_text_def shown_def by (simp only: if_False)
  qed
qed

text \<open>An IPv6 address is printed with its six groups without leading zeros and its last four bytes as decimal numbers;
  the first of these is missing altogether when it is 0, as in the address of the loopback interface. Any other
  address is printed as four decimal numbers. The loop that compresses never leaves its buffer.\<close>

theorem ip_str_text:
  "ip_str family a INET6_ADDRSTRLEN = Inr
     (if family = AF_INET6
      then concat (map (\<lambda>i. hexn (ntohs (ip_short a i)) @ '':'') [0, 1, 2, 3, 4, 5])
           @ (if ip_byte a 12 = 0 then [] else shown (ip_byte a 12)) @ ''.'' @ shown (ip_byte a 13) @ ''.''
           @ shown (ip_byte a 14) @ ''.'' @ shown (ip_byte a 15)
      else shown (ip_byte a 0) @ ''.'' @ shown (ip_byte a 1) @ ''.'' @ shown (ip_byte a 2) @ ''.'' @ shown (ip_byte a 3))"
  using ip_str_total by (simp only: ip_text_def)

section \<open>The connections that exist when the probe starts\<close>

definition TCP_FD_MAX :: nat where "TCP_FD_MAX = 50"

text \<open>The processes of the connections, and the descriptors and roles of one of them.\<close>

definition proc_list :: "tcp_estab list \<Rightarrow> (tcp_estab \<times> tcp_estab_comm) list" where
  "proc_list tes = concat (map (\<lambda>te. map (Pair te) (te_comm te)) tes)"

definition fd_pairs :: "(tcp_estab \<times> tcp_estab_comm) list \<Rightarrow> u32 \<Rightarrow> (u32 \<times> u8) list" where
  "fd_pairs xs tgid = map (\<lambda>(te, cm). (ec_fd cm, te_role te)) (filter (\<lambda>(te, cm). ec_pid cm = tgid) xs)"

definition info_of :: "(u32 \<times> u8) list \<Rightarrow> tcp_fd_info" where
  "info_of ps = \<lparr>fds = map fst ps @ replicate (TCP_FD_PER_PROC_MAX - length ps) 0,
     fd_role = map snd ps @ replicate (TCP_FD_PER_PROC_MAX - length ps) 0, fd_cnt = of_nat (length ps)\<rparr>"

definition table_of :: "(tcp_estab \<times> tcp_estab_comm) list \<Rightarrow> u32 \<rightharpoonup> tcp_fd_info" where
  "table_of xs tgid = (if fd_pairs xs tgid = [] then None
     else Some (info_of (take TCP_FD_PER_PROC_MAX (fd_pairs xs tgid))))"

definition room_for :: "nat \<Rightarrow> ('k, 'v) kernel_answer \<Rightarrow> bool" where
  "room_for n answer \<longleftrightarrow> (\<forall>m k. m k \<noteq> None \<or> card (dom m) < n \<longrightarrow> answer m k = 0)"

lemma table_of_dom: "dom (table_of xs) = (\<lambda>(te, cm). ec_pid cm) ` set xs"
proof -
  have "table_of xs t = None \<longleftrightarrow> fd_pairs xs t = []" for t
    by (simp add: table_of_def)
  then have "t \<in> dom (table_of xs) \<longleftrightarrow> fd_pairs xs t \<noteq> []" for t by (simp add: domIff)
  then show ?thesis by (force simp: fd_pairs_def filter_empty_conv)
qed

lemma info_of_add:
  assumes "length ps < TCP_FD_PER_PROC_MAX"
  shows "(info_of ps)\<lparr>fds := (fds (info_of ps))[unat (fd_cnt (info_of ps)) := fd],
      fd_role := (fd_role (info_of ps))[unat (fd_cnt (info_of ps)) := role], fd_cnt := fd_cnt (info_of ps) + 1\<rparr>
    = info_of (ps @ [(fd, role)])"
proof -
  have "unat (of_nat (length ps) :: u32) = length ps" using assms by (simp add: unat_u32 TCP_FD_PER_PROC_MAX_def)
  moreover obtain k where "TCP_FD_PER_PROC_MAX - length ps = Suc k" "TCP_FD_PER_PROC_MAX - Suc (length ps) = k"
    using assms by (metis Suc_diff_Suc)
  ultimately show ?thesis by (simp add: info_of_def list_update_append)
qed

lemma user_load_fd_step:
  assumes room: "room_for TCP_FD_MAX answer" and small: "card (insert (ec_pid cm) (dom (table_of xs))) \<le> TCP_FD_MAX"
  shows "fst (user_load_fd answer (ec_pid cm) (ec_fd cm) (te_role te) (table_of xs, out)) = table_of (xs @ [(te, cm)])"
proof -
  let ?t = "ec_pid cm"
  let ?ps = "take TCP_FD_PER_PROC_MAX (fd_pairs xs ?t)"
  have pairs: "fd_pairs (xs @ [(te, cm)]) t = fd_pairs xs t @ (if t = ?t then [(ec_fd cm, te_role te)] else [])" for t
    by (simp add: fd_pairs_def)
  have other: "table_of (xs @ [(te, cm)]) t = table_of xs t" if "t \<noteq> ?t" for t
    using that by (simp add: table_of_def pairs)
  have info: "(case table_of xs ?t of None \<Rightarrow> zero_fd_info | Some i \<Rightarrow> i) = info_of ?ps"
    by (simp add: table_of_def info_of_def zero_fd_info_def)
  have cnt: "unat (fd_cnt (info_of ?ps)) = length ?ps"
    by (simp add: info_of_def unat_u32 TCP_FD_PER_PROC_MAX_def)
  show ?thesis
  proof (cases "length (fd_pairs xs ?t) < TCP_FD_PER_PROC_MAX")
    case False
    then have "table_of (xs @ [(te, cm)]) = table_of xs"
      using other by (intro ext) (auto simp: table_of_def pairs TCP_FD_PER_PROC_MAX_def)
    with False show ?thesis by (simp add: user_load_fd_def info cnt)
  next
    case True
    then have ps: "?ps = fd_pairs xs ?t" by simp
    have "fin": "finite (dom (table_of xs))" by (simp add: table_of_dom)
    have "answer (table_of xs) ?t = 0"
    proof (cases "table_of xs ?t")
      case None
      then have "?t \<notin> dom (table_of xs)" by auto
      with small "fin" have "card (dom (table_of xs)) < TCP_FD_MAX" by simp
      with room show ?thesis by (simp add: room_for_def)
    qed (use room in \<open>simp add: room_for_def\<close>)
    moreover have "table_of (xs @ [(te, cm)]) ?t = Some (info_of (fd_pairs xs ?t @ [(ec_fd cm, te_role te)]))"
      using True by (simp add: table_of_def pairs)
    ultimately have "(table_of xs)(?t \<mapsto> info_of (fd_pairs xs ?t @ [(ec_fd cm, te_role te)])) = table_of (xs @ [(te, cm)])"
      using other by auto
    then show ?thesis
      using True \<open>answer (table_of xs) ?t = 0\<close> info_of_add [OF True, where fd = "ec_fd cm" and role = "te_role te"] cnt info
      by (simp add: user_load_fd_def ps bpf_map_update_elem_def)
  qed
qed

lemma user_load_fds_table:
  assumes room: "room_for TCP_FD_MAX answer"
  shows "card ((\<lambda>(te, cm). ec_pid cm) ` set (xs @ ys)) \<le> TCP_FD_MAX \<Longrightarrow>
    fst (foldl (\<lambda>fl (te, cm). user_load_fd answer (ec_pid cm) (ec_fd cm) (te_role te) fl) (table_of xs, out) ys) = table_of (xs @ ys)"
proof (induction ys arbitrary: xs out)
  case (Cons y ys)
  obtain te cm where y: "y = (te, cm)" by (cases y)
  have "insert (ec_pid cm) (dom (table_of xs)) \<subseteq> (\<lambda>(te, cm). ec_pid cm) ` set (xs @ y # ys)"
    by (auto simp: table_of_dom y)
  then have "card (insert (ec_pid cm) (dom (table_of xs))) \<le> card ((\<lambda>(te, cm). ec_pid cm) ` set (xs @ y # ys))"
    by (intro card_mono) simp_all
  with Cons.prems have "card (insert (ec_pid cm) (dom (table_of xs))) \<le> TCP_FD_MAX" by (rule order_trans [rotated])
  then obtain out' where 1: "user_load_fd answer (ec_pid cm) (ec_fd cm) (te_role te) (table_of xs, out) = (table_of (xs @ [y]), out')"
    using user_load_fd_step [OF room, of cm xs te out] y by (metis prod.collapse)
  show ?case using Cons.IH [of "xs @ [y]" out'] Cons.prems 1 y by simp
qed simp

text \<open>The socket behind the last of the descriptors that leads to it.\<close>

definition last_fd :: "task \<Rightarrow> (u32 \<times> u8) list \<Rightarrow> u64 \<Rightarrow> (u32 \<times> u8) option" where
  "last_fd task ps sk = List.find (\<lambda>(fd, role). fd \<noteq> 0 \<and> sock_get_by_fd fd task = sk) (rev ps)"

lemma load_fds_socks:
  assumes room: "room_for TCP_TUPLE_MAX (ke_sock_answer env)" and "finite (dom (sock_map st))"
    and "card (dom (sock_map st)) + length ps \<le> TCP_TUPLE_MAX" and "sk \<noteq> 0"
  shows "sock_map (foldl (\<lambda>s (fd, role). load_fd env tgid fd \<lparr>i_role = ucast role, i_syn_srtt = 0, i_tgid = tgid\<rparr> s) st ps) sk
    = (case last_fd (ke_task env) ps sk of
         None \<Rightarrow> sock_map st sk
       | Some (fd, role) \<Rightarrow> Some \<lparr>i_role = ucast role, i_syn_srtt = 0, i_tgid = tgid\<rparr>)"
  using assms(2,3)
proof (induction ps rule: rev_induct)
  case (snoc p ps)
  obtain fd role where p: "p = (fd, role)" by (cases p)
  let ?f = "\<lambda>s (fd, role). load_fd env tgid fd \<lparr>i_role = ucast role, i_syn_srtt = 0, i_tgid = tgid\<rparr> s"
  let ?s = "foldl ?f st ps"
  have size: "finite (dom (sock_map (foldl ?f st qs))) \<and> card (dom (sock_map (foldl ?f st qs))) \<le> card (dom (sock_map st)) + length qs" for qs
  proof (induction qs rule: rev_induct)
    case (snoc q qs)
    obtain fd role where q: "q = (fd, role)" by (cases q)
    show ?case
      using snoc card_insert_le_m1 [of "Suc (card (dom (sock_map (foldl ?f st qs))))"]
      by (auto simp: q load_fd_def create_sock_obj_def bpf_map_update_elem_def Let_def card_insert_if)
  qed (use snoc.prems in simp)
  have "ke_sock_answer env (sock_map ?s) k = 0" for k
    using room size [of ps] snoc.prems(2) by (simp add: room_for_def)
  then have "sock_map (?f ?s p) sk = (if fd \<noteq> 0 \<and> sock_get_by_fd fd (ke_task env) = sk
      then Some \<lparr>i_role = ucast role, i_syn_srtt = 0, i_tgid = tgid\<rparr> else sock_map ?s sk)"
    using assms(4) by (auto simp: p load_fd_def create_sock_obj_def bpf_map_update_elem_def Let_def)
  with snoc show ?case by (simp add: last_fd_def p)
qed (simp add: last_fd_def)

text \<open>C38: The connections that exist when the probe starts reach the handlers: the table of the user program has, for every
  process, its first ten descriptors with their roles, as long as there are at most 50 processes and room for their sockets. The first message a
  process sends or receives turns them into sockets, each with the role of the last descriptor (other than 0) that leads to it,
  and removes the entry of the process.\<close>

theorem existing_sockets_known:
  assumes "room_for TCP_FD_MAX answer" "card ((\<lambda>(te, cm). ec_pid cm) ` set (proc_list tes)) \<le> TCP_FD_MAX"
    and "room_for TCP_TUPLE_MAX (ke_sock_answer env)" "finite (dom (sock_map st))"
    and "card (dom (sock_map st)) + TCP_FD_PER_PROC_MAX \<le> TCP_TUPLE_MAX"
    and "tcp_fd_map st = fst (user_load_fds answer tes ((\<lambda>_. None), out))" and "sk \<noteq> 0"
  shows "tcp_fd_map (load_tcp_fd env tgid st) = (tcp_fd_map st)(tgid := None)
    \<and> sock_map (load_tcp_fd env tgid st) sk =
        (case last_fd (ke_task env) (take TCP_FD_PER_PROC_MAX (fd_pairs (proc_list tes) tgid)) sk of
           None \<Rightarrow> sock_map st sk
         | Some (fd, role) \<Rightarrow> Some \<lparr>i_role = ucast role, i_syn_srtt = 0, i_tgid = tgid\<rparr>)"
proof -
  let ?ps = "take TCP_FD_PER_PROC_MAX (fd_pairs (proc_list tes) tgid)"
  let ?f = "\<lambda>s (fd, role). load_fd env tgid fd \<lparr>i_role = ucast role, i_syn_srtt = 0, i_tgid = tgid\<rparr> s"
  have "table_of [] = (\<lambda>_. None)" by (rule ext) (simp add: table_of_def fd_pairs_def)
  then have table: "tcp_fd_map st = table_of (proc_list tes)"
    using assms(2,6) user_load_fds_table [OF assms(1), of "[]" "proc_list tes" out]
    by (simp add: user_load_fds_def proc_list_def)
  show ?thesis
  proof (cases "fd_pairs (proc_list tes) tgid = []")
    case True
    then have "tcp_fd_map st tgid = None" by (simp add: table table_of_def)
    with True show ?thesis by (auto simp: load_tcp_fd_def last_fd_def)
  next
    case False
    let ?n = "TCP_FD_PER_PROC_MAX - length ?ps"
    have fds: "take TCP_FD_PER_PROC_MAX (zip (fds (info_of ?ps)) (fd_role (info_of ?ps))) = ?ps @ replicate ?n (0, 0)"
      by (simp add: info_of_def zip_append zip_map_fst_snd zip_replicate)
    have zeros: "foldl ?f s (replicate n (0, 0)) = s" for n s
      by (induction n) (simp_all add: load_fd_def)
    have fd_map: "tcp_fd_map (foldl ?f s qs) = tcp_fd_map s" for s qs
      by (induction qs arbitrary: s) (auto simp: load_fd_def create_sock_obj_def Let_def split: prod.splits)
    have "card (dom (sock_map st)) + length ?ps \<le> TCP_TUPLE_MAX" using assms(5) by simp
    from load_fds_socks [OF assms(3,4) this assms(7), of tgid] False
    show ?thesis
      by (simp add: load_tcp_fd_def table table_of_def fds zeros fd_map Let_def)
  qed
qed

lemma room_hash: "room_for n (hash_answer n)"
  by (auto simp: room_for_def hash_answer_def)

definition example_tes :: "tcp_estab list" where
  "example_tes = [\<lparr>is_client = 1, local = ip_of (False, ''10.0.0.1'', 4000), remote = ip_of (False, ''10.0.0.2'', 80),
     te_comm = [\<lparr>ec_comm = ''curl'', ec_pid = 7, ec_fd = 5\<rparr>, \<lparr>ec_comm = ''wget'', ec_pid = 9, ec_fd = 6\<rparr>]\<rparr>]"

definition example_task_env :: kenv where
  "example_task_env = (example_env 0)\<lparr>ke_task := \<lparr>max_fds = 64,
     fd_table = (\<lambda>fd. if fd = 5 then Some \<lparr>f_mode = 0xC1FF, f_sk = 0xABC\<rparr> else None)\<rparr>\<rparr>"

theorem existing_sockets_known_witness:
  "sock_map (load_tcp_fd example_task_env 7
     (kstate0\<lparr>tcp_fd_map := fst (user_load_fds (hash_answer TCP_FD_MAX) example_tes ((\<lambda>_. None), []))\<rparr>)) 0xABC
   = Some \<lparr>i_role = 1, i_syn_srtt = 0, i_tgid = 7\<rparr>"
proof -
  let ?st = "kstate0\<lparr>tcp_fd_map := fst (user_load_fds (hash_answer TCP_FD_MAX) example_tes ((\<lambda>_. None), []))\<rparr>"
  have procs: "proc_list example_tes = [(hd example_tes, te_comm (hd example_tes) ! 0), (hd example_tes, te_comm (hd example_tes) ! 1)]"
    by (simp add: proc_list_def example_tes_def)
  have pairs: "fd_pairs (proc_list example_tes) 7 = [(5, 1)]"
    unfolding procs by (simp add: fd_pairs_def example_tes_def te_role_def LINK_ROLE_CLIENT_def)
  have "card ((\<lambda>(te, cm). ec_pid cm) ` set (proc_list example_tes)) \<le> TCP_FD_MAX"
    by (rule order_trans [OF card_image_le]) (simp_all add: procs TCP_FD_MAX_def card_insert_if)
  moreover have "room_for TCP_TUPLE_MAX (ke_sock_answer example_task_env)"
    using room_hash by (simp add: example_task_env_def example_env_def)
  moreover have "sock_map ?st = (\<lambda>_. None)" by (simp add: kstate0_def)
  moreover have "last_fd (ke_task example_task_env) (take TCP_FD_PER_PROC_MAX [(5, 1)]) 0xABC = Some (5, 1)"
    by (simp add: last_fd_def TCP_FD_PER_PROC_MAX_def example_task_env_def sock_get_by_fd_def)
  ultimately show ?thesis
    using existing_sockets_known [of "hash_answer TCP_FD_MAX" example_tes example_task_env ?st "[]" "0xABC" 7]
    by (simp add: room_hash pairs TCP_FD_PER_PROC_MAX_def TCP_TUPLE_MAX_def)
qed

section \<open>What is printed of a record\<close>

definition entity_text :: "tcp_link_s \<Rightarrow> cstr" where
  "entity_text link = take (ENTITY_ID_LEN - 1) (join CHR ''_'' [shown (l_tgid link), shown (l_role link),
     ip_text (l_family link) (l_c_ip link), ip_text (l_family link) (l_s_ip link),
     shown (l_c_port link), shown (l_s_port link), shown (l_family link)])"

lemma build_entity_id_text: "build_entity_id link ENTITY_ID_LEN = Inr (entity_text link)"
  by (simp add: build_entity_id_def ip_str_total entity_text_def snprintf_def ENTITY_ID_LEN_def)

lemma entity_text_ne: "entity_text link \<noteq> []"
  by (simp add: entity_text_def ENTITY_ID_LEN_def shown_def)

text \<open>The alarms of a record: the identity of the link is empty unless the link ran out of memory.\<close>

definition drop_alarm :: "cstr \<Rightarrow> u32 \<Rightarrow> u32 \<Rightarrow> cstr \<Rightarrow> cstr \<Rightarrow> cstr" where
  "drop_alarm asctime thr drops what e =
     (if thr \<noteq> 0 \<and> drops > thr
      then report_logs asctime OO_TYPE_HEALTH e ''backlog_drops'' EVT_SEC_WARN (''TCP '' @ what @ '' drops('' @ shown drops @ '').'')
      else [])"

lemma report_drops_text:
  "e = [] \<or> e = entity_text link \<Longrightarrow>
    report_drops asctime thr drops what link (e, out) = Inr (e, out @ drop_alarm asctime thr drops what e)"
  by (auto simp: report_drops_def drop_alarm_def build_entity_id_text)

definition alarms :: "probe_params \<Rightarrow> cstr \<Rightarrow> tcp_metrics_s \<Rightarrow> cstr" where
  "alarms params asctime m =
     (let h = m_health m; e = (if tcp_oom h = 0 then [] else entity_text (m_link m));
          limit = push_bit 3 (latency_thr params)
      in if logs params = 0 then []
         else (if tcp_oom h = 0 then []
               else report_logs asctime OO_TYPE_HEALTH e ''tcp_oom'' EVT_SEC_WARN (''TCP out of memory('' @ shown (tcp_oom h) @ '').''))
            @ drop_alarm asctime (drops_count_thr params) (backlog_drops h) ''backlog queue'' e
            @ drop_alarm asctime (drops_count_thr params) (filter_drops h) ''filter'' e
            @ (if limit \<noteq> 0 \<and> m_syn_srtt_last m > limit
               then report_logs asctime OO_TYPE_INFO (entity_text (m_link m)) ''syn_srtt_last'' EVT_SEC_WARN
                      (''TCP connection establish timed out('' @ shown (m_syn_srtt_last m) @ '' us).'')
               else []))"

text \<open>Every record is printed without an access out of bounds, as a line of the table of the health with 22 values and a line of the
  table of the states with 37 values, as many as the two tables have fields, and then its alarms. The alarm of dropped
  segments names no link, because its identity is built only when it is there already, which is when the link ran out of
  memory as well; drops by the filter are reported as drops of the backlog, and the threshold of the latency is
  multiplied by 8 only.\<close>

theorem print_link_metrics_text:
  "print_link_metrics params asctime m =
     (let link = m_link m; src = ip_text (l_family link) (l_c_ip link); dst = ip_text (l_family link) (l_s_ip link) in
      Inr (bars (OO_TYPE_HEALTH # link_values link src dst @ health_values (m_health m))
           @ bars (OO_TYPE_INFO # link_values link src dst @ info_values (m_info m) (m_syn_srtt_last m))
           @ alarms params asctime m))
   \<and> length (link_values link src dst @ health_values h) = 22
   \<and> length (link_values link src dst @ info_values i srtt) = 37"
proof -
  let ?h = "m_health m" and ?e = "entity_text (m_link m)"
  have "report_tcp_health params asctime m = Inr (if logs params = 0 then []
      else (if tcp_oom ?h = 0 then []
            else report_logs asctime OO_TYPE_HEALTH ?e ''tcp_oom'' EVT_SEC_WARN (''TCP out of memory('' @ shown (tcp_oom ?h) @ '').''))
         @ drop_alarm asctime (drops_count_thr params) (backlog_drops ?h) ''backlog queue'' (if tcp_oom ?h = 0 then [] else ?e)
         @ drop_alarm asctime (drops_count_thr params) (filter_drops ?h) ''filter'' (if tcp_oom ?h = 0 then [] else ?e))"
    by (simp add: report_tcp_health_def build_entity_id_text report_drops_text Let_def)
  moreover have "report_tcp_status params asctime m = Inr (if logs params = 0 then []
      else if push_bit 3 (latency_thr params) \<noteq> 0 \<and> m_syn_srtt_last m > push_bit 3 (latency_thr params)
      then report_logs asctime OO_TYPE_INFO ?e ''syn_srtt_last'' EVT_SEC_WARN
             (''TCP connection establish timed out('' @ shown (m_syn_srtt_last m) @ '' us).'')
      else [])"
    by (simp add: report_tcp_status_def build_entity_id_text Let_def)
  ultimately show ?thesis
    by (simp add: print_link_metrics_def ip_str_total alarms_def Let_def link_values_def health_values_def info_values_def)
qed

end
