(* ===== verification/SystemProcs.thy ===== *)
theory SystemProcs
  imports Scan
begin

section \<open>The probe of the processes\<close>

text \<open>
  \<open>probes/system_infos.probe/system_procs.c\<close>, the part of the built-in probe of the system that reports the
  processes whose name is in a list. What is in \<open>/proc\<close> and what the commands print is given for every
  call of the probe; \<open>uthash\<close> is a list of its elements. A string that is not terminated makes its
  reader leave the array, \<open>Inl OutOfBounds\<close>. The type \<open>char\<close> is signed, as on x86.
\<close>

subsection \<open>The data\<close>

definition METRICS_PROC_NAME :: cstr where "METRICS_PROC_NAME = ''system_proc''"
definition PROC_PATH :: cstr where "PROC_PATH = ''/proc''"
definition PROC_NAME_MAX :: nat where "PROC_NAME_MAX = 64"
definition PROC_LINE_LEN :: nat where "PROC_LINE_LEN = 128"
definition PROBE_TIMES_MAX :: nat where "PROBE_TIMES_MAX = 200"

definition Q :: char where "Q = CHR 0x27"

definition PROC_COMM_CMD :: "cstr \<Rightarrow> cstr" where
  "PROC_COMM_CMD pid = ''/usr/bin/cat /proc/'' @ pid @ ''/comm''"

definition PROC_START_TIME :: "cstr \<Rightarrow> cstr" where
  "PROC_START_TIME pid = ''/usr/bin/cat /proc/'' @ pid @ ''/stat | awk '' @ [Q] @ ''{print $22}'' @ [Q]"

definition PROC_CMDLINE_CMD :: "cstr \<Rightarrow> cstr" where
  "PROC_CMDLINE_CMD pid = ''/proc/'' @ pid @ ''/cmdline''"

definition PROC_FD_CNT_CMD :: "cstr \<Rightarrow> cstr" where
  "PROC_FD_CNT_CMD pid = ''/usr/bin/ls -l /proc/'' @ pid @ ''/fd | wc -l''"

definition PROC_IO_CMD :: "cstr \<Rightarrow> cstr" where
  "PROC_IO_CMD pid = ''/usr/bin/cat /proc/'' @ pid @ ''/io''"

definition PROC_SMAPS_CMD :: "cstr \<Rightarrow> cstr" where
  "PROC_SMAPS_CMD pid = ''/usr/bin/cat /proc/'' @ pid @ ''/smaps_rollup''"

definition PROC_STAT :: "cstr \<Rightarrow> cstr" where
  "PROC_STAT pid = ''/usr/bin/cat /proc/'' @ pid @ ''/stat | awk '' @ [Q] @
     ''{print $10\":\"$12\":\"$14\":\"$15\":\"$23\":\"$24}'' @ [Q]"

type_synonym proc_key = "u64 \<times> u64"

text \<open>The string at \<open>cmdline\<close> comes with whether it is terminated.\<close>

record proc_info =
  comm :: cstr
  cmdline :: "(cstr \<times> bool) option"
  fd_count :: u32
  proc_syscr_count :: u32
  proc_syscw_count :: u32
  proc_rchar_bytes :: u64
  proc_wchar_bytes :: u64
  proc_read_bytes :: u64
  proc_write_bytes :: u64
  proc_cancelled_write_bytes :: u64
  proc_shared_dirty :: u64
  proc_shared_clean :: u64
  proc_private_dirty :: u64
  proc_private_clean :: u64
  proc_referenced :: u64
  proc_lazyfree :: u64
  proc_swap :: u64
  proc_swappss :: u64
  proc_stat_min_flt :: u64
  proc_stat_maj_flt :: u64
  proc_stat_utime :: u64
  proc_stat_stime :: u64
  proc_stat_vsize :: u64
  proc_stat_rss :: u64

definition zero_info :: proc_info where
  "zero_info = \<lparr>comm = [], cmdline = None, fd_count = 0, proc_syscr_count = 0, proc_syscw_count = 0,
     proc_rchar_bytes = 0, proc_wchar_bytes = 0, proc_read_bytes = 0, proc_write_bytes = 0,
     proc_cancelled_write_bytes = 0, proc_shared_dirty = 0, proc_shared_clean = 0, proc_private_dirty = 0,
     proc_private_clean = 0, proc_referenced = 0, proc_lazyfree = 0, proc_swap = 0, proc_swappss = 0,
     proc_stat_min_flt = 0, proc_stat_maj_flt = 0, proc_stat_utime = 0, proc_stat_stime = 0,
     proc_stat_vsize = 0, proc_stat_rss = 0\<rparr>"

record proc_hash =
  ph_key :: proc_key
  ph_flag :: int
  ph_info :: proc_info

record proc_state =
  g_probed_times :: nat
  g_procmap :: "proc_hash list"
  ps_heap :: heap

definition proc_range :: "cstr list" where
  "proc_range = [''go'', ''java'', ''python'', ''python3'', ''nginx'', ''redis'', ''redis-server'', ''redis-client'',
     ''redis-cli'', ''dhclient'', ''NetworkManager'', ''dbus'', ''rpcbind'', ''systemd'']"

text \<open>One call of the probe: the entries of \<open>/proc\<close>, what the commands print, what the files hold.\<close>

record proc_env =
  pe_dir :: "cstr list option"
  pe_popen :: "cstr \<Rightarrow> cstr option"
  pe_fopen :: "cstr \<Rightarrow> cstr option"

subsection \<open>The table\<close>

definition hash_add_proc :: "proc_hash \<Rightarrow> proc_hash list \<Rightarrow> proc_hash list" where
  "hash_add_proc p m = m @ [p]"

definition proc_key_of :: "cstr \<Rightarrow> cstr \<Rightarrow> proc_key" where
  "proc_key_of pid stime = (word_of_int (atoi pid), word_of_int (strtol stime))"

definition hash_find_proc :: "cstr \<Rightarrow> cstr \<Rightarrow> proc_hash list \<Rightarrow> proc_hash option" where
  "hash_find_proc pid stime m = List.find (\<lambda>p. ph_key p = proc_key_of pid stime) m"

definition free_proc :: "heap \<Rightarrow> proc_hash \<Rightarrow> heap" where
  "free_proc h p = free (if cmdline (ph_info p) = None then h else free h)"

definition hash_delete_and_free_proc :: "proc_state \<Rightarrow> proc_state" where
  "hash_delete_and_free_proc st = st\<lparr>g_procmap := [], ps_heap := foldl free_proc (ps_heap st) (g_procmap st)\<rparr>"

subsection \<open>Reading\<close>

definition is_proc_subdir :: "cstr \<Rightarrow> bool" where
  "is_proc_subdir name \<longleftrightarrow> name \<noteq> [] \<and> hd name \<in> set ''123456789''"

text \<open>The line that is copied into the buffer, \<open>None\<close> for the return value -1.\<close>

definition do_read_line :: "proc_env \<Rightarrow> (cstr \<Rightarrow> cstr) \<Rightarrow> cstr \<Rightarrow> nat \<Rightarrow> cstr option" where
  "do_read_line env command pid buf_len =
     (case pe_popen env (fst (snprintf PROC_LINE_LEN [] (command pid))) of
        None \<Rightarrow> None
      | Some out \<Rightarrow>
          (case fgets_chunks PROC_LINE_LEN out of
             [] \<Rightarrow> None
           | line # _ \<Rightarrow> Some (strncpy (buf_len - 1) (split_newline (c_string line)))))"

text \<open>A buffer that was filled with zeros before, and one that was not.\<close>

definition read_zeroed :: "proc_env \<Rightarrow> (cstr \<Rightarrow> cstr) \<Rightarrow> cstr \<Rightarrow> cstr" where
  "read_zeroed env command pid = (case do_read_line env command pid PROC_NAME_MAX of None \<Rightarrow> [] | Some l \<Rightarrow> l)"

definition read_buffer :: "proc_env \<Rightarrow> (cstr \<Rightarrow> cstr) \<Rightarrow> cstr \<Rightarrow> cstr option c" where
  "read_buffer env command pid =
     (case do_read_line env command pid PROC_LINE_LEN of
        None \<Rightarrow> Inr None
      | Some l \<Rightarrow> if length l < PROC_LINE_LEN - 1 then Inr (Some l) else Inl OutOfBounds)"

definition get_proc_comm :: "proc_env \<Rightarrow> cstr \<Rightarrow> cstr" where
  "get_proc_comm env pid = read_zeroed env PROC_COMM_CMD pid"

definition get_proc_start_time :: "proc_env \<Rightarrow> cstr \<Rightarrow> cstr" where
  "get_proc_start_time env pid = read_zeroed env PROC_START_TIME pid"

text \<open>
  The bytes of the array \<open>line\<close> up to \<open>index\<close>, and whether a NUL was written behind them. The end of the
  file is the character -1, and so is a byte of this value in the file.
\<close>

definition put_minus1 :: "cstr \<Rightarrow> cstr c" where
  "put_minus1 line =
     (if line = [] then Inl OutOfBounds
      else Inr ((if last line = CHR '' '' then butlast line @ [CHR 0x00] else line) @ [CHR 0xFF]))"

fun cmdline_loop :: "cstr \<Rightarrow> cstr \<Rightarrow> (cstr \<times> bool) c" where
  "cmdline_loop [] line =
     (if length line \<ge> PROC_LINE_LEN - 1 then Inr (line, True)
      else bindc (put_minus1 line) (\<lambda>l. Inr (l, False)))"
| "cmdline_loop (ch # r) line =
     (if length line \<ge> PROC_LINE_LEN - 1 then Inr (line, True)
      else if ch = CHR 0x00 then cmdline_loop r (line @ '' '')
      else if ch = CHR 0xFF then bindc (put_minus1 line) (cmdline_loop r)
      else cmdline_loop r (line @ [ch]))"

text \<open>\<open>strncpy\<close> of 127 characters leaves the last byte of the block as \<open>malloc\<close> gave it.\<close>

definition get_proc_cmdline :: "proc_env \<Rightarrow> cstr \<Rightarrow> proc_info \<Rightarrow> heap \<Rightarrow> (proc_info \<times> heap) c" where
  "get_proc_cmdline env pid info h =
     (case pe_fopen env (fst (snprintf PROC_LINE_LEN [] (PROC_CMDLINE_CMD pid))) of
        None \<Rightarrow> Inr (info, h)
      | Some content \<Rightarrow>
          bindc (cmdline_loop content []) (\<lambda>(line, _).
            if length line \<le> 1 then Inr (info, h)
            else
              (let (ok, h') = malloc h in
               if \<not> ok then Inl NullDeref
               else Inr (info\<lparr>cmdline := Some (c_string line, CHR 0x00 \<in> set line)\<rparr>, h'))))"

definition get_proc_fdcnt :: "proc_env \<Rightarrow> cstr \<Rightarrow> proc_info \<Rightarrow> (proc_info \<times> int) c" where
  "get_proc_fdcnt env pid info =
     bindc (read_buffer env PROC_FD_CNT_CMD pid) (\<lambda>b.
       Inr (case b of None \<Rightarrow> (info, - 1) | Some l \<Rightarrow> (info\<lparr>fd_count := word_of_int (atoi l)\<rparr>, 0)))"

fun do_set_proc_stat :: "proc_info \<Rightarrow> u64 \<Rightarrow> nat \<Rightarrow> proc_info" where
  "do_set_proc_stat info v i =
     (if i = 0 then info\<lparr>proc_stat_min_flt := v\<rparr> else if i = 1 then info\<lparr>proc_stat_maj_flt := v\<rparr>
      else if i = 2 then info\<lparr>proc_stat_utime := v\<rparr> else if i = 3 then info\<lparr>proc_stat_stime := v\<rparr>
      else if i = 4 then info\<lparr>proc_stat_vsize := v\<rparr> else if i = 5 then info\<lparr>proc_stat_rss := v\<rparr> else info)"

definition PROC_STAT_MAX :: nat where "PROC_STAT_MAX = 6"

definition get_proc_stat :: "proc_env \<Rightarrow> cstr \<Rightarrow> proc_info \<Rightarrow> (proc_info \<times> int) c" where
  "get_proc_stat env pid info =
     bindc (read_buffer env PROC_STAT pid) (\<lambda>b.
       Inr (case b of
              None \<Rightarrow> (info, - 1)
            | Some l \<Rightarrow>
                (foldl (\<lambda>info (i, tok). do_set_proc_stat info (word_of_int (strtol tok)) i) info
                   (enumerate 0 (take PROC_STAT_MAX (strtok_all CHR '':'' l))), 0)))"

fun do_set_proc_io :: "proc_info \<Rightarrow> u64 \<Rightarrow> nat \<Rightarrow> proc_info" where
  "do_set_proc_io info v i =
     (if i = 0 then info\<lparr>proc_rchar_bytes := v\<rparr> else if i = 1 then info\<lparr>proc_wchar_bytes := v\<rparr>
      else if i = 2 then info\<lparr>proc_syscr_count := ucast v\<rparr> else if i = 3 then info\<lparr>proc_syscw_count := ucast v\<rparr>
      else if i = 4 then info\<lparr>proc_read_bytes := v\<rparr> else if i = 5 then info\<lparr>proc_write_bytes := v\<rparr>
      else if i = 6 then info\<lparr>proc_cancelled_write_bytes := v\<rparr> else info)"

definition PROC_IO_MAX :: nat where "PROC_IO_MAX = 7"

text \<open>The number after the first word of a line.\<close>

definition second_number :: "cstr \<Rightarrow> scan" where
  "second_number line = (case skip_word (c_string line) of None \<Rightarrow> NoInput | Some r \<Rightarrow> scan_ull r)"

fun io_lines :: "cstr list \<Rightarrow> nat \<Rightarrow> proc_info \<Rightarrow> proc_info" where
  "io_lines [] i info = info"
| "io_lines (l # ls) i info =
     (if i \<ge> PROC_IO_MAX then info
      else (case second_number l of
              Scanned v _ \<Rightarrow> io_lines ls (i + 1) (do_set_proc_io info v i)
            | _ \<Rightarrow> info))"

definition get_proc_io :: "proc_env \<Rightarrow> cstr \<Rightarrow> proc_info \<Rightarrow> proc_info" where
  "get_proc_io env pid info =
     (case pe_popen env (fst (snprintf PROC_LINE_LEN [] (PROC_IO_CMD pid))) of
        None \<Rightarrow> info
      | Some out \<Rightarrow> io_lines (fgets_chunks PROC_LINE_LEN out) 0 info)"

fun do_set_proc_mss :: "proc_info \<Rightarrow> u64 \<Rightarrow> nat \<Rightarrow> proc_info" where
  "do_set_proc_mss info v i =
     (if i = 1 then info\<lparr>proc_shared_clean := v\<rparr> else if i = 2 then info\<lparr>proc_shared_dirty := v\<rparr>
      else if i = 3 then info\<lparr>proc_private_clean := v\<rparr> else if i = 4 then info\<lparr>proc_private_dirty := v\<rparr>
      else if i = 5 then info\<lparr>proc_referenced := v\<rparr> else if i = 7 then info\<lparr>proc_lazyfree := v\<rparr>
      else if i = 9 then info\<lparr>proc_swap := v\<rparr> else if i = 14 then info\<lparr>proc_swappss := v\<rparr> else info)"

definition PROC_MSS_MAX :: nat where "PROC_MSS_MAX = 16"

text \<open>Here only the end of the input, the return value -1 of \<open>sscanf\<close>, ends the loop.\<close>

fun mss_lines :: "cstr list \<Rightarrow> nat \<Rightarrow> proc_info \<Rightarrow> proc_info" where
  "mss_lines [] i info = info"
| "mss_lines (l # ls) i info =
     (if i \<ge> PROC_MSS_MAX then info
      else (case second_number l of
              NoInput \<Rightarrow> info
            | NoMatch \<Rightarrow> mss_lines ls (i + 1) (do_set_proc_mss info 0 i)
            | Scanned v _ \<Rightarrow> mss_lines ls (i + 1) (do_set_proc_mss info v i)))"

definition get_proc_mss :: "proc_env \<Rightarrow> cstr \<Rightarrow> proc_info \<Rightarrow> proc_info" where
  "get_proc_mss env pid info =
     (case pe_popen env (fst (snprintf PROC_LINE_LEN [] (PROC_SMAPS_CMD pid))) of
        None \<Rightarrow> info
      | Some out \<Rightarrow> mss_lines (fgets_chunks PROC_LINE_LEN out) 0 info)"

definition update_proc_infos :: "proc_env \<Rightarrow> cstr \<Rightarrow> proc_info \<Rightarrow> (proc_info \<times> int) c" where
  "update_proc_infos env pid info =
     bindc (get_proc_fdcnt env pid info) (\<lambda>(i1, ret).
       if ret < 0 then Inr (i1, - 1)
       else
         bindc (get_proc_stat env pid (get_proc_mss env pid (get_proc_io env pid i1))) (\<lambda>(i2, ret2).
           Inr (i2, if ret2 < 0 then - 1 else 0)))"

definition check_proc_probe_flag :: "cstr \<Rightarrow> bool" where
  "check_proc_probe_flag name = list_ex (\<lambda>r. str_pos name r \<noteq> None) proc_range"

subsection \<open>A call of the probe\<close>

definition proc_values :: "proc_key \<Rightarrow> proc_info \<Rightarrow> cstr \<Rightarrow> cstr list" where
  "proc_values k i cmd = [shown (fst k), comm i, cmd, shown (fd_count i), shown (proc_rchar_bytes i),
     shown (proc_wchar_bytes i), shown (proc_syscr_count i), shown (proc_syscw_count i), shown (proc_read_bytes i),
     shown (proc_write_bytes i), shown (proc_cancelled_write_bytes i), shown (proc_shared_clean i),
     shown (proc_shared_dirty i), shown (proc_private_clean i), shown (proc_private_dirty i), shown (proc_referenced i),
     shown (proc_lazyfree i), shown (proc_swap i), shown (proc_swappss i), shown (proc_stat_min_flt i),
     shown (proc_stat_maj_flt i), shown (proc_stat_utime i), shown (proc_stat_stime i), shown (proc_stat_vsize i),
     shown (proc_stat_rss i)]"

definition output_proc_infos :: "proc_hash \<Rightarrow> cstr c" where
  "output_proc_infos p =
     (case cmdline (ph_info p) of
        None \<Rightarrow> Inr (bars (METRICS_PROC_NAME # proc_values (ph_key p) (ph_info p) []))
      | Some (cmd, terminated) \<Rightarrow>
          if terminated then Inr (bars (METRICS_PROC_NAME # proc_values (ph_key p) (ph_info p) cmd))
          else Inl OutOfBounds)"

text \<open>The element with a key, after its information has been updated in place.\<close>

definition set_info :: "proc_key \<Rightarrow> proc_info \<Rightarrow> proc_hash list \<Rightarrow> proc_hash list" where
  "set_info key info m = map (\<lambda>p. if ph_key p = key then p\<lparr>ph_info := info\<rparr> else p) m"

definition new_proc :: "proc_env \<Rightarrow> cstr \<Rightarrow> cstr \<Rightarrow> cstr \<Rightarrow> heap \<Rightarrow> (proc_hash \<times> heap) c" where
  "new_proc env pid stime name h =
     (let (ok, h1) = malloc h in
      if \<not> ok then Inl NullDeref
      else
        bindc (get_proc_cmdline env pid (zero_info\<lparr>comm := strncpy (PROC_NAME_MAX - 1) name\<rparr>) h1) (\<lambda>(info, h2).
          Inr (\<lparr>ph_key = proc_key_of pid stime, ph_flag = 1, ph_info = info\<rparr>, h2)))"

text \<open>One round of the loop over the directory, with the lines printed so far.\<close>

definition probe_entry :: "proc_env \<Rightarrow> cstr \<Rightarrow> proc_state \<times> cstr list \<Rightarrow> (proc_state \<times> cstr list) c" where
  "probe_entry env name = (\<lambda>(st, out).
     if \<not> is_proc_subdir name then Inr (st, out)
     else
       (let stime = get_proc_start_time env name;
            fetch = (\<lambda>st.
              (let cm = get_proc_comm env name in
               if \<not> check_proc_probe_flag cm then Inr (st, out)
               else
                 bindc (new_proc env name stime cm (ps_heap st)) (\<lambda>(l, h).
                 bindc (update_proc_infos env name (ph_info l)) (\<lambda>(info, _).
                   (let l' = l\<lparr>ph_info := info\<rparr> in
                    bindc (output_proc_infos l') (\<lambda>line.
                      Inr (st\<lparr>g_procmap := hash_add_proc l' (g_procmap st), ps_heap := h\<rparr>, out @ [line])))))))
        in case hash_find_proc name stime (g_procmap st) of
             None \<Rightarrow> fetch st
           | Some p \<Rightarrow>
               if ph_flag p \<noteq> 1 then fetch st
               else
                 bindc (update_proc_infos env name (ph_info p)) (\<lambda>(info, _).
                 bindc (output_proc_infos (p\<lparr>ph_info := info\<rparr>)) (\<lambda>line.
                   Inr (st\<lparr>g_procmap := set_info (ph_key p) info (g_procmap st)\<rparr>, out @ [line])))))"

text \<open>The new state, the lines and the return value.\<close>

definition system_proc_probe :: "proc_env \<Rightarrow> proc_state \<Rightarrow> (proc_state \<times> cstr list \<times> int) c" where
  "system_proc_probe env st =
     (let st1 = (if g_probed_times st \<ge> PROBE_TIMES_MAX then hash_delete_and_free_proc st else st) in
      case pe_dir env of
        None \<Rightarrow> Inr (st1, [], - 1)
      | Some names \<Rightarrow>
          bindc (foldc (probe_entry env) names (st1, [])) (\<lambda>(st2, out).
            Inr (st2\<lparr>g_probed_times := g_probed_times st2 + 1\<rparr>, out, 0)))"

text \<open>
  The white list: the array has 14 entries and \<open>len\<close> starts at 14, so the first name is written behind it.
  The lines are those of the file, \<open>None\<close> when it cannot be opened.
\<close>

fun whitelist_lines :: "cstr list \<Rightarrow> cstr list \<Rightarrow> cstr list c" where
  "whitelist_lines rng [] = Inr rng"
| "whitelist_lines rng (l # ls) =
     (if split_newline (c_string l) = [] then whitelist_lines rng ls
      else Inl OutOfBounds)"

definition system_proc_init :: "cstr option \<Rightarrow> (cstr \<Rightarrow> cstr option) \<Rightarrow> cstr list c" where
  "system_proc_init whitelist fopen =
     (case whitelist of
        None \<Rightarrow> Inr proc_range
      | Some path \<Rightarrow>
          if path = [] then Inr proc_range
          else (case fopen path of
                  None \<Rightarrow> Inr proc_range
                | Some content \<Rightarrow> whitelist_lines proc_range (fgets_chunks PROC_NAME_MAX content)))"

section \<open>What the probe guarantees\<close>

definition map_keys :: "proc_hash list \<Rightarrow> proc_key list" where
  "map_keys m = map ph_key m"

definition map_blocks :: "proc_hash list \<Rightarrow> int" where
  "map_blocks m = sum_list (map (\<lambda>p. if cmdline (ph_info p) = None then 1 else 2) m)"

definition procmap_ok :: "int \<Rightarrow> proc_state \<Rightarrow> bool" where
  "procmap_ok base st \<longleftrightarrow> distinct (map_keys (g_procmap st))
     \<and> (\<forall>p \<in> set (g_procmap st). ph_flag p = 1 \<and> check_proc_probe_flag (comm (ph_info p)))
     \<and> mlive (ps_heap st) = base + map_blocks (g_procmap st)"

subsection \<open>The name and the command line of a process are read once\<close>

lemma do_set_keeps [simp]:
  "comm (do_set_proc_stat i v n) = comm i" "cmdline (do_set_proc_stat i v n) = cmdline i"
  "comm (do_set_proc_io i v n) = comm i" "cmdline (do_set_proc_io i v n) = cmdline i"
  "comm (do_set_proc_mss i v n) = comm i" "cmdline (do_set_proc_mss i v n) = cmdline i"
  by simp_all

declare do_set_proc_stat.simps [simp del] do_set_proc_io.simps [simp del] do_set_proc_mss.simps [simp del]

lemma lines_keep [simp]:
  "comm (io_lines ls n i) = comm i" "cmdline (io_lines ls n i) = cmdline i"
  "comm (mss_lines ls n i) = comm i" "cmdline (mss_lines ls n i) = cmdline i"
proof -
  show "comm (io_lines ls n i) = comm i" "cmdline (io_lines ls n i) = cmdline i"
    by (induction ls n i rule: io_lines.induct) (auto split: scan.splits)
  show "comm (mss_lines ls n i) = comm i" "cmdline (mss_lines ls n i) = cmdline i"
    by (induction ls n i rule: mss_lines.induct) (auto split: scan.splits)
qed

lemma io_mss_keep [simp]:
  "comm (get_proc_io env pid i) = comm i" "cmdline (get_proc_io env pid i) = cmdline i"
  "comm (get_proc_mss env pid i) = comm i" "cmdline (get_proc_mss env pid i) = cmdline i"
  by (simp_all add: get_proc_io_def get_proc_mss_def split: option.splits)

lemma stat_fold_keep [simp]:
  "comm (foldl (\<lambda>info (i, tok). do_set_proc_stat info (f tok) i) info xs) = comm info"
  "cmdline (foldl (\<lambda>info (i, tok). do_set_proc_stat info (f tok) i) info xs) = cmdline info"
  by (induction xs arbitrary: info) auto

lemma update_keeps:
  "update_proc_infos env pid i = Inr (i', r) \<Longrightarrow> comm i' = comm i \<and> cmdline i' = cmdline i"
  by (auto simp: update_proc_infos_def get_proc_fdcnt_def get_proc_stat_def split: option.splits if_splits)

text \<open>What is stored of a process when it is seen first.\<close>

definition new_info :: "proc_env \<Rightarrow> cstr \<Rightarrow> proc_info" where
  "new_info env pid =
     (case get_proc_cmdline env pid (zero_info\<lparr>comm := strncpy (PROC_NAME_MAX - 1) (get_proc_comm env pid)\<rparr>) heap0 of
        Inl _ \<Rightarrow> zero_info | Inr (i, _) \<Rightarrow> i)"

lemma comm_short: "length (get_proc_comm env pid) \<le> PROC_NAME_MAX - 1"
  by (auto simp: get_proc_comm_def read_zeroed_def do_read_line_def split: option.splits list.splits)

lemma new_proc_run:
  assumes "new_proc env pid stime (get_proc_comm env pid) h = Inr (l, h')"
  shows "l = \<lparr>ph_key = proc_key_of pid stime, ph_flag = 1, ph_info = new_info env pid\<rparr>"
    and "mlive h' = mlive h + map_blocks [l]" and "comm (new_info env pid) = get_proc_comm env pid"
proof -
  let ?i = "zero_info\<lparr>comm := strncpy (PROC_NAME_MAX - 1) (get_proc_comm env pid)\<rparr>"
  obtain ok h1 where m: "malloc h = (ok, h1)" by (cases "malloc h")
  with assms obtain i where ok: ok and g: "get_proc_cmdline env pid ?i h1 = Inr (i, h')"
    and l: "l = \<lparr>ph_key = proc_key_of pid stime, ph_flag = 1, ph_info = i\<rparr>"
    by (auto simp: new_proc_def split: if_splits)
  have live: "mlive h1 = mlive h + 1" using m ok malloc_live by auto
  from g have *: "new_info env pid = i \<and> comm i = strncpy (PROC_NAME_MAX - 1) (get_proc_comm env pid)
      \<and> mlive h' = mlive h1 + (if cmdline i = None then 0 else 1)"
  proof (cases "pe_fopen env (fst (snprintf PROC_LINE_LEN [] (PROC_CMDLINE_CMD pid)))")
    case None
    with g show ?thesis by (auto simp: get_proc_cmdline_def new_info_def zero_info_def)
  next
    case (Some content)
    with g show ?thesis
      by (cases "cmdline_loop content []"; cases "malloc h1")
        (auto simp: get_proc_cmdline_def new_info_def zero_info_def malloc_live split: if_splits)
  qed
  show "l = \<lparr>ph_key = proc_key_of pid stime, ph_flag = 1, ph_info = new_info env pid\<rparr>" using l * by simp
  show "mlive h' = mlive h + map_blocks [l]" using l * live by (simp add: map_blocks_def)
  show "comm (new_info env pid) = get_proc_comm env pid" using * comm_short by (simp add: strncpy_id)
qed

lemma find_key: "hash_find_proc pid stime m = None \<longleftrightarrow> proc_key_of pid stime \<notin> set (map_keys m)"
  by (force simp: hash_find_proc_def find_None_iff map_keys_def)

lemma find_some: "hash_find_proc pid stime m = Some p \<Longrightarrow> p \<in> set m \<and> ph_key p = proc_key_of pid stime"
  by (auto simp: hash_find_proc_def find_Some_iff)

lemma set_info_keys [simp]: "map_keys (set_info k i m) = map_keys m"
  by (simp add: map_keys_def set_info_def comp_def)

lemma set_info_blocks:
  "distinct (map_keys m) \<Longrightarrow> p \<in> set m \<Longrightarrow> cmdline i = cmdline (ph_info p) \<Longrightarrow> map_blocks (set_info (ph_key p) i m) = map_blocks m"
proof -
  assume d: "distinct (map_keys m)" and p: "p \<in> set m" "cmdline i = cmdline (ph_info p)"
  have that_unique: "q = p" if "q \<in> set m" "ph_key q = ph_key p" for q
    using d p(1) that by (auto simp: map_keys_def distinct_map dest: inj_onD)
  with p(2) show ?thesis
    unfolding map_blocks_def set_info_def map_map
    by (intro arg_cong [where f = sum_list] map_cong) (auto dest: that_unique)
qed

subsection \<open>One entry of the directory\<close>

definition key_of :: "proc_env \<Rightarrow> cstr \<Rightarrow> proc_key" where
  "key_of env n = proc_key_of n (get_proc_start_time env n)"

text \<open>A process is reported when it is in the table or its name is in the list; its information starts from
  what the table holds or from what is read when it is first seen.\<close>

definition reported :: "proc_env \<Rightarrow> proc_hash list \<Rightarrow> cstr \<Rightarrow> bool" where
  "reported env m n \<longleftrightarrow> is_proc_subdir n
     \<and> (key_of env n \<in> set (map_keys m) \<or> check_proc_probe_flag (get_proc_comm env n))"

definition base_info :: "proc_env \<Rightarrow> proc_hash list \<Rightarrow> cstr \<Rightarrow> proc_info" where
  "base_info env m n =
     (case hash_find_proc n (get_proc_start_time env n) m of Some p \<Rightarrow> ph_info p | None \<Rightarrow> new_info env n)"

text \<open>The table and the line of a reported process.\<close>

definition reports :: "proc_env \<Rightarrow> proc_hash list \<Rightarrow> proc_hash list \<Rightarrow> cstr \<Rightarrow> cstr \<Rightarrow> bool" where
  "reports env m m' n line \<longleftrightarrow>
     (\<exists>p \<in> set m'. ph_key p = key_of env n \<and> output_proc_infos p = Inr line
        \<and> (\<exists>r. update_proc_infos env n (base_info env m n) = Inr (ph_info p, r)))"

definition keeps_others :: "proc_key \<Rightarrow> proc_hash list \<Rightarrow> proc_hash list \<Rightarrow> bool" where
  "keeps_others k m m' \<longleftrightarrow> (\<forall>q \<in> set m. ph_key q \<noteq> k \<longrightarrow> q \<in> set m')
     \<and> (\<forall>j. j \<noteq> k \<longrightarrow> List.find (\<lambda>p. ph_key p = j) m' = List.find (\<lambda>p. ph_key p = j) m)"

lemma find_set_info: "j \<noteq> k \<Longrightarrow> List.find (\<lambda>p. ph_key p = j) (set_info k i m) = List.find (\<lambda>p. ph_key p = j) m"
  by (induction m) (auto simp: set_info_def)

lemma set_info_others: "keeps_others k m (set_info k i m)"
  unfolding keeps_others_def using find_set_info [of _ k i m] by (auto simp: set_info_def image_iff)

lemma add_others: "ph_key p = k \<Longrightarrow> keeps_others k m (m @ [p])"
  by (auto simp: keeps_others_def find_append split: option.splits)

lemma entry_cached:
  assumes ok: "procmap_ok base st" and sub: "is_proc_subdir n"
    and found: "hash_find_proc n (get_proc_start_time env n) (g_procmap st) = Some p"
    and run: "probe_entry env n (st, out) = Inr (st', out')"
  shows "procmap_ok base st' \<and> g_probed_times st' = g_probed_times st
    \<and> (\<exists>line. out' = out @ [line] \<and> reports env (g_procmap st) (g_procmap st') n line)
    \<and> map_keys (g_procmap st') = map_keys (g_procmap st) \<and> keeps_others (key_of env n) (g_procmap st) (g_procmap st')"
proof -
  from find_some [OF found] have p: "p \<in> set (g_procmap st)" "ph_key p = key_of env n" by (simp_all add: key_of_def)
  with ok have "ph_flag p = 1" by (simp add: procmap_ok_def)
  with run sub found obtain info r line where u: "update_proc_infos env n (ph_info p) = Inr (info, r)"
    and o: "output_proc_infos (p\<lparr>ph_info := info\<rparr>) = Inr line" "out' = out @ [line]"
    and st': "st' = st\<lparr>g_procmap := set_info (ph_key p) info (g_procmap st)\<rparr>"
    by (auto simp: probe_entry_def)
  note keep = update_keeps [OF u]
  have "p\<lparr>ph_info := info\<rparr> \<in> set (g_procmap st')" using p(1) by (auto simp: st' set_info_def)
  moreover have "base_info env (g_procmap st) n = ph_info p" using found by (simp add: base_info_def)
  ultimately have "reports env (g_procmap st) (g_procmap st') n line"
    using u o p(2) by (auto simp: reports_def intro!: bexI [of _ "p\<lparr>ph_info := info\<rparr>"])
  moreover have "procmap_ok base st'"
    using ok p(1) keep set_info_blocks [OF _ p(1), of info]
    by (auto simp: procmap_ok_def st') (auto simp: set_info_def)
  moreover have "keeps_others (key_of env n) (g_procmap st) (g_procmap st')"
    using set_info_others [of "ph_key p"] by (simp add: st' p(2))
  ultimately show ?thesis using o(2) by (auto simp: st')
qed

lemma entry_new:
  assumes ok: "procmap_ok base st" and sub: "is_proc_subdir n"
    and found: "hash_find_proc n (get_proc_start_time env n) (g_procmap st) = None"
    and ch: "check_proc_probe_flag (get_proc_comm env n)"
    and run: "probe_entry env n (st, out) = Inr (st', out')"
  shows "procmap_ok base st' \<and> g_probed_times st' = g_probed_times st
    \<and> (\<exists>line. out' = out @ [line] \<and> reports env (g_procmap st) (g_procmap st') n line)
    \<and> map_keys (g_procmap st') = map_keys (g_procmap st) @ [key_of env n]
    \<and> keeps_others (key_of env n) (g_procmap st) (g_procmap st')"
proof -
  from run sub found ch obtain l h info r line where
      n: "new_proc env n (get_proc_start_time env n) (get_proc_comm env n) (ps_heap st) = Inr (l, h)"
    and u: "update_proc_infos env n (ph_info l) = Inr (info, r)"
    and o: "output_proc_infos (l\<lparr>ph_info := info\<rparr>) = Inr line" "out' = out @ [line]"
    and st': "st' = st\<lparr>g_procmap := g_procmap st @ [l\<lparr>ph_info := info\<rparr>], ps_heap := h\<rparr>"
    by (auto simp: probe_entry_def hash_add_proc_def Let_def)
  note new = new_proc_run [OF n] and keep = update_keeps [OF u]
  have key: "ph_key l = key_of env n" "ph_flag l = 1" "ph_info l = new_info env n"
    using new(1) by (simp_all add: key_of_def)
  have "base_info env (g_procmap st) n = ph_info l" using found key by (simp add: base_info_def)
  then have "reports env (g_procmap st) (g_procmap st') n line"
    using u o key by (auto simp: reports_def st')
  moreover have "procmap_ok base st'"
    using ok find_key [of n "get_proc_start_time env n" "g_procmap st"] found new(2,3) keep key ch
    by (auto simp: procmap_ok_def st' map_keys_def map_blocks_def key_of_def)
  moreover have "keeps_others (key_of env n) (g_procmap st) (g_procmap st')"
    by (simp add: st' add_others key)
  ultimately show ?thesis using o(2) key by (auto simp: st' map_keys_def)
qed

lemma entry_skipped:
  assumes ok: "procmap_ok base st" and "\<not> reported env (g_procmap st) n"
    and run: "probe_entry env n (st, out) = Inr (st', out')"
  shows "st' = st \<and> out' = out"
proof (cases "is_proc_subdir n")
  case False
  with run show ?thesis by (simp add: probe_entry_def)
next
  case True
  with assms(2) have "hash_find_proc n (get_proc_start_time env n) (g_procmap st) = None"
    "\<not> check_proc_probe_flag (get_proc_comm env n)"
    by (simp_all add: reported_def find_key key_of_def)
  with run True show ?thesis by (simp add: probe_entry_def)
qed

lemma entry_step:
  assumes ok: "procmap_ok base st" and run: "probe_entry env n (st, out) = Inr (st', out')"
  shows "procmap_ok base st' \<and> g_probed_times st' = g_probed_times st"
    and "reported env (g_procmap st) n \<Longrightarrow> \<exists>line. out' = out @ [line] \<and> reports env (g_procmap st) (g_procmap st') n line"
    and "\<not> reported env (g_procmap st) n \<Longrightarrow> out' = out"
    and "map_keys (g_procmap st') = map_keys (g_procmap st)
      @ (if reported env (g_procmap st) n \<and> key_of env n \<notin> set (map_keys (g_procmap st)) then [key_of env n] else [])"
    and "keeps_others (key_of env n) (g_procmap st) (g_procmap st')"
proof -
  let ?m = "g_procmap st"
  have "procmap_ok base st' \<and> g_probed_times st' = g_probed_times st
    \<and> (if reported env ?m n then \<exists>line. out' = out @ [line] \<and> reports env ?m (g_procmap st') n line else out' = out)
    \<and> map_keys (g_procmap st') = map_keys ?m @ (if reported env ?m n \<and> key_of env n \<notin> set (map_keys ?m) then [key_of env n] else [])
    \<and> keeps_others (key_of env n) ?m (g_procmap st')"
  proof (cases "reported env ?m n")
    case False
    with entry_skipped [OF ok False run] ok show ?thesis by (auto simp: keeps_others_def)
  next
    case True
    then have sub: "is_proc_subdir n" by (simp add: reported_def)
    show ?thesis
    proof (cases "hash_find_proc n (get_proc_start_time env n) ?m")
      case (Some p)
      then have "key_of env n \<in> set (map_keys ?m)"
        using find_key [of n "get_proc_start_time env n" ?m] by (simp add: key_of_def)
      with entry_cached [OF ok sub Some run] True show ?thesis by simp
    next
      case None
      then have "key_of env n \<notin> set (map_keys ?m)"
        using find_key [of n "get_proc_start_time env n" ?m] by (simp add: key_of_def)
      moreover from this True have "check_proc_probe_flag (get_proc_comm env n)" by (simp add: reported_def)
      ultimately show ?thesis using entry_new [OF ok sub None _ run] True by simp
    qed
  qed
  then show "procmap_ok base st' \<and> g_probed_times st' = g_probed_times st"
    and "reported env ?m n \<Longrightarrow> \<exists>line. out' = out @ [line] \<and> reports env ?m (g_procmap st') n line"
    and "\<not> reported env ?m n \<Longrightarrow> out' = out"
    and "map_keys (g_procmap st') = map_keys ?m @ (if reported env ?m n \<and> key_of env n \<notin> set (map_keys ?m) then [key_of env n] else [])"
    and "keeps_others (key_of env n) ?m (g_procmap st')"
    by (simp_all split: if_splits)
qed

subsection \<open>The whole directory\<close>

lemma find_keys: "List.find (\<lambda>p. ph_key p = j) m' = List.find (\<lambda>p. ph_key p = j) m \<Longrightarrow> j \<in> set (map_keys m') \<longleftrightarrow> j \<in> set (map_keys m)"
proof -
  assume e: "List.find (\<lambda>p. ph_key p = j) m' = List.find (\<lambda>p. ph_key p = j) m"
  have "j \<in> set (map_keys x) \<longleftrightarrow> List.find (\<lambda>p. ph_key p = j) x \<noteq> None" for x
    by (auto simp: find_None_iff map_keys_def)
  with e show ?thesis by simp
qed

lemma others_same:
  assumes "keeps_others k m m1" "key_of env n \<noteq> k"
  shows "reported env m1 n \<longleftrightarrow> reported env m n" "base_info env m1 n = base_info env m n"
proof -
  have f: "List.find (\<lambda>p. ph_key p = key_of env n) m1 = List.find (\<lambda>p. ph_key p = key_of env n) m"
    using assms(1) [unfolded keeps_others_def] assms(2) by blast
  then show "reported env m1 n \<longleftrightarrow> reported env m n" using find_keys [OF f] by (simp add: reported_def)
  show "base_info env m1 n = base_info env m n" using f by (simp add: base_info_def hash_find_proc_def key_of_def)
qed

text \<open>Where no process that is reported makes the probe leave an array: the two commands print short lines, and the
  command line of a process that is seen first is terminated.\<close>

definition counts_readable :: "proc_env \<Rightarrow> cstr \<Rightarrow> bool" where
  "counts_readable env n \<longleftrightarrow> (read_buffer env PROC_FD_CNT_CMD n \<noteq> Inl OutOfBounds) \<and> (read_buffer env PROC_STAT n \<noteq> Inl OutOfBounds)"

definition cmdline_readable :: "proc_env \<Rightarrow> cstr \<Rightarrow> bool" where
  "cmdline_readable env n \<longleftrightarrow>
     (case get_proc_cmdline env n zero_info heap0 of
        Inl _ \<Rightarrow> False
      | Inr (i, _) \<Rightarrow> (case cmdline i of None \<Rightarrow> True | Some (_, terminated) \<Rightarrow> terminated))"

definition readable :: "proc_env \<Rightarrow> proc_hash list \<Rightarrow> cstr \<Rightarrow> bool" where
  "readable env m n \<longleftrightarrow>
     (reported env m n \<longrightarrow> counts_readable env n \<and> (key_of env n \<notin> set (map_keys m) \<longrightarrow> cmdline_readable env n))"

definition terminated_map :: "proc_hash list \<Rightarrow> bool" where
  "terminated_map m \<longleftrightarrow> (\<forall>p \<in> set m. case cmdline (ph_info p) of None \<Rightarrow> True | Some (_, terminated) \<Rightarrow> terminated)"

lemma read_buffer_cases: "read_buffer env cmd n \<noteq> Inl OutOfBounds \<Longrightarrow> \<exists>b. read_buffer env cmd n = Inr b"
  by (auto simp: read_buffer_def split: option.splits if_splits)

lemma update_total: "counts_readable env n \<Longrightarrow> \<exists>i' r. update_proc_infos env n i = Inr (i', r)"
proof -
  assume ok: "counts_readable env n"
  then obtain b1 b2 where b: "read_buffer env PROC_FD_CNT_CMD n = Inr b1" "read_buffer env PROC_STAT n = Inr b2"
    using read_buffer_cases by (metis counts_readable_def)
  obtain i1 r1 where 1: "get_proc_fdcnt env n i = Inr (i1, r1)"
    using b(1) by (cases b1) (simp_all add: get_proc_fdcnt_def)
  obtain i2 r2 where "get_proc_stat env n (get_proc_mss env n (get_proc_io env n i1)) = Inr (i2, r2)"
    using b(2) by (cases b2) (simp_all add: get_proc_stat_def)
  with 1 show ?thesis by (simp add: update_proc_infos_def)
qed

lemma output_total:
  "(case cmdline (ph_info p) of None \<Rightarrow> True | Some (_, terminated) \<Rightarrow> terminated) \<Longrightarrow> \<exists>line. output_proc_infos p = Inr line"
  by (auto simp: output_proc_infos_def split: option.splits)

text \<open>The command line does not depend on what the information and the heap held before.\<close>

lemma cmdline_any:
  assumes "cmdline_readable env n" "mscript h = []" "cmdline i = None"
  shows "\<exists>i' h'. get_proc_cmdline env n i h = Inr (i', h') \<and> mscript h' = []
    \<and> (case cmdline i' of None \<Rightarrow> True | Some (_, terminated) \<Rightarrow> terminated)"
proof (cases "pe_fopen env (fst (snprintf PROC_LINE_LEN [] (PROC_CMDLINE_CMD n)))")
  case None
  with assms show ?thesis by (simp add: get_proc_cmdline_def)
next
  case (Some content)
  with assms(1) obtain line b where l: "cmdline_loop content [] = Inr (line, b)"
    by (cases "cmdline_loop content []") (auto simp: get_proc_cmdline_def cmdline_readable_def)
  show ?thesis
  proof (cases "length line \<le> 1")
    case True
    then have "get_proc_cmdline env n i h = Inr (i, h)" using Some l by (simp add: get_proc_cmdline_def)
    with assms(2,3) show ?thesis by auto
  next
    case False
    then have g: "mscript x = [] \<Longrightarrow> get_proc_cmdline env n j x
        = Inr (j\<lparr>cmdline := Some (c_string line, CHR 0x00 \<in> set line)\<rparr>, x\<lparr>mlive := mlive x + 1\<rparr>)" for j x
      using Some l by (simp add: get_proc_cmdline_def malloc_def)
    have "CHR 0x00 \<in> set line" using assms(1) g [of heap0 zero_info] by (simp add: cmdline_readable_def)
    with g [OF assms(2), of i] assms(2) show ?thesis by auto
  qed
qed

lemma entry_total:
  assumes "readable env (g_procmap st) n" "terminated_map (g_procmap st)" "mscript (ps_heap st) = []" "procmap_ok base st"
  shows "\<exists>st' out'. probe_entry env n (st, out) = Inr (st', out') \<and> terminated_map (g_procmap st') \<and> mscript (ps_heap st') = []"
proof (cases "is_proc_subdir n")
  case False
  with assms show ?thesis by (simp add: probe_entry_def)
next
  case sub: True
  show ?thesis
  proof (cases "hash_find_proc n (get_proc_start_time env n) (g_procmap st)")
    case (Some p)
    from find_some [OF this] have p: "p \<in> set (g_procmap st)" by simp
    then have "key_of env n \<in> set (map_keys (g_procmap st))"
      using find_some [OF Some] by (force simp: map_keys_def key_of_def)
    then have rd: "counts_readable env n" using assms(1) sub by (simp add: readable_def reported_def)
    from p have t: "ph_flag p = 1" "case cmdline (ph_info p) of None \<Rightarrow> True | Some (_, terminated) \<Rightarrow> terminated"
      using assms(2,4) by (auto simp: terminated_map_def procmap_ok_def)
    obtain i r where u: "update_proc_infos env n (ph_info p) = Inr (i, r)" using update_total [OF rd] by blast
    have k: "cmdline i = cmdline (ph_info p)" using update_keeps [OF u] by simp
    with t(2) obtain line where o: "output_proc_infos (p\<lparr>ph_info := i\<rparr>) = Inr line"
      using output_total [of "p\<lparr>ph_info := i\<rparr>"] by auto
    have "terminated_map (set_info (ph_key p) i (g_procmap st))"
      using assms(2) t(2) k by (auto simp: terminated_map_def set_info_def)
    then show ?thesis using sub Some t(1) u o assms(3) by (simp add: probe_entry_def Let_def)
  next
    case None
    then have new: "key_of env n \<notin> set (map_keys (g_procmap st))"
      by (auto simp: hash_find_proc_def find_None_iff map_keys_def key_of_def)
    show ?thesis
    proof (cases "check_proc_probe_flag (get_proc_comm env n)")
      case False
      with sub None assms show ?thesis by (simp add: probe_entry_def Let_def)
    next
      case True
      then have rd: "counts_readable env n" "cmdline_readable env n"
        using assms(1) sub new by (simp_all add: readable_def reported_def)
      let ?h1 = "(ps_heap st)\<lparr>mlive := mlive (ps_heap st) + 1\<rparr>"
      let ?i = "zero_info\<lparr>comm := strncpy (PROC_NAME_MAX - 1) (get_proc_comm env n)\<rparr>"
      obtain i h where c: "get_proc_cmdline env n ?i ?h1 = Inr (i, h)" "mscript h = []"
        "case cmdline i of None \<Rightarrow> True | Some (_, terminated) \<Rightarrow> terminated"
        using cmdline_any [OF rd(2), of ?h1 ?i] assms(3) by (auto simp: zero_info_def)
      obtain i2 r where u: "update_proc_infos env n i = Inr (i2, r)" using update_total [OF rd(1)] by blast
      have k: "cmdline i2 = cmdline i" using update_keeps [OF u] by simp
      let ?l = "\<lparr>ph_key = proc_key_of n (get_proc_start_time env n), ph_flag = 1, ph_info = i2\<rparr>"
      from k c(3) obtain line where o: "output_proc_infos ?l = Inr line" using output_total [of ?l] by auto
      have "new_proc env n (get_proc_start_time env n) (get_proc_comm env n) (ps_heap st) = Inr (?l\<lparr>ph_info := i\<rparr>, h)"
        using c(1) assms(3) by (simp add: new_proc_def malloc_def)
      moreover have "terminated_map (g_procmap st @ [?l])"
        using assms(2) k c(3) by (auto simp: terminated_map_def)
      ultimately show ?thesis
        using sub None True u o c(2) by (simp add: probe_entry_def Let_def hash_add_proc_def)
    qed
  qed
qed

definition new_keys :: "proc_env \<Rightarrow> proc_hash list \<Rightarrow> cstr list \<Rightarrow> proc_key list" where
  "new_keys env m names = map (key_of env) (filter (\<lambda>n. reported env m n \<and> key_of env n \<notin> set (map_keys m)) names)"

lemma entries_run:
  assumes "procmap_ok base st" "terminated_map (g_procmap st)" "mscript (ps_heap st) = []"
    and "list_all (readable env (g_procmap st)) names" "distinct (map (key_of env) names)"
  shows "\<exists>st' lines. foldc (probe_entry env) names (st, out) = Inr (st', out @ lines)
    \<and> procmap_ok base st' \<and> terminated_map (g_procmap st') \<and> mscript (ps_heap st') = [] \<and> g_probed_times st' = g_probed_times st
    \<and> list_all2 (reports env (g_procmap st) (g_procmap st')) (filter (reported env (g_procmap st)) names) lines
    \<and> map_keys (g_procmap st') = map_keys (g_procmap st) @ new_keys env (g_procmap st) names
    \<and> (\<forall>q \<in> set (g_procmap st). ph_key q \<notin> set (map (key_of env) names) \<longrightarrow> q \<in> set (g_procmap st'))"
  using assms
proof (induction names arbitrary: st out)
  case Nil
  then show ?case by (simp add: new_keys_def)
next
  case (Cons n names)
  let ?m = "g_procmap st"
  obtain st1 out1 where e: "probe_entry env n (st, out) = Inr (st1, out1)" "terminated_map (g_procmap st1)" "mscript (ps_heap st1) = []"
    using entry_total [of env st n base out] Cons.prems by auto
  let ?m1 = "g_procmap st1"
  note step = entry_step [OF Cons.prems(1) e(1)]
  have other: "key_of env x \<noteq> key_of env n" if "x \<in> set names" for x
    using Cons.prems(5) imageI [OF that, of "key_of env"] by auto
  note same = others_same [OF step(5) other]
  have rep: "filter (reported env ?m1) names = filter (reported env ?m) names"
    using same(1) by (intro filter_cong) simp_all
  have key: "key_of env x \<in> set (map_keys ?m1) \<longleftrightarrow> key_of env x \<in> set (map_keys ?m)" if "x \<in> set names" for x
    using step(4) other [OF that] by auto
  have names: "list_all (readable env ?m1) names" "distinct (map (key_of env) names)"
    using Cons.prems(4,5) same(1) key by (auto simp: list_all_iff readable_def)
  from Cons.IH [OF _ e(2,3) names, of out1] step(1) obtain st' lines where
    run: "foldc (probe_entry env) names (st1, out1) = Inr (st', out1 @ lines)"
      "procmap_ok base st'" "terminated_map (g_procmap st')" "mscript (ps_heap st') = []" "g_probed_times st' = g_probed_times st1"
      "list_all2 (reports env ?m1 (g_procmap st')) (filter (reported env ?m1) names) lines"
      "map_keys (g_procmap st') = map_keys ?m1 @ new_keys env ?m1 names"
      "\<forall>q \<in> set ?m1. ph_key q \<notin> set (map (key_of env) names) \<longrightarrow> q \<in> set (g_procmap st')"
    by auto
  have new: "new_keys env ?m (n # names)
      = (if reported env ?m n \<and> key_of env n \<notin> set (map_keys ?m) then [key_of env n] else []) @ new_keys env ?m1 names"
  proof -
    have "filter (\<lambda>x. reported env ?m1 x \<and> key_of env x \<notin> set (map_keys ?m1)) names
        = filter (\<lambda>x. reported env ?m x \<and> key_of env x \<notin> set (map_keys ?m)) names"
      using same(1) key by (intro filter_cong) simp_all
    then show ?thesis by (simp add: new_keys_def)
  qed
  have lines: "list_all2 (reports env ?m (g_procmap st')) (filter (reported env ?m) names) lines"
    using run(6) unfolding rep
    by (rule list.rel_mono_strong) (auto simp: reports_def same(2))
  have first: "reports env ?m (g_procmap st') n line" if "reports env ?m ?m1 n line" for line
  proof -
    have "key_of env n \<notin> set (map (key_of env) names)" using Cons.prems(5) by simp
    with that run(8) show ?thesis by (auto simp: reports_def)
  qed
  have kept: "\<forall>q \<in> set ?m. ph_key q \<notin> set (map (key_of env) (n # names)) \<longrightarrow> q \<in> set (g_procmap st')"
    using step(5) run(8) by (auto simp: keeps_others_def)
  have keys: "map_keys (g_procmap st') = map_keys ?m @ new_keys env ?m (n # names)"
    using run(7) step(4) new by simp
  show ?case
  proof (cases "reported env ?m n")
    case True
    from step(2) [OF this] obtain line where l: "out1 = out @ [line]" "reports env ?m ?m1 n line" by blast
    show ?thesis
      using True e(1) run(1-5) l step(1) lines first [OF l(2)] keys kept
      by (intro exI [of _ st'] exI [of _ "line # lines"]) simp
  next
    case False
    with step(3) have "out1 = out" by simp
    with False e(1) run(1-5) step(1) lines keys kept show ?thesis
      by (intro exI [of _ st'] exI [of _ lines]) simp
  qed
qed

lemma delete_all: "mlive (foldl free_proc h m) = mlive h - map_blocks m" "mscript (foldl free_proc h m) = mscript h"
  by (induction m arbitrary: h) (simp_all add: free_proc_def map_blocks_def)

lemma entries_skip: "foldc (probe_entry env) names = foldc (probe_entry env) (filter is_proc_subdir names)"
proof -
  have "probe_entry env n s = Inr s" if "\<not> is_proc_subdir n" for n s
    using that by (cases s) (simp add: probe_entry_def)
  then show ?thesis by (induction names) (rule ext, simp)+
qed

lemma reported_subdir: "filter (reported env m) (filter is_proc_subdir names) = filter (reported env m) names"
  "new_keys env m (filter is_proc_subdir names) = new_keys env m names"
  unfolding new_keys_def filter_filter
  by (rule filter_cong arg_cong [where f = "map _"]; auto simp: reported_def)+

text \<open>What the table holds when a call has opened the directory.\<close>

definition remembered :: "proc_state \<Rightarrow> proc_hash list" where
  "remembered st = (if g_probed_times st \<ge> 200 then [] else g_procmap st)"

text \<open>The line of a reported process: its entry has the name and the command line of the one that is remembered, or the name
  that is read now; its numbers are those that are read now, and where a command fails those it had.\<close>

definition prints :: "proc_env \<Rightarrow> proc_hash list \<Rightarrow> proc_hash list \<Rightarrow> cstr \<Rightarrow> cstr \<Rightarrow> bool" where
  "prints env m m' n line \<longleftrightarrow>
     (\<exists>p \<in> set m'. ph_key p = key_of env n \<and> output_proc_infos p = Inr line
        \<and> (case hash_find_proc n (get_proc_start_time env n) m of
              None \<Rightarrow> comm (ph_info p) = get_proc_comm env n
            | Some q \<Rightarrow> comm (ph_info p) = comm (ph_info q) \<and> cmdline (ph_info p) = cmdline (ph_info q))
        \<and> (\<exists>r. update_proc_infos env n (base_info env m n) = Inr (ph_info p, r)))"

lemma new_info_comm: "cmdline_readable env n \<Longrightarrow> comm (new_info env n) = get_proc_comm env n"
proof -
  assume ok: "cmdline_readable env n"
  let ?i = "zero_info\<lparr>comm := strncpy (PROC_NAME_MAX - 1) (get_proc_comm env n)\<rparr>"
  obtain i h where c: "get_proc_cmdline env n ?i heap0 = Inr (i, h)"
    using cmdline_any [OF ok, of heap0 ?i] by (auto simp: zero_info_def)
  then have "comm i = comm ?i"
    by (auto simp: get_proc_cmdline_def Let_def split: option.splits sum.splits prod.splits if_splits)
  with c show ?thesis using comm_short [of env n] by (simp add: new_info_def strncpy_def)
qed

lemma reports_prints:
  assumes "reports env m m' n line" "reported env m n" "readable env m n"
  shows "prints env m m' n line"
proof -
  from assms(1) obtain p r where p: "p \<in> set m'" "ph_key p = key_of env n" "output_proc_infos p = Inr line"
    "update_proc_infos env n (base_info env m n) = Inr (ph_info p, r)" by (auto simp: reports_def)
  have same: "comm (ph_info p) = comm (base_info env m n)" "cmdline (ph_info p) = cmdline (base_info env m n)"
    using update_keeps [OF p(4)] by simp_all
  have "comm (new_info env n) = get_proc_comm env n" if "hash_find_proc n (get_proc_start_time env n) m = None"
  proof -
    have "key_of env n \<notin> set (map_keys m)"
      using that by (auto simp: hash_find_proc_def find_None_iff map_keys_def key_of_def)
    with assms(2,3) show ?thesis by (intro new_info_comm) (simp add: readable_def)
  qed
  with p same show ?thesis by (auto simp: prints_def base_info_def split: option.splits)
qed

subsection \<open>Properties\<close>


text \<open>A call in which process 2 is a thread of the kernel, 7 is known and 9 is new; 3 has ended.\<close>

definition example_procs :: proc_env where
  "example_procs = \<lparr>pe_dir = Some [''.'', ''self'', ''2'', ''7'', ''9''],
     pe_popen = (\<lambda>cmd. if cmd = PROC_COMM_CMD ''9'' then Some (''nginx'' @ [CHR 0x0A])
                      else if cmd = PROC_COMM_CMD ''2'' then Some (''kthreadd'' @ [CHR 0x0A])
                      else if cmd = PROC_FD_CNT_CMD ''7'' then None else Some (''12'' @ [CHR 0x0A])),
     pe_fopen = (\<lambda>path. if path = PROC_CMDLINE_CMD ''9'' then Some (''nginx'' @ [CHR 0x00]) else Some [])\<rparr>"

definition example_known :: proc_state where
  "example_known = \<lparr>g_probed_times = 199,
     g_procmap = [\<lparr>ph_key = (3, 12), ph_flag = 1, ph_info = zero_info\<lparr>comm := ''java''\<rparr>\<rparr>,
                  \<lparr>ph_key = (7, 12), ph_flag = 1, ph_info = zero_info\<lparr>comm := ''redis-cli'', cmdline := Some (''redis-cli -h'', True)\<rparr>\<rparr>],
     ps_heap = heap0\<lparr>mlive := 3\<rparr>\<rparr>"


end
