(* ===== verification/Spec2Isabelle.thy ===== *)
theory Spec2Isabelle
  imports Fifo Meta Config Args ImdbJson Kafka Probe ExtendProbe Egress Ingress Pipeline WebServer Resource Daemon Cmd Event
    TcpLinks TcpLines TcpProbe SystemProcs
begin

text \<open>
  \<^bold>\<open>gala-gopher: a verification development.\<close>

  gala-gopher is the data collector of A-Ops. Its C sources are under \<open>src/gala-gopher/src\<close>, and all
  paths below are relative to that directory.

  \<^bold>\<open>The program.\<close> A daemon (\<open>daemon/\<close>) reads a configuration file and a directory of table descriptions,
  starts one thread for each built-in probe and one for each extended probe (a command whose output
  it reads), and an ingress, an egress, a command and a web server thread. A probe prints lines
  \<open>|table|v1|v2|...|\<close>. The built-in ones print with a wrapped \<open>fprintf\<close> that puts each line into the fifo of
  the probe (\<open>lib/probe/probe.c\<close>); the output of an extended one is cut into lines (\<open>lib/probe/extend_probe.c\<close>).
  The ingress thread (\<open>ingress/\<close>) empties these fifos: it stores each line as a record of an in-memory
  database (\<open>lib/imdb/\<close>) and puts its JSON text into the fifo of the egress thread (\<open>egress/\<close>), which gives
  it to Kafka (\<open>lib/kafka/\<close>). A request to the web server (\<open>web_server/\<close>) prints the records in the format of
  Prometheus and consumes them. The resource manager (\<open>resource/\<close>) owns all these parts. Two of the probes are
  modelled as well: the eBPF probe of TCP links (\<open>probes/extends/ebpf.probe\<close>), whose handlers in the kernel
  collect what its user program prints, and the probe of system processes (\<open>probes/system_infos.probe\<close>).

  \<^bold>\<open>How C is modelled.\<close> \<open>Prelude\<close> holds what the components share. A C string is the list of its characters
  before the NUL. Machine integers are words; where the code computes in \<open>int\<close> the model has \<open>int\<close>, with the
  conversions written out. Undefined behaviour is a value: the type \<open>'a c\<close> is \<open>ub + 'a\<close>, and a definition
  returns \<open>Inl\<close> of \<open>NullDeref\<close>, \<open>OutOfBounds\<close>, \<open>BadFormat\<close>, \<open>UseAfterFree\<close>, \<open>DoubleFree\<close> or \<open>BadThread\<close> where
  the code would do that. The heap counts the live blocks (\<open>mlive\<close>), and its script (\<open>mscript\<close>) says which of the
  coming allocations fail, so a theorem about every heap is one about every pattern of failures; a
  leak is a change of \<open>mlive\<close> that no owner accounts for. Return codes are kept as the code has them.
  Calls of the system and of libraries that are not in the repository are parameters: libconfig
  (\<open>Libconfig\<close>), librdkafka, libmicrohttpd, uthash, \<open>getopt\<close>, \<open>popen\<close>, \<open>pthread\<close>, epoll, sockets and clocks.
  Their assumptions are named hypotheses (\<open>uthash_ok\<close>, \<open>tools_ok\<close>), and witnesses instantiate them.

  \<^bold>\<open>Interfaces.\<close> \<open>Interfaces\<close> has the locales: a bounded queue with the laws of its two operations and the
  loop that drains it (\<open>bounded_queue\<close>, interpreted as \<open>fq\<close> on \<open>FifoPut\<close> and \<open>FifoGet\<close> in \<open>Fifo\<close> and used by the
  probes, the ingress and the egress), and a table of bounded capacity, without and with lookup by name
  (\<open>registry\<close>, \<open>keyed_registry\<close>, \<open>unique_registry\<close>, interpreted on the managers of fifos, measurements, probes, extended probes and
  tables where these are defined).

  \<^bold>\<open>The theories.\<close>
  \<^item> \<open>Fifo\<close> (\<open>lib/fifo\<close>): the ring with its wrapping 32-bit counters. It refines a bounded queue, and under
    any interleaving of one producer and one consumer at the memory barriers it loses and reorders
    nothing and stays in its buffer.
  \<^item> \<open>Libconfig\<close>, \<open>Config\<close> (\<open>lib/config\<close>), \<open>Meta\<close> (\<open>lib/meta\<close>): loading the configuration and the table
    descriptions. What a successful load has stored, no access outside an array or through NULL, which
    blocks destruction leaves.
  \<^item> \<open>Args\<close> (\<open>common/args.c\<close>): the parameters of a probe from \<open>argv\<close> and from a configuration string; the two
    parsers agree on what a rendered option list says.
  \<^item> \<open>Imdb\<close>, \<open>ImdbProm\<close>, \<open>ImdbJson\<close> (\<open>lib/imdb/imdb.c\<close>): records with fixed-size key slots in a hash table. Adding
    a record refines a map update; the export to Prometheus prints and ages records within its
    buffer; the JSON texts are what their descriptions say.
  \<^item> \<open>Kafka\<close> (\<open>lib/kafka\<close>): creating and destroying a producer, sending with a bounded number of retries.
  \<^item> \<open>Probe\<close>, \<open>ExtendProbe\<close> (\<open>lib/probe\<close>): the formatter of \<open>__wrap_fprintf\<close>, loading the probes, and the cutting
    of a command's output into lines.
  \<^item> \<open>Egress\<close>, \<open>Ingress\<close>, \<open>Pipeline\<close>: the two threads and their composition with a probe. The invariant
    \<open>ingress_ok\<close> and the \<open>ledger\<close> of blocks are kept by every line; \<open>probe_line_to_kafka\<close> follows a line
    from the probe to the database and to Kafka.
  \<^item> \<open>WebServer\<close> (\<open>web_server\<close>): the callback of a request and the buffer that all answers share.
  \<^item> \<open>Resource\<close> (\<open>resource/resource.c\<close>): the ten sub-modules. \<open>rs_ledger\<close> relates the live blocks to those the
    managers own; each initialisation keeps it, and the properties are about the database that is loaded
    and about a whole life from initialisation to a second undoing.
  \<^item> \<open>Daemon\<close> (\<open>daemon/\<close>): which threads are started, waited for and restarted, and the main function. The handler
    of the timer signal (\<open>DaemonKeeplive\<close>) creates a thread for the first dead probe and joins it. The signal is
    sent to the process, so any thread that does not sit in the handler may run it next: \<open>keep_step\<close> has the
    signals and the ends of probes as events, and \<open>keeper\<close> lists the joins that have not returned.
  \<^item> \<open>Cmd\<close> (\<open>cmd/\<close>): the command server and \<open>gopher-ctl\<close>, down to the bytes of a request.
  \<^item> \<open>Event\<close> (\<open>common/event.c\<close>, \<open>probes/event.probe\<close>): how events are reported and what arrives of them. The
    commands \<open>cat | wc\<close> and \<open>sed\<close> that the probe runs are parameters, with \<open>tools_ok\<close> as what they document; a tick
    carries the file at that time and the bytes that the uninitialised \<open>line\<close> holds.
  \<^item> \<open>BpfMap\<close>, \<open>TcpBpf\<close>, \<open>TcpLinks\<close> (\<open>ebpf.probe/src/include/__bpf_kern.h\<close>, \<open>tcpprobe/tcpprobe.bpf.c\<close>): the maps of the
    kernel are partial functions with their capacity, the state \<open>kstate\<close> holds all of them and the records
    handed over, and every handler is a function on it; \<open>kstep\<close> runs one. What the kernel holds in a socket is
    given (\<open>kenv\<close>). \<open>TcpLinks\<close> shows what any sequence of handlers keeps: the counters add up, links are
    never removed, reports keep their period.
  \<^item> \<open>Scan\<close>, \<open>TcpLib\<close>, \<open>TcpLines\<close> (\<open>ebpf.probe/src/lib/tcp.c\<close>): \<open>fgets\<close> and the scanning of numbers, the tables of
    listening ports, connections and endpoints read from the output of \<open>ss\<close>, and a round trip: lines written
    from a description of sockets are read back as these.
  \<^item> \<open>TcpProbe\<close> (\<open>tcpprobe/tcpprobe.c\<close>, \<open>lib/util.c\<close>): the user program: what it prints of a record, and the table of
    descriptors it hands to the kernel at the start, joined with the handlers that read it.
  \<^item> \<open>SystemProcs\<close> (\<open>system_infos.probe/system_procs.c\<close>): the table of processes, the readers of \<open>/proc\<close>, a call of the
    probe and the white list; what each call prints, what it keeps, and when it forgets.

  \<^bold>\<open>Loops and fuel.\<close> Loops over lists and strings are structural recursion or have a measure. The loop
  that drains a fifo has fuel for one round more than the fifo has slots; \<open>fifo_fuel\<close> shows that a well-formed
  fifo never uses it up, so the theorems state the result outright. The threads' endless loops
  process the list of answers that epoll gives. \<open>DoRunExtProbe\<close> returns \<open>None\<close> for a command that is
  started again for ever.

  \<^bold>\<open>Not modelled.\<close> Logging and the debug build (\<open>GOPHER_DEBUG\<close>); the bodies under \<open>#if 0\<close>; \<open>common/kern_config.c\<close>;
  the other probes for system information (\<open>system_infos.c\<close>, \<open>system_meminfo.c\<close>, \<open>system_vmstat.c\<close>, \<open>example.c\<close>);
  the other eBPF probes with their user programs, and \<open>container.c\<close>, \<open>elf_reader.c\<close> and \<open>task_stat.c\<close> of their
  library; the generated kernel headers; the probes in Python and shell; the tests. Smaller limits are noted
  with the components of the manifest: the number that \<open>skip_atoi\<close> reads does not overflow, all fifos of the
  built-in probes get one answer from \<open>eventfd\<close>, the contents of a field are what \<open>FieldLoad\<close> reads.
  Threads interleave only where it is said (\<open>spsc_step\<close>, \<open>keep_step\<close>); elsewhere a thread's turn is one step, as the lock of the database and the single producer and
  consumer of each fifo make it, except for the record that is printed after the lock is released
  (listed among the findings of the manifest).
\<close>

end
